(* ===== verification/Prelude.thy ===== *)
theory Prelude
  imports Main "HOL-Library.Word" "HOL-Library.Multiset"
begin

text \<open>
  Vocabulary shared by every component: the machine integers of the Rust sources, the
  outcome of fallible code, little-endian byte strings, and the generic facts on lists,
  maps and words that the component proofs use.

  A Rust function that returns \<open>Result<A, E>\<close> and may also panic is modelled with values of
  \<open>E fault + A\<close>: \<open>Inr a\<close> is \<open>Ok(a)\<close>, \<open>Inl (Err e)\<close> is \<open>Err(e)\<close> and \<open>Inl (Panic m)\<close> is
  the unwinding of the thread by \<open>unwrap\<close>, \<open>expect\<close>, an arithmetic overflow check or an
  allocation that exceeds the address space.
\<close>

section \<open>Machine integers and outcomes\<close>

type_synonym u8 = "8 word"
type_synonym u16 = "16 word"
type_synonym u32 = "32 word"
type_synonym u64 = "64 word"
type_synonym bytes = "u8 list"

datatype 'e fault = Err 'e | Panic string

text \<open>The \<open>?\<close> operator and \<open>and_then\<close>: stop at the first fault.\<close>

definition rbind :: "'e + 'a \<Rightarrow> ('a \<Rightarrow> 'e + 'b) \<Rightarrow> 'e + 'b" where
  "rbind m f = (case m of Inl e \<Rightarrow> Inl e | Inr x \<Rightarrow> f x)"

text \<open>A method on \<open>&mut self\<close>: the outcome and the state it leaves behind, which is kept when it fails.\<close>

type_synonym ('s, 'e, 'a) mut_fn = "'s \<Rightarrow> ('e fault + 'a) \<times> 's"

definition mbind :: "('e + 'a) \<times> 's \<Rightarrow> ('a \<Rightarrow> 's \<Rightarrow> ('e + 'b) \<times> 's) \<Rightarrow> ('e + 'b) \<times> 's" where
  "mbind m f = (case m of (Inl e, s) \<Rightarrow> (Inl e, s) | (Inr x, s) \<Rightarrow> f x s)"

text \<open>\<open>map_err\<close> of a result.\<close>

definition map_err :: "('a \<Rightarrow> 'c) \<Rightarrow> 'a + 'b \<Rightarrow> 'c + 'b" where
  "map_err f m = (case m of Inl e \<Rightarrow> Inl (f e) | Inr x \<Rightarrow> Inr x)"

text \<open>The conversion of an error by \<open>?\<close>; a panic stays a panic.\<close>

definition map_fault :: "('e \<Rightarrow> 'f) \<Rightarrow> 'e fault \<Rightarrow> 'f fault" where
  "map_fault f x = (case x of Err e \<Rightarrow> Err (f e) | Panic m \<Rightarrow> Panic m)"

text \<open>Saturating arithmetic on a fixed width.\<close>

definition saturating_add :: "'a::len word \<Rightarrow> 'a word \<Rightarrow> 'a word" where
  "saturating_add a b = (if unat a + unat b < 2 ^ LENGTH('a) then a + b else - 1)"

definition saturating_sub :: "'a::len word \<Rightarrow> 'a word \<Rightarrow> 'a word" where
  "saturating_sub a b = (if b \<le> a then a - b else 0)"

text \<open>The operators \<open>+\<close> and \<open>-\<close> of a build with overflow checks: leaving the width is a panic.\<close>

definition checked_plus :: "'a::len word \<Rightarrow> 'a word \<Rightarrow> 'e fault + 'a word" where
  "checked_plus a b =
     (if unat a + unat b < 2 ^ LENGTH('a) then Inr (a + b)
      else Inl (Panic ''attempt to add with overflow''))"

definition usize_minus :: "nat \<Rightarrow> nat \<Rightarrow> 'e fault + nat" where
  "usize_minus a b =
     (if b \<le> a then Inr (a - b) else Inl (Panic ''attempt to subtract with overflow''))"

text \<open>Little-endian byte strings of a given length, and the number such a string stands for.\<close>

fun nat_to_le :: "nat \<Rightarrow> nat \<Rightarrow> bytes" where
  "nat_to_le 0 x = []"
| "nat_to_le (Suc n) x = of_nat (x mod 256) # nat_to_le n (x div 256)"

fun le_to_nat :: "bytes \<Rightarrow> nat" where
  "le_to_nat [] = 0"
| "le_to_nat (b # bs) = unat b + 256 * le_to_nat bs"

named_theorems codec_enc \<open>decoding what an encoder wrote\<close>
named_theorems codec_dec \<open>what a successful decoder has read\<close>

section \<open>Facts on outcomes and saturating arithmetic\<close>

lemma rbind_simps [simp]:
  "rbind (Inl e) f = Inl e"
  "rbind (Inr x) f = f x"
  by (simp_all add: rbind_def)

lemma rbind_eq_Inr: "rbind m f = Inr y \<longleftrightarrow> (\<exists>x. m = Inr x \<and> f x = Inr y)"
  by (cases m) auto

lemma mbind_simps [simp]:
  "mbind (Inl e, s) f = (Inl e, s)"
  "mbind (Inr x, s) f = f x s"
  by (simp_all add: mbind_def)

lemma mbind_eq_Inr: "mbind m f = (Inr y, t) \<longleftrightarrow> (\<exists>x s. m = (Inr x, s) \<and> f x s = (Inr y, t))"
  by (cases m; cases "fst m") auto

lemma map_err_simps [simp]:
  "map_err f (Inl e) = Inl (f e)"
  "map_err f (Inr x) = Inr x"
  by (simp_all add: map_err_def)

lemma map_err_eq_Inr [simp]: "map_err f m = Inr x \<longleftrightarrow> m = Inr x"
  by (cases m) simp_all

lemma map_fault_simps [simp]: "map_fault f (Err e) = Err (f e)" "map_fault f (Panic m) = Panic m"
  by (simp_all add: map_fault_def)

lemma unat_saturating_add:
  "unat (saturating_add a b) = min (unat a + unat b) (2 ^ LENGTH('a) - 1)"
  for a b :: "'a::len word"
proof (cases "unat a + unat b < 2 ^ LENGTH('a)")
  case True
  then have "min (unat a + unat b) (2 ^ LENGTH('a) - 1) = unat a + unat b" by linarith
  with True show ?thesis by (simp add: saturating_add_def unat_word_ariths)
next
  case False
  then have "min (unat a + unat b) (2 ^ LENGTH('a) - 1) = 2 ^ LENGTH('a) - 1" by linarith
  with False show ?thesis
    by (simp add: saturating_add_def unsigned_minus_1_eq_mask mask_eq_exp_minus_1)
qed

lemma unat_saturating_sub: "unat (saturating_sub a b) = unat a - unat b"
  by (simp add: saturating_sub_def unat_sub_if' word_le_nat_alt)

lemma unat_bounds:
  "unat (b :: u8) < 256" "unat (h :: u16) < 65536" "unat (w :: u32) < 4294967296"
  "unat (d :: u64) < 18446744073709551616"
  using unsigned_less [where 'a = nat, of b] unsigned_less [where 'a = nat, of h]
    unsigned_less [where 'a = nat, of w] unsigned_less [where 'a = nat, of d]
  by simp_all

lemma unat_plus_simple: "unat a + unat b < 2 ^ LENGTH('a) \<Longrightarrow> unat (a + b) = unat a + unat b"
  for a b :: "'a::len word"
  by (simp add: unat_word_ariths)

lemma checked_plus_of_nat:
  "m < 2 ^ LENGTH('a) \<Longrightarrow> checked_plus (of_nat m) b =
     (if m + unat b < 2 ^ LENGTH('a) then Inr (of_nat (m + unat b))
      else Inl (Panic ''attempt to add with overflow''))" for b :: "'a::len word"
  by (simp add: checked_plus_def unat_of_nat)

section \<open>Facts on little-endian byte strings\<close>

lemma length_nat_to_le [simp]: "length (nat_to_le n x) = n"
  by (induction n arbitrary: x) auto

lemma le_to_nat_bound: "le_to_nat bs < 256 ^ length bs"
proof (induction bs)
  case Nil
  then show ?case by simp
next
  case (Cons b bs)
  have "unat b < 256" using unsigned_less [where 'a = nat, of b] by simp
  with Cons show ?case by simp
qed

lemma le_to_nat_to_le: "le_to_nat (nat_to_le n x) = x mod 256 ^ n"
proof (induction n arbitrary: x)
  case 0
  then show ?case by simp
next
  case (Suc n)
  have "x mod 256 ^ Suc n = 256 * (x div 256 mod 256 ^ n) + x mod 256"
    by (simp add: mod_mult2_eq)
  with Suc show ?case by (simp add: unat_of_nat)
qed

lemma nat_to_le_to_nat: "nat_to_le (length bs) (le_to_nat bs) = bs"
proof (induction bs)
  case Nil
  then show ?case by simp
next
  case (Cons b bs)
  have b: "unat b < 256" using unsigned_less [where 'a = nat, of b] by simp
  then have "(unat b + 256 * le_to_nat bs) mod 256 = unat b"
    and "(unat b + 256 * le_to_nat bs) div 256 = le_to_nat bs" by simp_all
  with Cons show ?case by simp
qed

section \<open>Facts on lists and association lists\<close>

lemma take_append_drop_eqI: "length xs = n \<Longrightarrow> take n (xs @ ys) = xs \<and> drop n (xs @ ys) = ys"
  by auto

lemma map_of_filter_fst:
  "map_of (filter (\<lambda>p. P (fst p)) xs) k = (if P k then map_of xs k else None)"
  by (induction xs) auto

lemma map_of_append_cases:
  "map_of (xs @ ys) k = (case map_of xs k of Some v \<Rightarrow> Some v | None \<Rightarrow> map_of ys k)"
  by (simp add: map_add_def split: option.splits)

section \<open>Characters\<close>

definition is_ascii_uppercase :: "char \<Rightarrow> bool" where
  "is_ascii_uppercase c \<longleftrightarrow> 65 \<le> (of_char c :: nat) \<and> (of_char c :: nat) \<le> 90"

definition is_ascii_lowercase :: "char \<Rightarrow> bool" where
  "is_ascii_lowercase c \<longleftrightarrow> 97 \<le> (of_char c :: nat) \<and> (of_char c :: nat) \<le> 122"

definition to_ascii_lowercase :: "char \<Rightarrow> char" where
  "to_ascii_lowercase c = (if is_ascii_uppercase c then char_of (of_char c + (32 :: nat)) else c)"

end
