(* ===== verification/Encode.thy ===== *)
theory Encode
  imports Prelude
begin

text \<open>
  The consensus encoding of \<^verbatim>\<open>rust-elements/src/encode.rs\<close> and \<^verbatim>\<open>rust-elements/src/ext.rs\<close>:
  integers, variable-length integers, byte vectors, vectors of encodable things and optional
  proofs. An encoder writes into a growable buffer and is modelled by the bytes it appends; a
  decoder reads from a cursor and is modelled by a function from the remaining input to the
  value and the input that is left.

  What the code takes from other crates is collected in the record \<open>env\<close>: whether
  libsecp256k1-zkp accepts a serialized point, scalar or proof (each is represented by its
  serialization), the limit \<open>MAX_VEC_SIZE\<close> of the bitcoin crate, and the size in memory of
  Rust types, by name. The target is 64-bit, so \<open>usize\<close> and \<open>u64\<close> agree.
\<close>

section \<open>Errors and the environment\<close>

datatype encode_error =
    Io
  | Bitcoin
  | OversizedVectorAllocation nat nat
  | ParseFailed string
  | UnexpectedEOF
  | InvalidConfidentialPrefix u8
  | Secp256k1
  | Secp256k1zkp
  | PsetError
  | HexError
  | BadLockTime u32
  | NonMinimalVarInt

record env =
  pedersen_ok :: "bytes \<Rightarrow> bool"
  generator_ok :: "bytes \<Rightarrow> bool"
  pubkey_ok :: "bytes \<Rightarrow> bool"
  tweak_ok :: "bytes \<Rightarrow> bool"
  rangeproof_ok :: "bytes \<Rightarrow> bool"
  surjection_ok :: "bytes \<Rightarrow> bool"
  max_vec_size :: nat
  size_of :: "string \<Rightarrow> nat"

type_synonym 'a decoder = "bytes \<Rightarrow> encode_error fault + ('a \<times> bytes)"

section \<open>Readers and writers\<close>

definition dret :: "'a \<Rightarrow> 'a decoder" where
  "dret x bs = Inr (x, bs)"

definition dfail :: "encode_error fault \<Rightarrow> 'a decoder" where
  "dfail f bs = Inl f"

definition dbind :: "'a decoder \<Rightarrow> ('a \<Rightarrow> 'b decoder) \<Rightarrow> 'b decoder" where
  "dbind d f bs = (case d bs of Inl e \<Rightarrow> Inl e | Inr (x, r) \<Rightarrow> f x r)"

definition read_slice :: "nat \<Rightarrow> bytes decoder" where
  "read_slice n bs = (if length bs < n then Inl (Err Io) else Inr (take n bs, drop n bs))"

definition emit_u8 :: "u8 \<Rightarrow> bytes" where
  "emit_u8 v = [v]"

definition emit_u16 :: "u16 \<Rightarrow> bytes" where
  "emit_u16 v = nat_to_le 2 (unat v)"

definition emit_u32 :: "u32 \<Rightarrow> bytes" where
  "emit_u32 v = nat_to_le 4 (unat v)"

definition emit_u64 :: "u64 \<Rightarrow> bytes" where
  "emit_u64 v = nat_to_le 8 (unat v)"

definition read_u8 :: "u8 decoder" where
  "read_u8 = dbind (read_slice 1) (\<lambda>s. dret (hd s))"

definition read_u16 :: "u16 decoder" where
  "read_u16 = dbind (read_slice 2) (\<lambda>s. dret (of_nat (le_to_nat s)))"

definition read_u32 :: "u32 decoder" where
  "read_u32 = dbind (read_slice 4) (\<lambda>s. dret (of_nat (le_to_nat s)))"

definition read_u64 :: "u64 decoder" where
  "read_u64 = dbind (read_slice 8) (\<lambda>s. dret (of_nat (le_to_nat s)))"

definition emit_varint :: "u64 \<Rightarrow> bytes" where
  "emit_varint v =
     (if v \<le> 0xFC then emit_u8 (ucast v)
      else if v \<le> 0xFFFF then emit_u8 0xFD @ emit_u16 (ucast v)
      else if v \<le> 0xFFFFFFFF then emit_u8 0xFE @ emit_u32 (ucast v)
      else emit_u8 0xFF @ emit_u64 v)"

definition read_varint :: "u64 decoder" where
  "read_varint = dbind read_u8 (\<lambda>n.
     if n = 0xFF then dbind read_u64 (\<lambda>x.
       if x < 0x100000000 then dfail (Err NonMinimalVarInt) else dret x)
     else if n = 0xFE then dbind read_u32 (\<lambda>x.
       if x < 0x10000 then dfail (Err NonMinimalVarInt) else dret (ucast x))
     else if n = 0xFD then dbind read_u16 (\<lambda>x.
       if x < 0xFD then dfail (Err NonMinimalVarInt) else dret (ucast x))
     else dret (ucast n))"

definition VarInt_size :: "u64 \<Rightarrow> nat" where
  "VarInt_size v =
     (if v \<le> 0xFC then 1 else if v \<le> 0xFFFF then 3 else if v \<le> 0xFFFFFFFF then 5 else 9)"

section \<open>Byte vectors, vectors, optional proofs\<close>

definition consensus_encode_with_size :: "bytes \<Rightarrow> bytes" where
  "consensus_encode_with_size data = emit_varint (of_nat (length data)) @ data"

definition decode_byte_vec :: "env \<Rightarrow> bytes decoder" where
  "decode_byte_vec E = dbind read_varint (\<lambda>s.
     if max_vec_size E < unat s
     then dfail (Err (OversizedVectorAllocation (unat s) (max_vec_size E)))
     else read_slice (unat s))"

fun decode_n :: "nat \<Rightarrow> 'a decoder \<Rightarrow> 'a list decoder" where
  "decode_n 0 d = dret []"
| "decode_n (Suc n) d = dbind d (\<lambda>x. dbind (decode_n n d) (\<lambda>xs. dret (x # xs)))"

definition encode_vec :: "('a \<Rightarrow> bytes) \<Rightarrow> 'a list \<Rightarrow> bytes" where
  "encode_vec enc xs = emit_varint (of_nat (length xs)) @ concat (map enc xs)"

definition decode_vec :: "env \<Rightarrow> string \<Rightarrow> 'a decoder \<Rightarrow> 'a list decoder" where
  "decode_vec E ty d = dbind read_varint (\<lambda>len.
     let byte_size = unat len * size_of E ty in
     if 2 ^ 64 \<le> byte_size then dfail (Err (ParseFailed ''Invalid length''))
     else if max_vec_size E < byte_size
     then dfail (Err (OversizedVectorAllocation byte_size (max_vec_size E)))
     else decode_n (unat len) d)"

definition encode_box_option :: "bytes option \<Rightarrow> bytes" where
  "encode_box_option p =
     (case p of None \<Rightarrow> consensus_encode_with_size [] | Some v \<Rightarrow> consensus_encode_with_size v)"

definition decode_box_option :: "env \<Rightarrow> (bytes \<Rightarrow> bool) \<Rightarrow> bytes option decoder" where
  "decode_box_option E ok = dbind (decode_byte_vec E) (\<lambda>v.
     if v = [] then dret None
     else if ok v then dret (Some v) else dfail (Err Secp256k1zkp))"

definition decode_tweak :: "env \<Rightarrow> bytes decoder" where
  "decode_tweak E = dbind (read_slice 32) (\<lambda>v.
     if tweak_ok E v then dret v else dfail (Err Secp256k1zkp))"

section \<open>Whole buffers\<close>

definition deserialize_partial :: "'a decoder \<Rightarrow> bytes \<Rightarrow> encode_error fault + ('a \<times> nat)" where
  "deserialize_partial d data =
     rbind (d data) (\<lambda>(rv, rest). Inr (rv, length data - length rest))"

definition deserialize :: "'a decoder \<Rightarrow> bytes \<Rightarrow> encode_error fault + 'a" where
  "deserialize d data = rbind (deserialize_partial d data) (\<lambda>(rv, consumed).
     if consumed = length data then Inr rv
     else Inl (Err (ParseFailed
       ''data not consumed entirely when explicitly deserializing'')))"

section \<open>Lemmas on the reader combinators\<close>

lemma dbind_apply [codec_enc]:
  "dbind d f bs = (case d bs of Inl e \<Rightarrow> Inl e | Inr (x, r) \<Rightarrow> f x r)"
  by (rule dbind_def)

lemma dret_apply [codec_enc]: "dret x bs = Inr (x, bs)"
  by (rule dret_def)

lemma dbind_InrE [codec_dec]:
  "dbind d f bs = Inr (y, r) \<longleftrightarrow> (\<exists>x r'. d bs = Inr (x, r') \<and> f x r' = Inr (y, r))"
  by (auto simp: dbind_def split: sum.splits)

lemma dret_Inr [codec_dec]: "dret x bs = Inr (y, r) \<longleftrightarrow> y = x \<and> r = bs"
  by (auto simp: dret_def)

lemma dfail_Inr [codec_dec]: "dfail e bs = Inr (y, r) \<longleftrightarrow> False"
  by (simp add: dfail_def)

lemma read_slice_append [codec_enc]: "length xs = n \<Longrightarrow> read_slice n (xs @ r) = Inr (xs, r)"
  by (auto simp: read_slice_def)

lemma read_slice_Inr [codec_dec]:
  "read_slice n bs = Inr (x, r) \<longleftrightarrow> bs = x @ r \<and> length x = n"
  by (auto simp: read_slice_def)

section \<open>Fixed-width integers\<close>

lemma emit_lengths [simp]:
  "length (emit_u8 a) = 1" "length (emit_u16 b) = 2"
  "length (emit_u32 c) = 4" "length (emit_u64 d) = 8"
  by (simp_all add: emit_u8_def emit_u16_def emit_u32_def emit_u64_def)

lemma of_nat_le_to_nat_to_le:
  assumes "256 ^ n = (2::nat) ^ LENGTH('a)"
  shows "of_nat (le_to_nat (nat_to_le n (unat w))) = (w :: 'a::len word)"
  using assms unsigned_less [where 'a = nat, of w] by (simp add: le_to_nat_to_le)

lemma nat_to_le_of_nat_le_to_nat:
  assumes "length bs = n" and "256 ^ n = (2::nat) ^ LENGTH('a)"
  shows "nat_to_le n (unat (of_nat (le_to_nat bs) :: 'a::len word)) = bs"
proof -
  have "le_to_nat bs < 2 ^ LENGTH('a)" using le_to_nat_bound [of bs] assms by simp
  then have "unat (of_nat (le_to_nat bs) :: 'a word) = le_to_nat bs"
    by (simp add: unat_of_nat)
  then show ?thesis using nat_to_le_to_nat [of bs] assms(1) by simp
qed

lemma read_u8_emit [codec_enc]: "read_u8 (emit_u8 v @ r) = Inr (v, r)"
  by (simp add: read_u8_def emit_u8_def dbind_def dret_def read_slice_def)

lemma read_u16_emit [codec_enc]: "read_u16 (emit_u16 v @ r) = Inr (v, r)"
  by (simp add: read_u16_def emit_u16_def codec_enc of_nat_le_to_nat_to_le)

lemma read_u32_emit [codec_enc]: "read_u32 (emit_u32 v @ r) = Inr (v, r)"
  by (simp add: read_u32_def emit_u32_def codec_enc of_nat_le_to_nat_to_le)

lemma read_u64_emit [codec_enc]: "read_u64 (emit_u64 v @ r) = Inr (v, r)"
  by (simp add: read_u64_def emit_u64_def codec_enc of_nat_le_to_nat_to_le)

lemma read_u8_Inr [codec_dec]: "read_u8 bs = Inr (x, r) \<longleftrightarrow> bs = emit_u8 x @ r"
  by (auto simp: read_u8_def emit_u8_def codec_dec length_Suc_conv)

lemma read_u16_Inr [codec_dec]: "read_u16 bs = Inr (x, r) \<longleftrightarrow> bs = emit_u16 x @ r"
  by (auto simp: read_u16_def emit_u16_def codec_dec nat_to_le_of_nat_le_to_nat
      of_nat_le_to_nat_to_le intro!: exI [where x = "nat_to_le 2 (unat x)"])

lemma read_u32_Inr [codec_dec]: "read_u32 bs = Inr (x, r) \<longleftrightarrow> bs = emit_u32 x @ r"
  by (auto simp: read_u32_def emit_u32_def codec_dec nat_to_le_of_nat_le_to_nat
      of_nat_le_to_nat_to_le intro!: exI [where x = "nat_to_le 4 (unat x)"])

lemma read_u64_Inr [codec_dec]: "read_u64 bs = Inr (x, r) \<longleftrightarrow> bs = emit_u64 x @ r"
  by (auto simp: read_u64_def emit_u64_def codec_dec nat_to_le_of_nat_le_to_nat
      of_nat_le_to_nat_to_le intro!: exI [where x = "nat_to_le 8 (unat x)"])

section \<open>Variable-length integers\<close>

lemma ucast_ucast_small:
  "unat v < 2 ^ LENGTH('b) \<Longrightarrow> ucast (ucast v :: 'b::len word) = v" for v :: "'a::len word"
  by (simp add: word_eq_iff_unsigned [where 'a = nat] unsigned_ucast_eq unsigned_take_bit_eq
      take_bit_nat_eq_self)

lemma unat_ucast_small:
  "unat v < 2 ^ LENGTH('b) \<Longrightarrow> unat (ucast v :: 'b::len word) = unat v" for v :: "'a::len word"
  by (simp add: unsigned_ucast_eq take_bit_nat_eq_self)

lemma varint_tag_cases:
  fixes n :: u8
  assumes "n \<noteq> 0xFF" "n \<noteq> 0xFE" "n \<noteq> 0xFD"
  shows "unat n \<le> 0xFC"
proof -
  have "unat n < 256" using unsigned_less [where 'a = nat, of n] by simp
  moreover have "unat n \<noteq> 255" "unat n \<noteq> 254" "unat n \<noteq> 253"
    using assms by (auto simp: word_eq_iff_unsigned [where 'a = nat])
  ultimately show ?thesis by linarith
qed

lemma read_varint_emit [codec_enc]: "read_varint (emit_varint v @ r) = Inr (v, r)"
proof -
  consider "v \<le> 0xFC" | "0xFC < v" "v \<le> 0xFFFF" | "0xFFFF < v" "v \<le> 0xFFFFFFFF"
    | "0xFFFFFFFF < v" by fastforce
  then show ?thesis
  proof cases
    case 1
    then have u: "unat v \<le> 0xFC" by (simp add: word_le_nat_alt)
    then have "unat (ucast v :: u8) \<le> 0xFC" by (simp add: unat_ucast_small)
    then have "(ucast v :: u8) \<noteq> 0xFF" "(ucast v :: u8) \<noteq> 0xFE" "(ucast v :: u8) \<noteq> 0xFD"
      by auto
    with 1 u show ?thesis
      by (simp add: emit_varint_def read_varint_def codec_enc ucast_ucast_small)
  next
    case 2
    then have u: "0xFC < unat v" "unat v \<le> 0xFFFF" by (simp_all add: word_le_nat_alt word_less_nat_alt)
    then have "\<not> (ucast v :: u16) < 0xFD" by (simp add: word_less_nat_alt unat_ucast_small)
    moreover have "\<not> v \<le> 0xFC" using 2 by (simp add: word_le_nat_alt word_less_nat_alt)
    ultimately show ?thesis using 2 u
      by (simp add: emit_varint_def read_varint_def codec_enc ucast_ucast_small)
  next
    case 3
    then have u: "0xFFFF < unat v" "unat v \<le> 0xFFFFFFFF" by (simp_all add: word_le_nat_alt word_less_nat_alt)
    then have "\<not> (ucast v :: u32) < 0x10000" by (simp add: word_less_nat_alt unat_ucast_small)
    moreover have "\<not> v \<le> 0xFC" "\<not> v \<le> 0xFFFF" using 3 by (simp_all add: word_le_nat_alt word_less_nat_alt)
    ultimately show ?thesis using 3 u
      by (simp add: emit_varint_def read_varint_def codec_enc ucast_ucast_small)
  next
    case 4
    then have "\<not> v \<le> 0xFC" "\<not> v \<le> 0xFFFF" "\<not> v \<le> 0xFFFFFFFF" "\<not> v < 0x100000000"
      by (simp_all add: word_le_nat_alt word_less_nat_alt)
    with 4 show ?thesis
      by (simp add: emit_varint_def read_varint_def codec_enc)
  qed
qed

lemma emit_varint_tagged:
  "\<not> (y :: u16) < 0xFD \<Longrightarrow> emit_varint (ucast y) = emit_u8 0xFD @ emit_u16 y"
  "\<not> (z :: u32) < 0x10000 \<Longrightarrow> emit_varint (ucast z) = emit_u8 0xFE @ emit_u32 z"
  "\<not> (w :: u64) < 0x100000000 \<Longrightarrow> emit_varint w = emit_u8 0xFF @ emit_u64 w"
  "unat (n :: u8) \<le> 0xFC \<Longrightarrow> emit_varint (ucast n) = emit_u8 n"
  using unsigned_less [where 'a = nat, of y] unsigned_less [where 'a = nat, of z]
  by (auto simp: emit_varint_def word_le_nat_alt word_less_nat_alt unsigned_ucast_eq
      take_bit_nat_eq_self take_bit_word_eq_self)

lemma read_varint_Inr [codec_dec]: "read_varint bs = Inr (x, r) \<longleftrightarrow> bs = emit_varint x @ r"
proof
  assume "read_varint bs = Inr (x, r)"
  then show "bs = emit_varint x @ r"
    by (auto simp: read_varint_def codec_dec emit_varint_tagged varint_tag_cases split: if_splits)
next
  assume "bs = emit_varint x @ r"
  then show "read_varint bs = Inr (x, r)" by (simp add: read_varint_emit)
qed

lemma length_emit_varint: "length (emit_varint v) = VarInt_size v"
  by (simp add: emit_varint_def VarInt_size_def)

section \<open>The interface between an encoder and its decoder\<close>

text \<open>
  A codec is an encoder and a decoder that agree on the well-formed values: the decoder gives
  back what was encoded and leaves the rest of the input, and it accepts nothing but the bytes
  the encoder writes. The encoder may fail (a header without its anchor panics); one that
  cannot fail is a \<open>total_codec\<close>.
\<close>

locale codec =
  fixes enc :: "'a \<Rightarrow> encode_error fault + bytes"
    and dec :: "'a decoder"
    and wf :: "'a \<Rightarrow> bool"
  assumes encodes: "wf x \<Longrightarrow> \<exists>b. enc x = Inr b"
    and decode_encode: "wf x \<Longrightarrow> enc x = Inr b \<Longrightarrow> dec (b @ r) = Inr (x, r)"
    and encode_decode: "dec bs = Inr (x, r) \<Longrightarrow> wf x \<and> (\<exists>b. enc x = Inr b \<and> bs = b @ r)"
begin

lemma deserialize_serialize: "wf x \<Longrightarrow> enc x = Inr b \<Longrightarrow> deserialize dec b = Inr x"
  using decode_encode [of x b "[]"] by (simp add: deserialize_def deserialize_partial_def)

lemma deserialize_sound:
  assumes "deserialize dec bs = Inr x"
  shows "wf x \<and> enc x = Inr bs"
proof -
  from assms obtain r where d: "dec bs = Inr (x, r)" and c: "length bs - length r = length bs"
    by (auto simp: deserialize_def deserialize_partial_def rbind_eq_Inr split: if_splits)
  from encode_decode [OF d] obtain b where b: "wf x" "enc x = Inr b" "bs = b @ r" by blast
  with c have "r = []" by (cases r) auto
  with b show ?thesis by simp
qed

lemma deserialize_iff: "deserialize dec bs = Inr x \<longleftrightarrow> wf x \<and> enc x = Inr bs"
  using deserialize_sound deserialize_serialize by blast

lemma serialize_inj: "wf x \<Longrightarrow> wf y \<Longrightarrow> enc x = Inr b \<Longrightarrow> enc y = Inr b \<Longrightarrow> x = y"
  using decode_encode [of x b "[]"] decode_encode [of y b "[]"] by simp

lemma prefix_free:
  "wf x \<Longrightarrow> wf y \<Longrightarrow> enc x = Inr b \<Longrightarrow> enc y = Inr c \<Longrightarrow> b @ r = c @ s \<Longrightarrow> x = y \<and> r = s"
  using decode_encode [of x b r] decode_encode [of y c s] by simp

end

locale total_codec =
  fixes enc :: "'a \<Rightarrow> bytes"
    and dec :: "'a decoder"
    and wf :: "'a \<Rightarrow> bool"
  assumes total_decode_encode: "wf x \<Longrightarrow> dec (enc x @ r) = Inr (x, r)"
    and total_encode_decode: "dec bs = Inr (x, r) \<Longrightarrow> wf x \<and> bs = enc x @ r"
begin

lemma decode_iff: "dec bs = Inr (x, r) \<longleftrightarrow> wf x \<and> bs = enc x @ r"
  using total_decode_encode total_encode_decode by blast

lemma decode_n_iff:
  "decode_n n dec bs = Inr (xs, r) \<longleftrightarrow>
     length xs = n \<and> list_all wf xs \<and> bs = concat (map enc xs) @ r"
proof (induction n arbitrary: bs xs)
  case 0
  then show ?case by (auto simp: codec_dec)
next
  case (Suc n)
  then show ?case
    by (auto simp: codec_dec decode_iff length_Suc_conv)
qed

end

sublocale total_codec \<subseteq> codec "\<lambda>x. Inr (enc x)" dec wf
  by unfold_locales (auto simp: decode_iff)

context total_codec begin

text \<open>A vector of codec elements is a codec: every element well-formed, and the length within
  what the decoder is willing to allocate.\<close>

lemma vec_total_codec:
  "total_codec (encode_vec enc) (decode_vec E ty dec)
     (\<lambda>xs. list_all wf xs \<and> length xs < 2 ^ 64 \<and> length xs * size_of E ty < 2 ^ 64 \<and>
           length xs * size_of E ty \<le> max_vec_size E)"
proof
  fix xs :: "'a list" and r
  assume a: "list_all wf xs \<and> length xs < 2 ^ 64 \<and> length xs * size_of E ty < 2 ^ 64 \<and>
    length xs * size_of E ty \<le> max_vec_size E"
  then have "unat (of_nat (length xs) :: u64) = length xs" by (simp add: unat_of_nat)
  with a show "decode_vec E ty dec (encode_vec enc xs @ r) = Inr (xs, r)"
    by (simp add: decode_vec_def encode_vec_def codec_enc Let_def decode_n_iff not_less)
next
  fix bs :: bytes and xs :: "'a list" and r
  assume "decode_vec E ty dec bs = Inr (xs, r)"
  then obtain len where len: "bs = emit_varint len @ concat (map enc xs) @ r"
    "length xs = unat len" "list_all wf xs"
    "\<not> 2 ^ 64 \<le> unat len * size_of E ty" "\<not> max_vec_size E < unat len * size_of E ty"
    by (auto simp: decode_vec_def codec_dec Let_def decode_n_iff split: if_splits)
  moreover have "unat len < 2 ^ 64" using unsigned_less [where 'a = nat, of len] by simp
  ultimately show "(list_all wf xs \<and> length xs < 2 ^ 64 \<and> length xs * size_of E ty < 2 ^ 64 \<and>
    length xs * size_of E ty \<le> max_vec_size E) \<and> bs = encode_vec enc xs @ r"
    by (simp add: encode_vec_def)
qed

end

interpretation u8c: total_codec emit_u8 read_u8 "\<lambda>_. True"
  by unfold_locales (auto simp: codec_dec codec_enc)

interpretation u32c: total_codec emit_u32 read_u32 "\<lambda>_. True"
  by unfold_locales (auto simp: codec_dec codec_enc)

interpretation u64c: total_codec emit_u64 read_u64 "\<lambda>_. True"
  by unfold_locales (auto simp: codec_dec codec_enc)

interpretation varint: total_codec emit_varint read_varint "\<lambda>_. True"
  by unfold_locales (auto simp: codec_dec codec_enc)

section \<open>Codecs for byte vectors, optional proofs and scalars\<close>

definition wf_byte_vec :: "env \<Rightarrow> bytes \<Rightarrow> bool" where
  "wf_byte_vec E v \<longleftrightarrow> length v < 2 ^ 64 \<and> length v \<le> max_vec_size E"

definition wf_vec :: "env \<Rightarrow> string \<Rightarrow> ('a \<Rightarrow> bool) \<Rightarrow> 'a list \<Rightarrow> bool" where
  "wf_vec E ty p xs \<longleftrightarrow> list_all p xs \<and> length xs < 2 ^ 64 \<and>
     length xs * size_of E ty < 2 ^ 64 \<and> length xs * size_of E ty \<le> max_vec_size E"

definition wf_box_option :: "env \<Rightarrow> (bytes \<Rightarrow> bool) \<Rightarrow> bytes option \<Rightarrow> bool" where
  "wf_box_option E ok p \<longleftrightarrow>
     (case p of None \<Rightarrow> True | Some v \<Rightarrow> v \<noteq> [] \<and> ok v \<and> wf_byte_vec E v)"

definition wf_array :: "nat \<Rightarrow> bytes \<Rightarrow> bool" where
  "wf_array n v \<longleftrightarrow> length v = n"

lemma unat_of_nat_length: "length xs < 2 ^ 64 \<Longrightarrow> unat (of_nat (length xs) :: u64) = length xs"
  by (simp add: unat_of_nat)

interpretation arrayc: total_codec "\<lambda>v. v" "read_slice n" "wf_array n" for n
  by unfold_locales (auto simp: codec_dec codec_enc wf_array_def)

interpretation bytevec: total_codec consensus_encode_with_size "decode_byte_vec E" "wf_byte_vec E"
  for E
proof
  fix x r
  assume "wf_byte_vec E x"
  then show "decode_byte_vec E (consensus_encode_with_size x @ r) = Inr (x, r)"
    by (simp add: decode_byte_vec_def consensus_encode_with_size_def codec_enc wf_byte_vec_def
        unat_of_nat_length not_less)
next
  fix bs x r
  assume "decode_byte_vec E bs = Inr (x, r)"
  then obtain s where "bs = emit_varint s @ x @ r" "length x = unat s" "unat s \<le> max_vec_size E"
    by (auto simp: decode_byte_vec_def codec_dec not_less split: if_splits)
  then show "wf_byte_vec E x \<and> bs = consensus_encode_with_size x @ r"
    using unsigned_less [where 'a = nat, of s]
    by (simp add: wf_byte_vec_def consensus_encode_with_size_def)
qed

declare bytevec.total_decode_encode [codec_enc] bytevec.decode_iff [codec_dec]

lemma wf_byte_vec_Nil [simp]: "wf_byte_vec E []"
  by (simp add: wf_byte_vec_def)

interpretation boxopt: total_codec encode_box_option "decode_box_option E ok" "wf_box_option E ok"
  for E ok
  by (unfold_locales,
      simp add: decode_box_option_def encode_box_option_def wf_box_option_def codec_enc
        split: option.splits,
      auto simp: decode_box_option_def encode_box_option_def wf_box_option_def codec_dec
        split: option.splits if_splits)

interpretation bytevecs: total_codec
  "encode_vec consensus_encode_with_size" "decode_vec E ''Vec<u8>'' (decode_byte_vec E)"
  "wf_vec E ''Vec<u8>'' (wf_byte_vec E)" for E
  unfolding wf_vec_def by (rule bytevec.vec_total_codec)

interpretation tweakc: total_codec "\<lambda>v. v" "decode_tweak E"
  "\<lambda>v. length v = 32 \<and> tweak_ok E v" for E
  by (unfold_locales, simp add: decode_tweak_def codec_enc,
      auto simp: decode_tweak_def codec_dec split: if_splits)

declare boxopt.total_decode_encode [codec_enc] boxopt.decode_iff [codec_dec]
declare bytevecs.total_decode_encode [codec_enc] bytevecs.decode_iff [codec_dec]
declare tweakc.total_decode_encode [codec_enc] tweakc.decode_iff [codec_dec]

lemma length_encode_with_size:
  "length (consensus_encode_with_size v) = VarInt_size (of_nat (length v)) + length v"
  by (simp add: consensus_encode_with_size_def length_emit_varint)

lemma length_encode_vec:
  "length (encode_vec enc xs) = VarInt_size (of_nat (length xs)) + (\<Sum>x\<leftarrow>xs. length (enc x))"
  by (simp add: encode_vec_def length_emit_varint length_concat comp_def)

section \<open>Properties\<close>

text \<open>C16. A variable-length integer has exactly one accepted encoding, of the announced size: a whole
  buffer reads as \<open>v\<close> exactly when it is what the writer emits for \<open>v\<close>, so padded encodings are
  refused.\<close>

theorem varint_canonical:
  "(deserialize read_varint bs = Inr v \<longleftrightarrow> bs = emit_varint v) \<and>
   length (emit_varint v) = VarInt_size v"
  by (auto simp: varint.deserialize_iff length_emit_varint)

end
