(* ===== verification/TimeLocks.thy ===== *)
theory TimeLocks
  imports Encode
begin

text \<open>
  Absolute lock times (\<^verbatim>\<open>rust-elements/src/locktime.rs\<close>) and input sequence numbers with BIP-68
  relative lock times (\<open>Sequence\<close> of \<^verbatim>\<open>rust-elements/src/transaction.rs\<close>). \<open>Height\<close> and \<open>Time\<close>
  are newtypes over \<open>u32\<close> whose constructors check the threshold; they are represented by the
  \<open>u32\<close> they hold, and \<open>wf_LockTime\<close> is what their constructors guarantee.
\<close>

unbundle bit_operations_syntax

section \<open>Absolute lock times\<close>

datatype LockTimeUnit = UnitBlocks | UnitSeconds

datatype locktime_error = Conversion LockTimeUnit u32

datatype LockTime = Blocks u32 | Seconds u32

definition LOCK_TIME_THRESHOLD :: u32 where
  "LOCK_TIME_THRESHOLD = 500000000"

definition is_block_height :: "u32 \<Rightarrow> bool" where
  "is_block_height n \<longleftrightarrow> n < LOCK_TIME_THRESHOLD"

definition is_block_time :: "u32 \<Rightarrow> bool" where
  "is_block_time n \<longleftrightarrow> LOCK_TIME_THRESHOLD \<le> n"

definition Height_from_consensus :: "u32 \<Rightarrow> locktime_error fault + u32" where
  "Height_from_consensus n =
     (if is_block_height n then Inr n else Inl (Err (Conversion UnitBlocks n)))"

definition Time_from_consensus :: "u32 \<Rightarrow> locktime_error fault + u32" where
  "Time_from_consensus n =
     (if is_block_time n then Inr n else Inl (Err (Conversion UnitSeconds n)))"

definition LockTime_from_consensus :: "u32 \<Rightarrow> locktime_error fault + LockTime" where
  "LockTime_from_consensus n =
     (if is_block_height n
      then (case Height_from_consensus n of
              Inr h \<Rightarrow> Inr (Blocks h) | Inl _ \<Rightarrow> Inl (Panic ''n is valid''))
      else (case Time_from_consensus n of
              Inr t \<Rightarrow> Inr (Seconds t) | Inl _ \<Rightarrow> Inl (Panic ''n is valid'')))"

definition LockTime_from_height :: "u32 \<Rightarrow> locktime_error fault + LockTime" where
  "LockTime_from_height n = rbind (Height_from_consensus n) (\<lambda>h. Inr (Blocks h))"

definition LockTime_from_time :: "u32 \<Rightarrow> locktime_error fault + LockTime" where
  "LockTime_from_time n = rbind (Time_from_consensus n) (\<lambda>t. Inr (Seconds t))"

fun LockTime_to_consensus_u32 :: "LockTime \<Rightarrow> u32" where
  "LockTime_to_consensus_u32 (Blocks h) = h"
| "LockTime_to_consensus_u32 (Seconds t) = t"

fun LockTime_is_block_height :: "LockTime \<Rightarrow> bool" where
  "LockTime_is_block_height (Blocks _) = True"
| "LockTime_is_block_height (Seconds _) = False"

definition LockTime_is_block_time :: "LockTime \<Rightarrow> bool" where
  "LockTime_is_block_time l = (\<not> LockTime_is_block_height l)"

fun LockTime_is_same_unit :: "LockTime \<Rightarrow> LockTime \<Rightarrow> bool" where
  "LockTime_is_same_unit (Blocks _) (Blocks _) = True"
| "LockTime_is_same_unit (Seconds _) (Seconds _) = True"
| "LockTime_is_same_unit _ _ = False"

fun LockTime_is_satisfied_by :: "LockTime \<Rightarrow> u32 \<Rightarrow> u32 \<Rightarrow> bool" where
  "LockTime_is_satisfied_by (Blocks n) height time = (n \<le> height)"
| "LockTime_is_satisfied_by (Seconds n) height time = (n \<le> time)"

datatype ordering = Less | Equal | Greater

definition cmp_u32 :: "u32 \<Rightarrow> u32 \<Rightarrow> ordering" where
  "cmp_u32 a b = (if a < b then Less else if a = b then Equal else Greater)"

fun LockTime_partial_cmp :: "LockTime \<Rightarrow> LockTime \<Rightarrow> ordering option" where
  "LockTime_partial_cmp (Blocks a) (Blocks b) = Some (cmp_u32 a b)"
| "LockTime_partial_cmp (Seconds a) (Seconds b) = Some (cmp_u32 a b)"
| "LockTime_partial_cmp _ _ = None"

definition encode_LockTime :: "LockTime \<Rightarrow> bytes" where
  "encode_LockTime l = emit_u32 (LockTime_to_consensus_u32 l)"

definition decode_LockTime :: "LockTime decoder" where
  "decode_LockTime = dbind read_u32 (\<lambda>n. case LockTime_from_consensus n of
     Inr l \<Rightarrow> dret l
   | Inl (Panic m) \<Rightarrow> dfail (Panic m)
   | Inl (Err _) \<Rightarrow> dfail (Err (BadLockTime n)))"

text \<open>The PSET types \<open>Height\<close> and \<open>Time\<close> share the encoding and refuse the other unit.\<close>

definition decode_Height :: "u32 decoder" where
  "decode_Height = dbind decode_LockTime (\<lambda>l. case l of
     Blocks h \<Rightarrow> dret h | Seconds t \<Rightarrow> dfail (Err (BadLockTime t)))"

definition decode_Time :: "u32 decoder" where
  "decode_Time = dbind decode_LockTime (\<lambda>l. case l of
     Seconds t \<Rightarrow> dret t | Blocks h \<Rightarrow> dfail (Err (BadLockTime h)))"

section \<open>Sequence numbers\<close>

datatype relative_locktime_error = IntegerOverflow u32

definition Sequence_MAX :: u32 where "Sequence_MAX = 0xFFFFFFFF"

definition Sequence_MIN_NO_RBF :: u32 where "Sequence_MIN_NO_RBF = 0xFFFFFFFE"

definition Sequence_ENABLE_RBF_NO_LOCKTIME :: u32 where
  "Sequence_ENABLE_RBF_NO_LOCKTIME = 0xFFFFFFFD"

definition LOCK_TIME_DISABLE_FLAG_MASK :: u32 where "LOCK_TIME_DISABLE_FLAG_MASK = 0x80000000"

definition LOCK_TYPE_MASK :: u32 where "LOCK_TYPE_MASK = 0x00400000"

definition Sequence_is_final :: "u32 \<Rightarrow> bool" where
  "Sequence_is_final s \<longleftrightarrow> s = Sequence_MAX"

definition Sequence_is_rbf :: "u32 \<Rightarrow> bool" where
  "Sequence_is_rbf s \<longleftrightarrow> s < Sequence_MIN_NO_RBF"

definition Sequence_is_relative_lock_time :: "u32 \<Rightarrow> bool" where
  "Sequence_is_relative_lock_time s \<longleftrightarrow> s AND LOCK_TIME_DISABLE_FLAG_MASK = 0"

definition Sequence_is_height_locked :: "u32 \<Rightarrow> bool" where
  "Sequence_is_height_locked s \<longleftrightarrow>
     Sequence_is_relative_lock_time s \<and> s AND LOCK_TYPE_MASK = 0"

definition Sequence_is_time_locked :: "u32 \<Rightarrow> bool" where
  "Sequence_is_time_locked s \<longleftrightarrow>
     Sequence_is_relative_lock_time s \<and> 0 < s AND LOCK_TYPE_MASK"

definition Sequence_from_height :: "u16 \<Rightarrow> u32" where
  "Sequence_from_height height = ucast height"

definition Sequence_from_512_second_intervals :: "u16 \<Rightarrow> u32" where
  "Sequence_from_512_second_intervals intervals = ucast intervals OR LOCK_TYPE_MASK"

definition u16_try_from :: "u32 \<Rightarrow> u16 option" where
  "u16_try_from n = (if n \<le> 0xFFFF then Some (ucast n) else None)"

definition Sequence_from_seconds_floor :: "u32 \<Rightarrow> relative_locktime_error fault + u32" where
  "Sequence_from_seconds_floor seconds = (case u16_try_from (seconds div 512) of
     Some interval \<Rightarrow> Inr (Sequence_from_512_second_intervals interval)
   | None \<Rightarrow> Inl (Err (IntegerOverflow seconds)))"

text \<open>The sum \<open>seconds + 511\<close> is checked for overflow, as in a build with overflow checks.\<close>

definition Sequence_from_seconds_ceil :: "u32 \<Rightarrow> relative_locktime_error fault + u32" where
  "Sequence_from_seconds_ceil seconds =
     (if 2 ^ 32 \<le> unat seconds + 511 then Inl (Panic ''attempt to add with overflow'')
      else case u16_try_from ((seconds + 511) div 512) of
        Some interval \<Rightarrow> Inr (Sequence_from_512_second_intervals interval)
      | None \<Rightarrow> Inl (Err (IntegerOverflow seconds)))"

definition Sequence_enables_absolute_lock_time :: "u32 \<Rightarrow> bool" where
  "Sequence_enables_absolute_lock_time s \<longleftrightarrow> \<not> Sequence_is_final s"

section \<open>Lemmas\<close>

fun wf_LockTime :: "LockTime \<Rightarrow> bool" where
  "wf_LockTime (Blocks h) = is_block_height h"
| "wf_LockTime (Seconds t) = is_block_time t"

lemma is_block_time_iff: "is_block_time n \<longleftrightarrow> \<not> is_block_height n"
  by (auto simp: is_block_time_def is_block_height_def)

text \<open>\<open>from_consensus\<close> never reaches its \<open>expect\<close>.\<close>

lemma LockTime_from_consensus_eq:
  "LockTime_from_consensus n = Inr (if is_block_height n then Blocks n else Seconds n)"
  by (simp add: LockTime_from_consensus_def Height_from_consensus_def Time_from_consensus_def
      is_block_time_iff)

interpretation locktime: total_codec encode_LockTime decode_LockTime wf_LockTime
proof
  fix l r
  assume "wf_LockTime l"
  then show "decode_LockTime (encode_LockTime l @ r) = Inr (l, r)"
    by (cases l) (simp_all add: decode_LockTime_def encode_LockTime_def codec_enc
        LockTime_from_consensus_eq is_block_time_iff)
next
  fix bs l r
  assume "decode_LockTime bs = Inr (l, r)"
  then show "wf_LockTime l \<and> bs = encode_LockTime l @ r"
    by (auto simp: decode_LockTime_def encode_LockTime_def codec_dec LockTime_from_consensus_eq
        is_block_time_iff)
qed

declare locktime.total_decode_encode [codec_enc] locktime.decode_iff [codec_dec]

lemma unat_ucast_u16 [simp]: "unat (ucast (n :: u16) :: u32) = unat n"
  using unsigned_less [where 'a = nat, of n]
  by (simp add: unsigned_ucast_eq take_bit_nat_eq_self)

lemma ucast_u16_no_bit: "16 \<le> n \<Longrightarrow> \<not> bit (ucast (w :: u16) :: u32) n"
  using bit_imp_le_length [of w n] by (auto simp: bit_ucast_iff)

lemma flag_masks: "LOCK_TIME_DISABLE_FLAG_MASK = 2 ^ 31" "LOCK_TYPE_MASK = 2 ^ 22"
  by (simp_all add: LOCK_TIME_DISABLE_FLAG_MASK_def LOCK_TYPE_MASK_def)

lemma intervals_eq_add: "Sequence_from_512_second_intervals w = ucast w + 2 ^ 22"
proof -
  have "ucast w AND (2 ^ 22 :: u32) = 0"
    by (simp only: and_exp_eq_0_iff_not_bit) (simp add: ucast_u16_no_bit)
  then show ?thesis
    by (simp only: Sequence_from_512_second_intervals_def flag_masks disjunctive_add_eq_or)
qed

lemma unat_intervals: "unat (Sequence_from_512_second_intervals w) = unat w + 2 ^ 22"
  using unsigned_less [where 'a = nat, of w]
  by (simp add: intervals_eq_add unat_word_ariths)

lemma intervals_flags:
  "Sequence_is_time_locked (Sequence_from_512_second_intervals w)"
  "\<not> Sequence_is_height_locked (Sequence_from_512_second_intervals w)"
proof -
  let ?q = "Sequence_from_512_second_intervals w"
  have "\<not> bit ?q 31"
    by (simp add: Sequence_from_512_second_intervals_def flag_masks(2) bit_or_iff
        ucast_u16_no_bit bit_exp_iff)
  then have rel: "Sequence_is_relative_lock_time ?q"
    unfolding Sequence_is_relative_lock_time_def flag_masks and_exp_eq_0_iff_not_bit .
  have "bit ?q 22"
    by (simp add: Sequence_from_512_second_intervals_def flag_masks(2) bit_or_iff bit_exp_iff)
  then have "?q AND LOCK_TYPE_MASK \<noteq> 0"
    unfolding flag_masks and_exp_eq_0_iff_not_bit by simp
  with rel show "Sequence_is_time_locked ?q" "\<not> Sequence_is_height_locked ?q"
    by (simp_all add: Sequence_is_time_locked_def Sequence_is_height_locked_def word_neq_0_conv)
qed

lemma u16_try_from_Some: "u16_try_from n = Some w \<longleftrightarrow> unat n = unat w"
  using unsigned_less [where 'a = nat, of w]
  by (auto simp: u16_try_from_def word_le_nat_alt unsigned_ucast_eq take_bit_nat_eq_self
      word_eq_iff_unsigned [where 'a = nat])

lemma from_seconds_floor_Inr:
  assumes "Sequence_from_seconds_floor s = Inr q"
  obtains w where "q = Sequence_from_512_second_intervals w" "unat w = unat s div 512"
  using assms
  by (auto simp: Sequence_from_seconds_floor_def u16_try_from_Some unat_div split: option.splits)

lemma from_seconds_ceil_Inr:
  assumes "Sequence_from_seconds_ceil s = Inr q"
  obtains w where "q = Sequence_from_512_second_intervals w" "unat w = (unat s + 511) div 512"
  using assms
  by (auto simp: Sequence_from_seconds_ceil_def u16_try_from_Some unat_div unat_word_ariths
      not_le split: option.splits if_splits)

text \<open>C17. Lock times and their consensus encoding are in bijection: reading \<open>n\<close> gives the lock
  time \<open>l\<close> exactly when \<open>l\<close> respects the height/time threshold and its consensus value is \<open>n\<close>;
  the \<open>expect\<close> in the constructor is never reached.\<close>

theorem LockTime_consensus_bijection:
  "LockTime_from_consensus n = Inr l \<longleftrightarrow> wf_LockTime l \<and> LockTime_to_consensus_u32 l = n"
  by (cases l) (auto simp: LockTime_from_consensus_eq is_block_time_iff)

text \<open>C18. A relative lock time made from seconds is a time lock (never a height lock) whose
  number of 512-second intervals brackets the request: rounding down never exceeds it and
  rounding up never falls short, each by less than one interval.\<close>

theorem Sequence_from_seconds_bounds:
  "(\<forall>q. Sequence_from_seconds_floor s = Inr q \<longrightarrow>
      Sequence_is_time_locked q \<and> \<not> Sequence_is_height_locked q \<and>
      512 * (unat q - 2 ^ 22) \<le> unat s \<and> unat s < 512 * (unat q - 2 ^ 22) + 512) \<and>
   (\<forall>q. Sequence_from_seconds_ceil s = Inr q \<longrightarrow>
      Sequence_is_time_locked q \<and> \<not> Sequence_is_height_locked q \<and>
      unat s \<le> 512 * (unat q - 2 ^ 22) \<and> 512 * (unat q - 2 ^ 22) < unat s + 512)"
  by (auto elim!: from_seconds_floor_Inr from_seconds_ceil_Inr simp: intervals_flags unat_intervals)

theorem Sequence_from_seconds_bounds_witness:
  "Sequence_from_seconds_floor 1000 = Inr 0x400001 \<and> Sequence_is_time_locked 0x400001 \<and>
   Sequence_from_seconds_ceil 1000 = Inr 0x400002 \<and> Sequence_is_time_locked 0x400002"
proof -
  have f: "Sequence_from_seconds_floor 1000 = Inr 0x400001"
    and c: "Sequence_from_seconds_ceil 1000 = Inr 0x400002"
    by (simp_all add: Sequence_from_seconds_floor_def Sequence_from_seconds_ceil_def
        u16_try_from_def Sequence_from_512_second_intervals_def LOCK_TYPE_MASK_def)
  then show ?thesis using Sequence_from_seconds_bounds [of 1000] by blast
qed

end
