(* ===== verification/Confidential.thy ===== *)
theory Confidential
  imports Encode
begin

text \<open>
  Explicit and committed values, assets and nonces (\<^verbatim>\<open>rust-elements/src/confidential.rs\<close>).
  A Pedersen commitment, a generator and a public key are represented by their 33-byte
  serialization; whether libsecp256k1-zkp accepts such a string is asked of the environment.
  An asset id is a 32-byte string (\<open>AssetId\<close> of \<^verbatim>\<open>rust-elements/src/issuance.rs\<close>).
\<close>

type_synonym AssetId = bytes

datatype Value = VNull | VExplicit u64 | VConfidential bytes
datatype Asset = ANull | AExplicit AssetId | AConfidential bytes
datatype Nonce = NNull | NExplicit bytes | NConfidential bytes

section \<open>Values\<close>

fun Value_is_null :: "Value \<Rightarrow> bool" where
  "Value_is_null VNull = True"
| "Value_is_null _ = False"

fun Value_is_explicit :: "Value \<Rightarrow> bool" where
  "Value_is_explicit (VExplicit _) = True"
| "Value_is_explicit _ = False"

fun Value_is_confidential :: "Value \<Rightarrow> bool" where
  "Value_is_confidential (VConfidential _) = True"
| "Value_is_confidential _ = False"

fun Value_explicit :: "Value \<Rightarrow> u64 option" where
  "Value_explicit (VExplicit i) = Some i"
| "Value_explicit _ = None"

fun Value_commitment :: "Value \<Rightarrow> bytes option" where
  "Value_commitment (VConfidential i) = Some i"
| "Value_commitment _ = None"

fun Value_encoded_length :: "Value \<Rightarrow> nat" where
  "Value_encoded_length VNull = 1"
| "Value_encoded_length (VExplicit _) = 9"
| "Value_encoded_length (VConfidential _) = 33"

definition swap_bytes :: "u64 \<Rightarrow> u64" where
  "swap_bytes n = of_nat (le_to_nat (rev (nat_to_le 8 (unat n))))"

fun encode_Value :: "Value \<Rightarrow> bytes" where
  "encode_Value VNull = emit_u8 0"
| "encode_Value (VExplicit n) = emit_u8 1 @ emit_u64 (swap_bytes n)"
| "encode_Value (VConfidential commitment) = commitment"

definition decode_Value :: "env \<Rightarrow> Value decoder" where
  "decode_Value E = dbind read_u8 (\<lambda>prefix.
     if prefix = 0 then dret VNull
     else if prefix = 1 then dbind read_u64 (\<lambda>n. dret (VExplicit (swap_bytes n)))
     else if prefix = 0x08 \<or> prefix = 0x09 then dbind (read_slice 32) (\<lambda>comm.
       if pedersen_ok E (prefix # comm) then dret (VConfidential (prefix # comm))
       else dfail (Err Secp256k1zkp))
     else dfail (Err (InvalidConfidentialPrefix prefix)))"

section \<open>Assets\<close>

fun Asset_is_null :: "Asset \<Rightarrow> bool" where
  "Asset_is_null ANull = True"
| "Asset_is_null _ = False"

fun Asset_is_explicit :: "Asset \<Rightarrow> bool" where
  "Asset_is_explicit (AExplicit _) = True"
| "Asset_is_explicit _ = False"

fun Asset_is_confidential :: "Asset \<Rightarrow> bool" where
  "Asset_is_confidential (AConfidential _) = True"
| "Asset_is_confidential _ = False"

fun Asset_explicit :: "Asset \<Rightarrow> AssetId option" where
  "Asset_explicit (AExplicit i) = Some i"
| "Asset_explicit _ = None"

fun Asset_encoded_length :: "Asset \<Rightarrow> nat" where
  "Asset_encoded_length ANull = 1"
| "Asset_encoded_length (AExplicit _) = 33"
| "Asset_encoded_length (AConfidential _) = 33"

fun encode_Asset :: "Asset \<Rightarrow> bytes" where
  "encode_Asset ANull = emit_u8 0"
| "encode_Asset (AExplicit n) = emit_u8 1 @ n"
| "encode_Asset (AConfidential generator) = generator"

definition decode_Asset :: "env \<Rightarrow> Asset decoder" where
  "decode_Asset E = dbind read_u8 (\<lambda>prefix.
     if prefix = 0 then dret ANull
     else if prefix = 1 then dbind (read_slice 32) (\<lambda>explicit. dret (AExplicit explicit))
     else if prefix = 0x0a \<or> prefix = 0x0b then dbind (read_slice 32) (\<lambda>comm.
       if generator_ok E (prefix # comm) then dret (AConfidential (prefix # comm))
       else dfail (Err Secp256k1zkp))
     else dfail (Err (InvalidConfidentialPrefix prefix)))"

section \<open>Nonces\<close>

fun Nonce_is_confidential :: "Nonce \<Rightarrow> bool" where
  "Nonce_is_confidential (NConfidential _) = True"
| "Nonce_is_confidential _ = False"

fun Nonce_encoded_length :: "Nonce \<Rightarrow> nat" where
  "Nonce_encoded_length NNull = 1"
| "Nonce_encoded_length (NExplicit _) = 33"
| "Nonce_encoded_length (NConfidential _) = 33"

fun encode_Nonce :: "Nonce \<Rightarrow> bytes" where
  "encode_Nonce NNull = emit_u8 0"
| "encode_Nonce (NExplicit n) = emit_u8 1 @ n"
| "encode_Nonce (NConfidential commitment) = commitment"

definition decode_Nonce :: "env \<Rightarrow> Nonce decoder" where
  "decode_Nonce E = dbind read_u8 (\<lambda>prefix.
     if prefix = 0 then dret NNull
     else if prefix = 1 then dbind (read_slice 32) (\<lambda>explicit. dret (NExplicit explicit))
     else if prefix = 0x02 \<or> prefix = 0x03 then dbind (read_slice 32) (\<lambda>comm.
       if pubkey_ok E (prefix # comm) then dret (NConfidential (prefix # comm))
       else dfail (Err Secp256k1))
     else dfail (Err (InvalidConfidentialPrefix prefix)))"

section \<open>Well-formed values, and that the codecs agree on them\<close>

definition wf_commitment :: "u8 \<Rightarrow> u8 \<Rightarrow> (bytes \<Rightarrow> bool) \<Rightarrow> bytes \<Rightarrow> bool" where
  "wf_commitment p q ok c \<longleftrightarrow> length c = 33 \<and> (hd c = p \<or> hd c = q) \<and> ok c"

fun wf_Value :: "env \<Rightarrow> Value \<Rightarrow> bool" where
  "wf_Value E VNull = True"
| "wf_Value E (VExplicit _) = True"
| "wf_Value E (VConfidential c) = wf_commitment 0x08 0x09 (pedersen_ok E) c"

fun wf_Asset :: "env \<Rightarrow> Asset \<Rightarrow> bool" where
  "wf_Asset E ANull = True"
| "wf_Asset E (AExplicit a) = (length a = 32)"
| "wf_Asset E (AConfidential c) = wf_commitment 0x0a 0x0b (generator_ok E) c"

fun wf_Nonce :: "env \<Rightarrow> Nonce \<Rightarrow> bool" where
  "wf_Nonce E NNull = True"
| "wf_Nonce E (NExplicit a) = (length a = 32)"
| "wf_Nonce E (NConfidential c) = wf_commitment 0x02 0x03 (pubkey_ok E) c"

lemma wf_commitment_Cons:
  "wf_commitment p q ok c \<longleftrightarrow> (\<exists>a b. c = a # b \<and> length b = 32 \<and> (a = p \<or> a = q) \<and> ok c)"
  by (cases c) (auto simp: wf_commitment_def)

lemma emit_u8_append: "emit_u8 p @ c = p # c"
  by (simp add: emit_u8_def)

lemma read_u8_Cons: "read_u8 (p # r) = Inr (p, r)"
  using read_u8_emit [of p r] by (simp add: emit_u8_def)

lemma swap_bytes_swap_bytes [simp]: "swap_bytes (swap_bytes n) = n"
proof -
  have "nat_to_le 8 (unat (swap_bytes n)) = rev (nat_to_le 8 (unat n))"
    unfolding swap_bytes_def by (rule nat_to_le_of_nat_le_to_nat) simp_all
  then show ?thesis
    by (simp add: swap_bytes_def [of "swap_bytes n"] of_nat_le_to_nat_to_le)
qed

interpretation valuec: total_codec encode_Value "decode_Value E" "wf_Value E" for E
proof
  fix v r
  assume "wf_Value E v"
  then show "decode_Value E (encode_Value v @ r) = Inr (v, r)"
    by (cases v) (auto simp: decode_Value_def codec_enc wf_commitment_Cons read_u8_Cons)
next
  fix bs v r
  assume "decode_Value E bs = Inr (v, r)"
  then show "wf_Value E v \<and> bs = encode_Value v @ r"
    by (auto simp: decode_Value_def codec_dec wf_commitment_def emit_u8_append split: if_splits)
qed

interpretation assetc: total_codec encode_Asset "decode_Asset E" "wf_Asset E" for E
proof
  fix v r
  assume "wf_Asset E v"
  then show "decode_Asset E (encode_Asset v @ r) = Inr (v, r)"
    by (cases v) (auto simp: decode_Asset_def codec_enc wf_commitment_Cons read_u8_Cons)
next
  fix bs v r
  assume "decode_Asset E bs = Inr (v, r)"
  then show "wf_Asset E v \<and> bs = encode_Asset v @ r"
    by (auto simp: decode_Asset_def codec_dec wf_commitment_def emit_u8_append split: if_splits)
qed

interpretation noncec: total_codec encode_Nonce "decode_Nonce E" "wf_Nonce E" for E
proof
  fix v r
  assume "wf_Nonce E v"
  then show "decode_Nonce E (encode_Nonce v @ r) = Inr (v, r)"
    by (cases v) (auto simp: decode_Nonce_def codec_enc wf_commitment_Cons read_u8_Cons)
next
  fix bs v r
  assume "decode_Nonce E bs = Inr (v, r)"
  then show "wf_Nonce E v \<and> bs = encode_Nonce v @ r"
    by (auto simp: decode_Nonce_def codec_dec wf_commitment_def emit_u8_append split: if_splits)
qed

declare valuec.total_decode_encode [codec_enc] valuec.decode_iff [codec_dec]
declare assetc.total_decode_encode [codec_enc] assetc.decode_iff [codec_dec]
declare noncec.total_decode_encode [codec_enc] noncec.decode_iff [codec_dec]

lemma length_encode_Value: "wf_Value E v \<Longrightarrow> length (encode_Value v) = Value_encoded_length v"
  by (cases v) (auto simp: wf_commitment_def)

lemma length_encode_Asset: "wf_Asset E v \<Longrightarrow> length (encode_Asset v) = Asset_encoded_length v"
  by (cases v) (auto simp: wf_commitment_def)

lemma length_encode_Nonce: "wf_Nonce E v \<Longrightarrow> length (encode_Nonce v) = Nonce_encoded_length v"
  by (cases v) (auto simp: wf_commitment_def)

end
