(* ===== verification/Transaction.thy ===== *)
theory Transaction
  imports TimeLocks Confidential
begin

text \<open>
  Transactions and their consensus encoding (\<^verbatim>\<open>rust-elements/src/transaction.rs\<close>, with the
  Sequentia denomination byte in asset issuances). The witnesses of inputs and outputs are
  fields of the input and the output but are written after the lock time, behind a flag byte.
\<close>

unbundle bit_operations_syntax

type_synonym Txid = bytes
type_synonym Script = bytes

section \<open>Data\<close>

record AssetIssuance =
  asset_blinding_nonce :: bytes
  asset_entropy :: bytes
  issuance_amount :: Value
  inflation_keys :: Value
  denomination :: u8

record OutPoint =
  op_txid :: Txid
  op_vout :: u32

record TxInWitness =
  amount_rangeproof :: "bytes option"
  inflation_keys_rangeproof :: "bytes option"
  script_witness :: "bytes list"
  pegin_witness :: "bytes list"

record TxIn =
  previous_output :: OutPoint
  is_pegin :: bool
  script_sig :: Script
  in_sequence :: u32
  asset_issuance :: AssetIssuance
  in_witness :: TxInWitness

record TxOutWitness =
  surjection_proof :: "bytes option"
  out_rangeproof :: "bytes option"

record TxOut =
  out_asset :: Asset
  out_value :: Value
  out_nonce :: Nonce
  script_pubkey :: Script
  out_witness :: TxOutWitness

record Transaction =
  tx_version :: u32
  tx_lock_time :: LockTime
  tx_input :: "TxIn list"
  tx_output :: "TxOut list"

section \<open>Constructors and predicates\<close>

definition AssetIssuance_null :: AssetIssuance where
  "AssetIssuance_null =
     \<lparr>asset_blinding_nonce = replicate 32 0, asset_entropy = replicate 32 0,
      issuance_amount = VNull, inflation_keys = VNull, denomination = 8\<rparr>"

definition AssetIssuance_is_null :: "AssetIssuance \<Rightarrow> bool" where
  "AssetIssuance_is_null i \<longleftrightarrow>
     Value_is_null (issuance_amount i) \<and> Value_is_null (inflation_keys i)"

definition OutPoint_new :: "Txid \<Rightarrow> u32 \<Rightarrow> OutPoint" where
  "OutPoint_new txid vout = \<lparr>op_txid = txid, op_vout = vout\<rparr>"

definition OutPoint_null :: OutPoint where
  "OutPoint_null = \<lparr>op_txid = replicate 32 0, op_vout = 0xFFFFFFFF\<rparr>"

definition OutPoint_is_null :: "OutPoint \<Rightarrow> bool" where
  "OutPoint_is_null p \<longleftrightarrow> p = OutPoint_null"

definition TxInWitness_empty :: TxInWitness where
  "TxInWitness_empty =
     \<lparr>amount_rangeproof = None, inflation_keys_rangeproof = None,
      script_witness = [], pegin_witness = []\<rparr>"

definition TxInWitness_is_empty :: "TxInWitness \<Rightarrow> bool" where
  "TxInWitness_is_empty w \<longleftrightarrow>
     amount_rangeproof w = None \<and> inflation_keys_rangeproof w = None \<and>
     script_witness w = [] \<and> pegin_witness w = []"

definition TxOutWitness_empty :: TxOutWitness where
  "TxOutWitness_empty = \<lparr>surjection_proof = None, out_rangeproof = None\<rparr>"

definition TxOutWitness_is_empty :: "TxOutWitness \<Rightarrow> bool" where
  "TxOutWitness_is_empty w \<longleftrightarrow> surjection_proof w = None \<and> out_rangeproof w = None"

definition has_issuance :: "TxIn \<Rightarrow> bool" where
  "has_issuance i \<longleftrightarrow> \<not> AssetIssuance_is_null (asset_issuance i)"

definition TxIn_is_coinbase :: "TxIn \<Rightarrow> bool" where
  "TxIn_is_coinbase i \<longleftrightarrow> previous_output i = OutPoint_null"

definition outpoint_flag :: "TxIn \<Rightarrow> u8" where
  "outpoint_flag i = push_bit 6 (of_bool (is_pegin i)) OR push_bit 7 (of_bool (has_issuance i))"

definition Transaction_is_coinbase :: "Transaction \<Rightarrow> bool" where
  "Transaction_is_coinbase tx \<longleftrightarrow>
     length (tx_input tx) = 1 \<and> TxIn_is_coinbase (tx_input tx ! 0)"

definition has_witness :: "Transaction \<Rightarrow> bool" where
  "has_witness tx \<longleftrightarrow>
     (\<exists>i \<in> set (tx_input tx). \<not> TxInWitness_is_empty (in_witness i)) \<or>
     (\<exists>o' \<in> set (tx_output tx). \<not> TxOutWitness_is_empty (out_witness o'))"

definition TxOut_new_fee :: "u64 \<Rightarrow> AssetId \<Rightarrow> TxOut" where
  "TxOut_new_fee amount asset =
     \<lparr>out_asset = AExplicit asset, out_value = VExplicit amount, out_nonce = NNull,
      script_pubkey = [], out_witness = TxOutWitness_empty\<rparr>"

definition is_fee :: "TxOut \<Rightarrow> bool" where
  "is_fee o' \<longleftrightarrow> script_pubkey o' = [] \<and> Value_is_explicit (out_value o') \<and>
     Asset_is_explicit (out_asset o')"

definition is_partially_blinded :: "TxOut \<Rightarrow> bool" where
  "is_partially_blinded o' \<longleftrightarrow>
     Asset_is_confidential (out_asset o') \<or> Value_is_confidential (out_value o') \<or>
     \<not> TxOutWitness_is_empty (out_witness o')"

section \<open>Encoding\<close>

definition encode_AssetIssuance :: "AssetIssuance \<Rightarrow> bytes" where
  "encode_AssetIssuance i =
     asset_blinding_nonce i @ asset_entropy i @ encode_Value (issuance_amount i) @
     encode_Value (inflation_keys i) @ emit_u8 (denomination i)"

definition decode_AssetIssuance :: "env \<Rightarrow> AssetIssuance decoder" where
  "decode_AssetIssuance E =
     dbind (decode_tweak E) (\<lambda>nonce. dbind (read_slice 32) (\<lambda>entropy.
     dbind (decode_Value E) (\<lambda>amount. dbind (decode_Value E) (\<lambda>keys.
     dbind read_u8 (\<lambda>den. dret
       \<lparr>asset_blinding_nonce = nonce, asset_entropy = entropy, issuance_amount = amount,
        inflation_keys = keys, denomination = den\<rparr>)))))"

definition encode_OutPoint :: "OutPoint \<Rightarrow> bytes" where
  "encode_OutPoint p = op_txid p @ emit_u32 (op_vout p)"

definition decode_OutPoint :: "OutPoint decoder" where
  "decode_OutPoint = dbind (read_slice 32) (\<lambda>txid. dbind read_u32 (\<lambda>vout.
     dret \<lparr>op_txid = txid, op_vout = vout\<rparr>))"

definition encode_TxInWitness :: "TxInWitness \<Rightarrow> bytes" where
  "encode_TxInWitness w =
     encode_box_option (amount_rangeproof w) @ encode_box_option (inflation_keys_rangeproof w) @
     encode_vec consensus_encode_with_size (script_witness w) @
     encode_vec consensus_encode_with_size (pegin_witness w)"

definition decode_TxInWitness :: "env \<Rightarrow> TxInWitness decoder" where
  "decode_TxInWitness E =
     dbind (decode_box_option E (rangeproof_ok E)) (\<lambda>a.
     dbind (decode_box_option E (rangeproof_ok E)) (\<lambda>k.
     dbind (decode_vec E ''Vec<u8>'' (decode_byte_vec E)) (\<lambda>s.
     dbind (decode_vec E ''Vec<u8>'' (decode_byte_vec E)) (\<lambda>p.
     dret \<lparr>amount_rangeproof = a, inflation_keys_rangeproof = k,
           script_witness = s, pegin_witness = p\<rparr>))))"

definition encode_TxOutWitness :: "TxOutWitness \<Rightarrow> bytes" where
  "encode_TxOutWitness w =
     encode_box_option (surjection_proof w) @ encode_box_option (out_rangeproof w)"

definition decode_TxOutWitness :: "env \<Rightarrow> TxOutWitness decoder" where
  "decode_TxOutWitness E =
     dbind (decode_box_option E (surjection_ok E)) (\<lambda>s.
     dbind (decode_box_option E (rangeproof_ok E)) (\<lambda>p.
     dret \<lparr>surjection_proof = s, out_rangeproof = p\<rparr>))"

text \<open>The pegin and issuance flags are the two high bits of the encoded output index.\<close>

definition PEGIN_FLAG :: u32 where "PEGIN_FLAG = push_bit 30 1"

definition ISSUANCE_FLAG :: u32 where "ISSUANCE_FLAG = push_bit 31 1"

definition VOUT_MASK :: u32 where "VOUT_MASK = NOT (PEGIN_FLAG OR ISSUANCE_FLAG)"

definition flag_vout :: "bool \<Rightarrow> bool \<Rightarrow> u32 \<Rightarrow> u32" where
  "flag_vout pegin issued vout =
     (let vout = (if pegin then vout OR PEGIN_FLAG else vout)
      in if issued then vout OR ISSUANCE_FLAG else vout)"

definition encoded_vout :: "TxIn \<Rightarrow> u32" where
  "encoded_vout i = flag_vout (is_pegin i) (has_issuance i) (op_vout (previous_output i))"

definition encode_TxIn :: "TxIn \<Rightarrow> bytes" where
  "encode_TxIn i =
     op_txid (previous_output i) @ emit_u32 (encoded_vout i) @
     consensus_encode_with_size (script_sig i) @ emit_u32 (in_sequence i) @
     (if has_issuance i then encode_AssetIssuance (asset_issuance i) else [])"

definition decode_TxIn :: "env \<Rightarrow> TxIn decoder" where
  "decode_TxIn E =
     dbind decode_OutPoint (\<lambda>outp. dbind (decode_byte_vec E) (\<lambda>script_sig'.
     dbind read_u32 (\<lambda>sequence'.
     let coinbase = (op_vout outp = 0xffffffff);
         pegin = (\<not> coinbase \<and> op_vout outp AND PEGIN_FLAG \<noteq> 0);
         issued = (\<not> coinbase \<and> op_vout outp AND ISSUANCE_FLAG \<noteq> 0);
         outp' = (if coinbase then outp
                  else outp\<lparr>op_vout := op_vout outp AND VOUT_MASK\<rparr>);
         finish = (\<lambda>issuance. dret
           \<lparr>previous_output = outp', is_pegin = pegin, script_sig = script_sig',
            in_sequence = sequence', asset_issuance = issuance, in_witness = TxInWitness_empty\<rparr>)
     in if issued
        then dbind (decode_AssetIssuance E) (\<lambda>issuance.
          if AssetIssuance_is_null issuance
          then dfail (Err (ParseFailed ''superfluous asset issuance''))
          else finish issuance)
        else finish AssetIssuance_null)))"

definition encode_TxOut :: "TxOut \<Rightarrow> bytes" where
  "encode_TxOut o' =
     encode_Asset (out_asset o') @ encode_Value (out_value o') @ encode_Nonce (out_nonce o') @
     consensus_encode_with_size (script_pubkey o')"

definition decode_TxOut :: "env \<Rightarrow> TxOut decoder" where
  "decode_TxOut E =
     dbind (decode_Asset E) (\<lambda>a. dbind (decode_Value E) (\<lambda>v. dbind (decode_Nonce E) (\<lambda>n.
     dbind (decode_byte_vec E) (\<lambda>s. dret
       \<lparr>out_asset = a, out_value = v, out_nonce = n, script_pubkey = s,
        out_witness = TxOutWitness_empty\<rparr>))))"

definition encode_Transaction :: "Transaction \<Rightarrow> bytes" where
  "encode_Transaction tx =
     emit_u32 (tx_version tx) @ (if has_witness tx then emit_u8 1 else emit_u8 0) @
     encode_vec encode_TxIn (tx_input tx) @ encode_vec encode_TxOut (tx_output tx) @
     encode_LockTime (tx_lock_time tx) @
     (if has_witness tx
      then concat (map (\<lambda>i. encode_TxInWitness (in_witness i)) (tx_input tx)) @
           concat (map (\<lambda>o'. encode_TxOutWitness (out_witness o')) (tx_output tx))
      else [])"

fun decode_in_witnesses :: "env \<Rightarrow> TxIn list \<Rightarrow> TxIn list decoder" where
  "decode_in_witnesses E [] = dret []"
| "decode_in_witnesses E (i # is) = dbind (decode_TxInWitness E) (\<lambda>w.
     dbind (decode_in_witnesses E is) (\<lambda>is'. dret (i\<lparr>in_witness := w\<rparr> # is')))"

fun decode_out_witnesses :: "env \<Rightarrow> TxOut list \<Rightarrow> TxOut list decoder" where
  "decode_out_witnesses E [] = dret []"
| "decode_out_witnesses E (o' # os) = dbind (decode_TxOutWitness E) (\<lambda>w.
     dbind (decode_out_witnesses E os) (\<lambda>os'. dret (o'\<lparr>out_witness := w\<rparr> # os')))"

definition decode_Transaction :: "env \<Rightarrow> Transaction decoder" where
  "decode_Transaction E =
     dbind read_u32 (\<lambda>version'. dbind read_u8 (\<lambda>wit_flag.
     dbind (decode_vec E ''TxIn'' (decode_TxIn E)) (\<lambda>input'.
     dbind (decode_vec E ''TxOut'' (decode_TxOut E)) (\<lambda>output'.
     dbind decode_LockTime (\<lambda>lock_time'.
       let mk = (\<lambda>is os. \<lparr>tx_version = version', tx_lock_time = lock_time',
                          tx_input = is, tx_output = os\<rparr>)
       in if wit_flag = 0 then dret (mk input' output')
          else if wit_flag = 1 then
            dbind (decode_in_witnesses E input') (\<lambda>is.
            dbind (decode_out_witnesses E output') (\<lambda>os.
              if (\<forall>i \<in> set is. TxInWitness_is_empty (in_witness i)) \<and>
                 (\<forall>o' \<in> set os. TxOutWitness_is_empty (out_witness o'))
              then dfail (Err (ParseFailed ''witness flag set but no witnesses were given''))
              else dret (mk is os)))
          else dfail (Err (ParseFailed ''bad witness flag in tx'')))))))"

text \<open>The hash function of the transaction id is a parameter.\<close>

definition txid :: "(bytes \<Rightarrow> Txid) \<Rightarrow> Transaction \<Rightarrow> Txid" where
  "txid sha256d tx = sha256d (
     emit_u32 (tx_version tx) @ emit_u8 0 @ encode_vec encode_TxIn (tx_input tx) @
     encode_vec encode_TxOut (tx_output tx) @ encode_LockTime (tx_lock_time tx))"

definition wtxid :: "(bytes \<Rightarrow> Txid) \<Rightarrow> Transaction \<Rightarrow> Txid" where
  "wtxid sha256d tx = sha256d (encode_Transaction tx)"

section \<open>Well-formed transactions\<close>

definition wf_AssetIssuance :: "env \<Rightarrow> AssetIssuance \<Rightarrow> bool" where
  "wf_AssetIssuance E i \<longleftrightarrow>
     length (asset_blinding_nonce i) = 32 \<and> tweak_ok E (asset_blinding_nonce i) \<and>
     length (asset_entropy i) = 32 \<and>
     wf_Value E (issuance_amount i) \<and> wf_Value E (inflation_keys i)"

definition wf_OutPoint :: "OutPoint \<Rightarrow> bool" where
  "wf_OutPoint p \<longleftrightarrow> length (op_txid p) = 32"

definition wf_TxInWitness :: "env \<Rightarrow> TxInWitness \<Rightarrow> bool" where
  "wf_TxInWitness E w \<longleftrightarrow>
     wf_box_option E (rangeproof_ok E) (amount_rangeproof w) \<and>
     wf_box_option E (rangeproof_ok E) (inflation_keys_rangeproof w) \<and>
     wf_vec E ''Vec<u8>'' (wf_byte_vec E) (script_witness w) \<and>
     wf_vec E ''Vec<u8>'' (wf_byte_vec E) (pegin_witness w)"

definition wf_TxOutWitness :: "env \<Rightarrow> TxOutWitness \<Rightarrow> bool" where
  "wf_TxOutWitness E w \<longleftrightarrow>
     wf_box_option E (surjection_ok E) (surjection_proof w) \<and>
     wf_box_option E (rangeproof_ok E) (out_rangeproof w)"

text \<open>An output index has 30 bits, unless it is the coinbase marker, which carries no flags; and
  the index with its flags may not collide with that marker.\<close>

definition wf_vout :: "TxIn \<Rightarrow> bool" where
  "wf_vout i \<longleftrightarrow>
     (if op_vout (previous_output i) = 0xffffffff then \<not> is_pegin i \<and> \<not> has_issuance i
      else op_vout (previous_output i) < 2 ^ 30 \<and> encoded_vout i \<noteq> 0xffffffff)"

definition wf_TxIn :: "env \<Rightarrow> TxIn \<Rightarrow> bool" where
  "wf_TxIn E i \<longleftrightarrow>
     wf_OutPoint (previous_output i) \<and> wf_vout i \<and> wf_byte_vec E (script_sig i) \<and>
     (if has_issuance i then wf_AssetIssuance E (asset_issuance i)
      else asset_issuance i = AssetIssuance_null)"

definition wf_TxOut :: "env \<Rightarrow> TxOut \<Rightarrow> bool" where
  "wf_TxOut E o' \<longleftrightarrow>
     wf_Asset E (out_asset o') \<and> wf_Value E (out_value o') \<and> wf_Nonce E (out_nonce o') \<and>
     wf_byte_vec E (script_pubkey o')"

definition wf_Transaction :: "env \<Rightarrow> Transaction \<Rightarrow> bool" where
  "wf_Transaction E tx \<longleftrightarrow>
     wf_LockTime (tx_lock_time tx) \<and>
     wf_vec E ''TxIn'' (wf_TxIn E) (tx_input tx) \<and> wf_vec E ''TxOut'' (wf_TxOut E) (tx_output tx) \<and>
     (\<forall>i \<in> set (tx_input tx). wf_TxInWitness E (in_witness i)) \<and>
     (\<forall>o' \<in> set (tx_output tx). wf_TxOutWitness E (out_witness o'))"

section \<open>The flag bits\<close>

lemma flag_exps: "PEGIN_FLAG = 2 ^ 30" "ISSUANCE_FLAG = 2 ^ 31"
  by (simp_all add: PEGIN_FLAG_def ISSUANCE_FLAG_def push_bit_eq_mult)

lemma bit_flags: "bit PEGIN_FLAG n \<longleftrightarrow> n = 30" "bit ISSUANCE_FLAG n \<longleftrightarrow> n = 31"
  by (auto simp only: flag_exps bit_exp_iff) simp_all

lemma bit_VOUT_MASK: "bit VOUT_MASK n \<longleftrightarrow> n < 32 \<and> n \<noteq> 30 \<and> n \<noteq> 31"
  by (auto simp: VOUT_MASK_def bit_and_iff bit_not_iff bit_or_iff bit_flags
      dest: bit_imp_le_length)

lemma and_flags_eq_0:
  "v AND PEGIN_FLAG = 0 \<longleftrightarrow> \<not> bit v 30" "v AND ISSUANCE_FLAG = 0 \<longleftrightarrow> \<not> bit v 31"
  by (simp_all only: flag_exps and_exp_eq_0_iff_not_bit)

lemma less_2_30_iff: "v < 2 ^ 30 \<longleftrightarrow> \<not> bit v 30 \<and> \<not> bit v 31" for v :: u32
proof -
  have "v < 2 ^ 30 \<longleftrightarrow> take_bit 30 v = v"
    by (simp add: word_less_nat_alt word_eq_iff_unsigned [where 'a = nat] unsigned_take_bit_eq
        take_bit_nat_eq_self_iff)
  also have "\<dots> \<longleftrightarrow> (\<forall>n < 32. bit v n \<longrightarrow> n < 30)"
    by (auto simp: bit_eq_iff bit_take_bit_iff dest: bit_imp_le_length)
  also have "\<dots> \<longleftrightarrow> \<not> bit v 30 \<and> \<not> bit v 31"
  proof
    assume "\<forall>n < 32. bit v n \<longrightarrow> n < 30"
    from this [rule_format, of 30] this [rule_format, of 31]
    show "\<not> bit v 30 \<and> \<not> bit v 31" by auto
  next
    assume nb: "\<not> bit v 30 \<and> \<not> bit v 31"
    have "n < 30 \<or> n = 30 \<or> n = 31" if "n < 32" for n :: nat using that by linarith
    with nb show "\<forall>n < 32. bit v n \<longrightarrow> n < 30" by blast
  qed
  finally show ?thesis .
qed

lemma flag_vout_bits:
  assumes "v < 2 ^ 30"
  shows "bit (flag_vout p q v) 30 \<longleftrightarrow> p" "bit (flag_vout p q v) 31 \<longleftrightarrow> q"
    and "flag_vout p q v AND VOUT_MASK = v"
  using assms unfolding less_2_30_iff flag_vout_def Let_def
  by (auto simp: bit_or_iff bit_and_iff bit_VOUT_MASK bit_flags intro!: bit_word_eqI)

lemma masked_vout_lt: "v AND VOUT_MASK < 2 ^ 30"
  unfolding less_2_30_iff by (simp add: bit_and_iff bit_VOUT_MASK)

lemma masked_vout_ne: "v AND VOUT_MASK \<noteq> 0xffffffff"
proof
  assume "v AND VOUT_MASK = 0xffffffff"
  with masked_vout_lt [of v] show False by simp
qed

lemma AssetIssuance_null_is_null [simp]: "AssetIssuance_is_null AssetIssuance_null"
  by (simp add: AssetIssuance_is_null_def AssetIssuance_null_def)

lemma flag_vout_none [simp]: "flag_vout False False v = v"
  by (simp add: flag_vout_def)

lemma flag_vout_masked:
  "p = bit v 30 \<Longrightarrow> q = bit v 31 \<Longrightarrow> flag_vout p q (v AND VOUT_MASK) = v"
  unfolding flag_vout_def Let_def
  by (intro bit_word_eqI) (auto simp: bit_or_iff bit_and_iff bit_VOUT_MASK bit_flags)

section \<open>The codecs of a transaction and its parts\<close>

interpretation issuancec: total_codec encode_AssetIssuance "decode_AssetIssuance E"
  "wf_AssetIssuance E" for E
  by (unfold_locales,
      simp add: decode_AssetIssuance_def encode_AssetIssuance_def wf_AssetIssuance_def codec_enc,
      auto simp: decode_AssetIssuance_def encode_AssetIssuance_def wf_AssetIssuance_def codec_dec)

declare issuancec.total_decode_encode [codec_enc] issuancec.decode_iff [codec_dec]

interpretation outpointc: total_codec encode_OutPoint decode_OutPoint wf_OutPoint
  by (unfold_locales,
      simp add: decode_OutPoint_def encode_OutPoint_def wf_OutPoint_def codec_enc,
      auto simp: decode_OutPoint_def encode_OutPoint_def wf_OutPoint_def codec_dec)

declare outpointc.total_decode_encode [codec_enc] outpointc.decode_iff [codec_dec]

interpretation inwitc: total_codec encode_TxInWitness "decode_TxInWitness E" "wf_TxInWitness E"
  for E
  by (unfold_locales,
      simp add: decode_TxInWitness_def encode_TxInWitness_def wf_TxInWitness_def codec_enc,
      auto simp: decode_TxInWitness_def encode_TxInWitness_def wf_TxInWitness_def codec_dec)

interpretation outwitc: total_codec encode_TxOutWitness "decode_TxOutWitness E" "wf_TxOutWitness E"
  for E
  by (unfold_locales,
      simp add: decode_TxOutWitness_def encode_TxOutWitness_def wf_TxOutWitness_def codec_enc,
      auto simp: decode_TxOutWitness_def encode_TxOutWitness_def wf_TxOutWitness_def codec_dec)

declare inwitc.total_decode_encode [codec_enc] inwitc.decode_iff [codec_dec]
declare outwitc.total_decode_encode [codec_enc] outwitc.decode_iff [codec_dec]

lemma encode_TxIn_OutPoint:
  "encode_TxIn i = encode_OutPoint (OutPoint_new (op_txid (previous_output i)) (encoded_vout i)) @
     consensus_encode_with_size (script_sig i) @ emit_u32 (in_sequence i) @
     (if has_issuance i then encode_AssetIssuance (asset_issuance i) else [])"
  by (simp add: encode_TxIn_def encode_OutPoint_def OutPoint_new_def)

interpretation txinc: total_codec encode_TxIn "decode_TxIn E"
  "\<lambda>i. wf_TxIn E i \<and> in_witness i = TxInWitness_empty" for E
proof
  fix i r
  assume wf: "wf_TxIn E i \<and> in_witness i = TxInWitness_empty"
  then show "decode_TxIn E (encode_TxIn i @ r) = Inr (i, r)"
  proof (cases "op_vout (previous_output i) = 0xffffffff")
    case True
    with wf have "\<not> is_pegin i" "\<not> has_issuance i" by (simp_all add: wf_TxIn_def wf_vout_def)
    with wf True show ?thesis
      by (auto simp: encode_TxIn_OutPoint decode_TxIn_def codec_enc wf_TxIn_def wf_OutPoint_def
          OutPoint_new_def encoded_vout_def flag_vout_def
          intro!: TxIn.equality OutPoint.equality)
  next
    case False
    with wf have lt: "op_vout (previous_output i) < 2 ^ 30" and ne: "encoded_vout i \<noteq> 0xffffffff"
      by (simp_all add: wf_TxIn_def wf_vout_def)
    note bits = flag_vout_bits [OF lt, of "is_pegin i" "has_issuance i"]
    from wf False ne bits show ?thesis
      by (cases "has_issuance i")
        (auto simp: encode_TxIn_OutPoint decode_TxIn_def codec_enc wf_TxIn_def wf_OutPoint_def
          OutPoint_new_def encoded_vout_def and_flags_eq_0 has_issuance_def
          intro!: TxIn.equality OutPoint.equality)
  qed
next
  fix bs i r
  assume "decode_TxIn E bs = Inr (i, r)"
  then show "(wf_TxIn E i \<and> in_witness i = TxInWitness_empty) \<and> bs = encode_TxIn i @ r"
    by (auto simp: decode_TxIn_def codec_dec Let_def encode_TxIn_OutPoint OutPoint_new_def
        wf_TxIn_def wf_OutPoint_def wf_vout_def has_issuance_def encoded_vout_def
        encode_OutPoint_def less_2_30_iff [simplified] bit_and_iff bit_VOUT_MASK masked_vout_ne
        and_flags_eq_0 flag_vout_masked split: if_splits)
qed

declare txinc.total_decode_encode [codec_enc] txinc.decode_iff [codec_dec]

interpretation txoutc: total_codec encode_TxOut "decode_TxOut E"
  "\<lambda>o'. wf_TxOut E o' \<and> out_witness o' = TxOutWitness_empty" for E
  by (unfold_locales,
      simp add: decode_TxOut_def encode_TxOut_def wf_TxOut_def codec_enc,
      auto simp: decode_TxOut_def encode_TxOut_def wf_TxOut_def codec_dec)

interpretation txinsc: total_codec "encode_vec encode_TxIn" "decode_vec E ''TxIn'' (decode_TxIn E)"
  "wf_vec E ''TxIn'' (\<lambda>i. wf_TxIn E i \<and> in_witness i = TxInWitness_empty)" for E
  unfolding wf_vec_def by (rule txinc.vec_total_codec)

interpretation txoutsc: total_codec
  "encode_vec encode_TxOut" "decode_vec E ''TxOut'' (decode_TxOut E)"
  "wf_vec E ''TxOut'' (\<lambda>o'. wf_TxOut E o' \<and> out_witness o' = TxOutWitness_empty)" for E
  unfolding wf_vec_def by (rule txoutc.vec_total_codec)

declare txinsc.total_decode_encode [codec_enc] txinsc.decode_iff [codec_dec]
declare txoutsc.total_decode_encode [codec_enc] txoutsc.decode_iff [codec_dec]

text \<open>Inputs and outputs without their witnesses, as they come out of the first pass.\<close>

definition strip_in :: "TxIn \<Rightarrow> TxIn" where
  "strip_in i = i\<lparr>in_witness := TxInWitness_empty\<rparr>"

definition strip_out :: "TxOut \<Rightarrow> TxOut" where
  "strip_out o' = o'\<lparr>out_witness := TxOutWitness_empty\<rparr>"

lemma encode_strip [simp]: "encode_TxIn (strip_in i) = encode_TxIn i"
  "encode_TxOut (strip_out o') = encode_TxOut o'"
  by (simp_all add: encode_TxIn_def encode_TxOut_def strip_in_def strip_out_def encoded_vout_def
      has_issuance_def)

lemma encode_vec_strip:
  "encode_vec encode_TxIn (map strip_in is) = encode_vec encode_TxIn is"
  "encode_vec encode_TxOut (map strip_out os) = encode_vec encode_TxOut os"
  by (simp_all add: encode_vec_def comp_def)

lemma wf_strip:
  "wf_TxIn E (strip_in i) = wf_TxIn E i" "wf_TxOut E (strip_out o') = wf_TxOut E o'"
  by (simp_all add: wf_TxIn_def wf_TxOut_def strip_in_def strip_out_def wf_vout_def encoded_vout_def
      has_issuance_def)

lemma wf_vec_strip:
  "wf_vec E t (\<lambda>i. wf_TxIn E i \<and> in_witness i = TxInWitness_empty) (map strip_in is) =
     wf_vec E t (wf_TxIn E) is"
  "wf_vec E t' (\<lambda>o'. wf_TxOut E o' \<and> out_witness o' = TxOutWitness_empty) (map strip_out os) =
     wf_vec E t' (wf_TxOut E) os"
  by (simp_all add: wf_vec_def list_all_iff wf_strip) (simp_all add: strip_in_def strip_out_def)

lemma decode_in_witnesses_iff:
  "decode_in_witnesses E is bs = Inr (js, r) \<longleftrightarrow>
     map strip_in js = map strip_in is \<and> (\<forall>j \<in> set js. wf_TxInWitness E (in_witness j)) \<and>
     bs = concat (map (\<lambda>j. encode_TxInWitness (in_witness j)) js) @ r"
proof (induction "is" arbitrary: js bs)
  case Nil
  then show ?case by (auto simp: codec_dec)
next
  case (Cons i "is")
  have strip: "strip_in j = strip_in i \<longleftrightarrow> j = i\<lparr>in_witness := in_witness j\<rparr>" for j
    by (cases i; cases j) (auto simp: strip_in_def)
  show ?case
    by (cases js) (auto simp: codec_dec Cons strip)
qed

lemma decode_out_witnesses_iff:
  "decode_out_witnesses E os bs = Inr (qs, r) \<longleftrightarrow>
     map strip_out qs = map strip_out os \<and> (\<forall>q \<in> set qs. wf_TxOutWitness E (out_witness q)) \<and>
     bs = concat (map (\<lambda>q. encode_TxOutWitness (out_witness q)) qs) @ r"
proof (induction os arbitrary: qs bs)
  case Nil
  then show ?case by (auto simp: codec_dec)
next
  case (Cons q os)
  have strip: "strip_out j = strip_out q \<longleftrightarrow> j = q\<lparr>out_witness := out_witness j\<rparr>" for j
    by (cases q; cases j) (auto simp: strip_out_def)
  show ?case
    by (cases qs) (auto simp: codec_dec Cons strip)
qed


lemma decode_witnesses_of_strip:
  "\<forall>i \<in> set is. wf_TxInWitness E (in_witness i) \<Longrightarrow>
     decode_in_witnesses E (map strip_in is)
       (concat (map (\<lambda>j. encode_TxInWitness (in_witness j)) is) @ r) = Inr (is, r)"
  "\<forall>o' \<in> set os. wf_TxOutWitness E (out_witness o') \<Longrightarrow>
     decode_out_witnesses E (map strip_out os)
       (concat (map (\<lambda>q. encode_TxOutWitness (out_witness q)) os) @ r) = Inr (os, r)"
  by (simp_all add: decode_in_witnesses_iff decode_out_witnesses_iff comp_def strip_in_def strip_out_def)

lemma wf_witness_empty [simp]:
  "wf_TxInWitness E TxInWitness_empty" "wf_TxOutWitness E TxOutWitness_empty"
  by (simp_all add: wf_TxInWitness_def wf_TxOutWitness_def TxInWitness_empty_def
      TxOutWitness_empty_def wf_box_option_def wf_vec_def)

lemma witness_is_empty_iff:
  "TxInWitness_is_empty w \<longleftrightarrow> w = TxInWitness_empty"
  "TxOutWitness_is_empty v \<longleftrightarrow> v = TxOutWitness_empty"
  by (cases w; cases v; auto simp: TxInWitness_is_empty_def TxInWitness_empty_def
      TxOutWitness_is_empty_def TxOutWitness_empty_def)+

lemma map_strip_id:
  "\<forall>i \<in> set is. in_witness i = TxInWitness_empty \<Longrightarrow> map strip_in is = is"
  "\<forall>o' \<in> set os. out_witness o' = TxOutWitness_empty \<Longrightarrow> map strip_out os = os"
  by (simp_all add: map_idI strip_in_def strip_out_def)

lemma decode_TxIns_strip:
  assumes "wf_vec E ''TxIn'' (wf_TxIn E) is"
  shows "decode_vec E ''TxIn'' (decode_TxIn E) (encode_vec encode_TxIn is @ r) =
    Inr (map strip_in is, r)"
  using assms txinsc.total_decode_encode [of E "map strip_in is" r]
  by (simp add: wf_vec_strip encode_vec_strip)

lemma decode_TxOuts_strip:
  assumes "wf_vec E ''TxOut'' (wf_TxOut E) os"
  shows "decode_vec E ''TxOut'' (decode_TxOut E) (encode_vec encode_TxOut os @ r) =
    Inr (map strip_out os, r)"
  using assms txoutsc.total_decode_encode [of E "map strip_out os" r]
  by (simp add: wf_vec_strip encode_vec_strip)

lemma wf_vec_empty_iff:
  "wf_vec E t (\<lambda>i. wf_TxIn E i \<and> in_witness i = TxInWitness_empty) is \<longleftrightarrow>
     wf_vec E t (wf_TxIn E) is \<and> (\<forall>i \<in> set is. in_witness i = TxInWitness_empty)"
  "wf_vec E t' (\<lambda>o'. wf_TxOut E o' \<and> out_witness o' = TxOutWitness_empty) os \<longleftrightarrow>
     wf_vec E t' (wf_TxOut E) os \<and> (\<forall>o' \<in> set os. out_witness o' = TxOutWitness_empty)"
  by (auto simp: wf_vec_def list_all_iff)

lemma wf_vec_map_strip:
  "wf_vec E t (wf_TxIn E) (map strip_in is) = wf_vec E t (wf_TxIn E) is"
  "wf_vec E t' (wf_TxOut E) (map strip_out os) = wf_vec E t' (wf_TxOut E) os"
  by (simp_all add: wf_vec_def list_all_iff wf_strip)

lemma decode_encode_Transaction:
  assumes "wf_Transaction E tx"
  shows "decode_Transaction E (encode_Transaction tx @ r) = Inr (tx, r)"
proof (cases "has_witness tx")
  case True
  then have "\<not> ((\<forall>i \<in> set (tx_input tx). TxInWitness_is_empty (in_witness i)) \<and>
      (\<forall>o' \<in> set (tx_output tx). TxOutWitness_is_empty (out_witness o')))"
    by (auto simp: has_witness_def)
  with True assms show ?thesis
    by (simp add: decode_Transaction_def encode_Transaction_def wf_Transaction_def codec_enc
        decode_TxIns_strip decode_TxOuts_strip decode_witnesses_of_strip) blast
next
  case False
  with assms show ?thesis
    by (simp add: decode_Transaction_def encode_Transaction_def wf_Transaction_def codec_enc
        decode_TxIns_strip decode_TxOuts_strip has_witness_def witness_is_empty_iff map_strip_id)
qed

lemma encode_decode_Transaction:
  assumes "decode_Transaction E bs = Inr (tx, r)"
  shows "wf_Transaction E tx \<and> bs = encode_Transaction tx @ r"
proof -
  from assms obtain v f "is" os l r' where bs: "bs = emit_u32 v @ emit_u8 f @
        encode_vec encode_TxIn is @ encode_vec encode_TxOut os @ encode_LockTime l @ r'"
    and wfs: "wf_vec E ''TxIn'' (wf_TxIn E) is" "wf_vec E ''TxOut'' (wf_TxOut E) os" "wf_LockTime l"
    and empty: "\<forall>i \<in> set is. in_witness i = TxInWitness_empty"
      "\<forall>o' \<in> set os. out_witness o' = TxOutWitness_empty"
    and rest: "(let mk = (\<lambda>is os. \<lparr>tx_version = v, tx_lock_time = l,
                          tx_input = is, tx_output = os\<rparr>)
       in if f = 0 then dret (mk is os)
          else if f = 1 then
            dbind (decode_in_witnesses E is) (\<lambda>is.
            dbind (decode_out_witnesses E os) (\<lambda>os.
              if (\<forall>i \<in> set is. TxInWitness_is_empty (in_witness i)) \<and>
                 (\<forall>o' \<in> set os. TxOutWitness_is_empty (out_witness o'))
              then dfail (Err (ParseFailed ''witness flag set but no witnesses were given''))
              else dret (mk is os)))
          else dfail (Err (ParseFailed ''bad witness flag in tx''))) r' = Inr (tx, r)"
    unfolding decode_Transaction_def
    by (auto simp only: codec_dec wf_vec_empty_iff)
  consider (no_wit) "f = 0" | (wit) "f = 1" using rest by (auto simp: codec_dec split: if_splits)
  then show ?thesis
  proof cases
    case no_wit
    with rest have "tx = \<lparr>tx_version = v, tx_lock_time = l, tx_input = is, tx_output = os\<rparr>"
      "r' = r" by (simp_all add: codec_dec)
    with no_wit bs wfs empty show ?thesis
      by (auto simp: wf_Transaction_def encode_Transaction_def has_witness_def witness_is_empty_iff)
  next
    case wit
    with rest obtain js qs r'' where
      ins: "decode_in_witnesses E is r' = Inr (js, r'')" and
      outs: "decode_out_witnesses E os r'' = Inr (qs, r)" and
      tx: "tx = \<lparr>tx_version = v, tx_lock_time = l, tx_input = js, tx_output = qs\<rparr>" and
      ne: "\<not> ((\<forall>i \<in> set js. TxInWitness_is_empty (in_witness i)) \<and>
          (\<forall>o' \<in> set qs. TxOutWitness_is_empty (out_witness o')))"
      by (simp add: codec_dec Let_def split: if_splits) metis
    from ins outs empty have "is = map strip_in js" "os = map strip_out qs"
      by (simp_all add: decode_in_witnesses_iff decode_out_witnesses_iff map_strip_id)
    moreover from ne tx have "has_witness tx" by (auto simp: has_witness_def)
    ultimately show ?thesis using wit bs wfs ins outs tx
      by (simp add: decode_in_witnesses_iff decode_out_witnesses_iff wf_Transaction_def
          encode_Transaction_def encode_vec_strip wf_vec_map_strip)
  qed
qed

interpretation txc: total_codec encode_Transaction "decode_Transaction E" "wf_Transaction E" for E
  by unfold_locales (simp add: decode_encode_Transaction, simp add: encode_decode_Transaction)

declare txc.total_decode_encode [codec_enc] txc.decode_iff [codec_dec]

section \<open>Sample values\<close>

text \<open>An environment in which every point is valid, and a transaction with a pegged-in issuance, a
  witness and a fee, on which the properties are evaluated.\<close>

definition sample_env :: env where
  "sample_env = \<lparr>pedersen_ok = (\<lambda>_. True), generator_ok = (\<lambda>_. True), pubkey_ok = (\<lambda>_. True),
     tweak_ok = (\<lambda>_. True), rangeproof_ok = (\<lambda>_. True), surjection_ok = (\<lambda>_. True),
     max_vec_size = 4000000, size_of = (\<lambda>_. 200)\<rparr>"

definition sample_in :: TxIn where
  "sample_in = \<lparr>previous_output = OutPoint_new (replicate 32 7) 5, is_pegin = True,
     script_sig = [1, 2], in_sequence = 0xfffffffd,
     asset_issuance = \<lparr>asset_blinding_nonce = replicate 32 0, asset_entropy = replicate 32 9,
       issuance_amount = VExplicit 1000, inflation_keys = VNull, denomination = 3\<rparr>,
     in_witness = TxInWitness_empty\<lparr>script_witness := [[4, 5], []]\<rparr>\<rparr>"

definition sample_out :: TxOut where
  "sample_out = \<lparr>out_asset = AExplicit (replicate 32 1), out_value = VConfidential (8 # replicate 32 2),
     out_nonce = NConfidential (2 # replicate 32 3), script_pubkey = [0x51],
     out_witness = \<lparr>surjection_proof = None, out_rangeproof = Some [96, 0, 0]\<rparr>\<rparr>"

definition sample_tx :: Transaction where
  "sample_tx = \<lparr>tx_version = 2, tx_lock_time = Blocks 100, tx_input = [sample_in],
     tx_output = [sample_out, TxOut_new_fee 250 (replicate 32 1), TxOut_new_fee 50 (replicate 32 1)]\<rparr>"

lemmas sample_defs = sample_env_def sample_in_def sample_out_def sample_tx_def TxOut_new_fee_def
  OutPoint_new_def

lemma wf_sample_vout: "wf_vout sample_in"
  by code_simp

lemma wf_sample_tx: "wf_Transaction sample_env sample_tx"
  using wf_sample_vout
  by (simp add: sample_tx_def wf_Transaction_def sample_env_def wf_vec_def wf_TxIn_def
    wf_TxOut_def wf_TxInWitness_def wf_TxOutWitness_def wf_box_option_def wf_byte_vec_def
    wf_AssetIssuance_def wf_OutPoint_def wf_commitment_def
    sample_in_def sample_out_def TxOut_new_fee_def OutPoint_new_def
    TxInWitness_empty_def TxOutWitness_empty_def has_issuance_def AssetIssuance_is_null_def
    is_block_height_def LOCK_TIME_THRESHOLD_def)

section \<open>Identifiers\<close>

definition strip_tx :: "Transaction \<Rightarrow> Transaction" where
  "strip_tx tx = tx\<lparr>tx_input := map strip_in (tx_input tx), tx_output := map strip_out (tx_output tx)\<rparr>"

lemma strip_tx_simps [simp]:
  "tx_version (strip_tx tx) = tx_version tx" "tx_lock_time (strip_tx tx) = tx_lock_time tx"
  "tx_input (strip_tx tx) = map strip_in (tx_input tx)"
  "tx_output (strip_tx tx) = map strip_out (tx_output tx)"
  by (simp_all add: strip_tx_def)

lemma strip_witness [simp]:
  "in_witness (strip_in i) = TxInWitness_empty" "out_witness (strip_out o') = TxOutWitness_empty"
  by (simp_all add: strip_in_def strip_out_def)

lemma has_witness_strip: "\<not> has_witness (strip_tx tx)"
  by (auto simp: has_witness_def witness_is_empty_iff)

lemma txid_strip: "txid h tx = h (encode_Transaction (strip_tx tx))"
  using has_witness_strip [of tx] by (simp add: txid_def encode_Transaction_def encode_vec_strip)

lemma wf_strip_tx: "wf_Transaction E tx \<Longrightarrow> wf_Transaction E (strip_tx tx)"
  by (simp add: wf_Transaction_def wf_vec_map_strip)

section \<open>Properties\<close>

text \<open>C11. The transaction codec is exact: a buffer deserializes to a transaction exactly when the
  transaction is well formed and the buffer is its serialization. Hence the round trip holds for
  every well-formed transaction, no transaction has two accepted serializations, and everything
  the decoder accepts is well formed (flags, proofs, sizes, lock time).\<close>

theorem Transaction_deserialize_iff:
  "deserialize (decode_Transaction E) bs = Inr tx \<longleftrightarrow>
     wf_Transaction E tx \<and> bs = encode_Transaction tx"
  by (auto simp: txc.deserialize_iff)

text \<open>C12. With a collision-free hash the transaction id identifies a transaction up to its
  witnesses, and the witness transaction id identifies it completely.\<close>

theorem txid_identifies:
  assumes "wf_Transaction E tx" and "wf_Transaction E tx'" and "inj h"
  shows "(txid h tx = txid h tx' \<longleftrightarrow> strip_tx tx = strip_tx tx') \<and>
    (wtxid h tx = wtxid h tx' \<longleftrightarrow> tx = tx')"
proof -
  have enc: "encode_Transaction a = encode_Transaction b \<longleftrightarrow> a = b"
    if "wf_Transaction E a" "wf_Transaction E b" for a b
    using txc.serialize_inj [OF that refl] by auto
  show ?thesis
    using assms enc [OF wf_strip_tx wf_strip_tx, of tx tx'] enc [of tx tx']
    by (simp add: txid_strip wtxid_def inj_eq)
qed

theorem txid_identifies_witness:
  "txid id sample_tx = txid id (strip_tx sample_tx) \<and>
   wtxid id sample_tx \<noteq> wtxid id (strip_tx sample_tx)"
proof -
  have "strip_tx (strip_tx sample_tx) = strip_tx sample_tx"
    by (simp add: strip_tx_def strip_in_def strip_out_def)
  moreover have "sample_tx \<noteq> strip_tx sample_tx"
    by (simp add: sample_defs strip_tx_def strip_in_def TxInWitness_empty_def)
  ultimately show ?thesis
    using txid_identifies [OF wf_sample_tx wf_strip_tx [OF wf_sample_tx] inj_on_id] by simp
qed

end
