(* ===== verification/TxSize.thy ===== *)
theory TxSize
  imports Transaction
begin

text \<open>
  Sizes, weights and fees of a transaction (\<^verbatim>\<open>rust-elements/src/transaction.rs\<close>, the methods of
  \<open>Transaction\<close> and of \<open>TxOutWitness\<close>). Sizes are \<open>usize\<close> values, which are bounded by the memory
  that holds the transaction and are modelled as natural numbers; the subtractions, which could
  underflow, are checked. Fees are \<open>u64\<close> sums with overflow checks.
\<close>

section \<open>Sizes\<close>

definition proof_len :: "bytes option \<Rightarrow> nat" where
  "proof_len p = (case p of None \<Rightarrow> 0 | Some prf \<Rightarrow> length prf)"

definition rangeproof_len :: "TxOutWitness \<Rightarrow> nat" where
  "rangeproof_len w = proof_len (out_rangeproof w)"

definition surjectionproof_len :: "TxOutWitness \<Rightarrow> nat" where
  "surjectionproof_len w = proof_len (surjection_proof w)"

definition sized :: "nat \<Rightarrow> nat" where
  "sized n = VarInt_size (of_nat n) + n"

definition input_base_size :: "TxIn \<Rightarrow> nat" where
  "input_base_size i = 32 + 4 + 4 + sized (length (script_sig i)) +
     (if has_issuance i
      then 64 + Value_encoded_length (issuance_amount (asset_issuance i)) +
           Value_encoded_length (inflation_keys (asset_issuance i))
      else 0)"

definition input_witness_size :: "TxInWitness \<Rightarrow> nat" where
  "input_witness_size w =
     sized (proof_len (amount_rangeproof w)) + sized (proof_len (inflation_keys_rangeproof w)) +
     VarInt_size (of_nat (length (script_witness w))) +
     (\<Sum>wit \<leftarrow> script_witness w. sized (length wit)) +
     VarInt_size (of_nat (length (pegin_witness w))) +
     (\<Sum>wit \<leftarrow> pegin_witness w. sized (length wit))"

definition output_base_size :: "TxOut \<Rightarrow> nat" where
  "output_base_size o' =
     Asset_encoded_length (out_asset o') + Value_encoded_length (out_value o') +
     Nonce_encoded_length (out_nonce o') + sized (length (script_pubkey o'))"

definition output_witness_size :: "TxOutWitness \<Rightarrow> nat" where
  "output_witness_size w = sized (surjectionproof_len w) + sized (rangeproof_len w)"

definition scaled_size :: "nat \<Rightarrow> Transaction \<Rightarrow> nat" where
  "scaled_size scale_factor tx =
     (let witness_flag = has_witness tx;
          input_weight = (\<Sum>i \<leftarrow> tx_input tx. scale_factor * input_base_size i +
            (if witness_flag then input_witness_size (in_witness i) else 0));
          output_weight = (\<Sum>o' \<leftarrow> tx_output tx. scale_factor * output_base_size o' +
            (if witness_flag then output_witness_size (out_witness o') else 0))
      in scale_factor * (4 + 4 + VarInt_size (of_nat (length (tx_input tx))) +
           VarInt_size (of_nat (length (tx_output tx))) + 1) + input_weight + output_weight)"

definition tx_weight :: "Transaction \<Rightarrow> nat" where
  "tx_weight tx = scaled_size 4 tx"

definition tx_size :: "Transaction \<Rightarrow> nat" where
  "tx_size tx = scaled_size 1 tx"

definition tx_vsize :: "Transaction \<Rightarrow> nat" where
  "tx_vsize tx = (tx_weight tx + 4 - 1) div 4"

definition output_discount :: "TxOut \<Rightarrow> nat" where
  "output_discount o' =
     (output_witness_size (out_witness o') - 2) +
     (if Value_is_confidential (out_value o') then (33 - 9) * 4 else 0) +
     (if Nonce_is_confidential (out_nonce o') then (33 - 1) * 4 else 0)"

text \<open>The loop subtracts the three parts of the discount of each output one after the other.\<close>

fun discount_loop :: "TxOut list \<Rightarrow> nat \<Rightarrow> 'e fault + nat" where
  "discount_loop [] weight = Inr weight"
| "discount_loop (o' # os) weight =
     rbind (usize_minus weight (output_witness_size (out_witness o') - 2)) (\<lambda>weight.
     rbind (if Value_is_confidential (out_value o') then usize_minus weight ((33 - 9) * 4)
            else Inr weight) (\<lambda>weight.
     rbind (if Nonce_is_confidential (out_nonce o') then usize_minus weight ((33 - 1) * 4)
            else Inr weight) (\<lambda>weight.
     discount_loop os weight)))"

definition discount_weight :: "Transaction \<Rightarrow> 'e fault + nat" where
  "discount_weight tx = discount_loop (tx_output tx) (scaled_size 4 tx)"

definition discount_vsize :: "Transaction \<Rightarrow> 'e fault + nat" where
  "discount_vsize tx = rbind (discount_weight tx) (\<lambda>w. Inr ((w + 4 - 1) div 4))"

section \<open>Fees\<close>

fun fee_in_loop :: "TxOut list \<Rightarrow> AssetId \<Rightarrow> u64 \<Rightarrow> 'e fault + u64" where
  "fee_in_loop [] asset acc = Inr acc"
| "fee_in_loop (o' # os) asset acc =
     (if is_fee o' then
        (case Asset_explicit (out_asset o') of
           None \<Rightarrow> Inl (Panic ''is_fee'')
         | Some a \<Rightarrow>
             if a = asset then
               (case Value_explicit (out_value o') of
                  None \<Rightarrow> Inl (Panic ''is_fee'')
                | Some v \<Rightarrow> rbind (checked_plus acc v) (fee_in_loop os asset))
             else fee_in_loop os asset acc)
      else fee_in_loop os asset acc)"

definition fee_in :: "Transaction \<Rightarrow> AssetId \<Rightarrow> 'e fault + u64" where
  "fee_in tx asset = fee_in_loop (tx_output tx) asset 0"

fun all_fees_loop :: "TxOut list \<Rightarrow> (AssetId \<rightharpoonup> u64) \<Rightarrow> 'e fault + (AssetId \<rightharpoonup> u64)" where
  "all_fees_loop [] fees = Inr fees"
| "all_fees_loop (o' # os) fees =
     (if is_fee o' then
        (case (Asset_explicit (out_asset o'), Value_explicit (out_value o')) of
           (Some asset, Some v) \<Rightarrow>
             rbind (checked_plus (case fees asset of Some e \<Rightarrow> e | None \<Rightarrow> 0) v) (\<lambda>e.
             all_fees_loop os (fees(asset \<mapsto> e)))
         | _ \<Rightarrow> Inl (Panic ''is_fee''))
      else all_fees_loop os fees)"

definition all_fees :: "Transaction \<Rightarrow> 'e fault + (AssetId \<rightharpoonup> u64)" where
  "all_fees tx = all_fees_loop (tx_output tx) Map.empty"

section \<open>Sizes against the encoding\<close>

text \<open>The serialization without witnesses, which is what the transaction id commits to.\<close>

definition encode_base :: "Transaction \<Rightarrow> bytes" where
  "encode_base tx =
     emit_u32 (tx_version tx) @ emit_u8 0 @ encode_vec encode_TxIn (tx_input tx) @
     encode_vec encode_TxOut (tx_output tx) @ encode_LockTime (tx_lock_time tx)"

definition issuances :: "Transaction \<Rightarrow> nat" where
  "issuances tx = length (filter has_issuance (tx_input tx))"

lemma length_encode_box_option: "length (encode_box_option p) = sized (proof_len p)"
  by (cases p) (simp_all add: encode_box_option_def proof_len_def sized_def length_encode_with_size
      length_emit_varint)

lemma length_encode_witness:
  "length (encode_TxInWitness w) = input_witness_size w"
  "length (encode_TxOutWitness v) = output_witness_size v"
  by (simp_all add: encode_TxInWitness_def encode_TxOutWitness_def input_witness_size_def
      output_witness_size_def length_encode_box_option length_encode_vec length_encode_with_size
      rangeproof_len_def surjectionproof_len_def sized_def)

lemma length_encode_TxIn:
  "wf_TxIn E i \<Longrightarrow> length (encode_TxIn i) = input_base_size i + of_bool (has_issuance i)"
  by (auto simp: encode_TxIn_def input_base_size_def wf_TxIn_def wf_OutPoint_def sized_def
      length_encode_with_size encode_AssetIssuance_def wf_AssetIssuance_def length_encode_Value)

lemma length_encode_TxOut: "wf_TxOut E o' \<Longrightarrow> length (encode_TxOut o') = output_base_size o'"
  by (auto simp: encode_TxOut_def output_base_size_def wf_TxOut_def sized_def
      length_encode_with_size length_encode_Value length_encode_Asset length_encode_Nonce)

lemma has_witness_empty:
  "\<not> has_witness tx \<Longrightarrow> i \<in> set (tx_input tx) \<Longrightarrow> in_witness i = TxInWitness_empty"
  "\<not> has_witness tx \<Longrightarrow> o' \<in> set (tx_output tx) \<Longrightarrow> out_witness o' = TxOutWitness_empty"
  by (auto simp: has_witness_def witness_is_empty_iff)

definition witness_len :: "Transaction \<Rightarrow> nat" where
  "witness_len tx = (if has_witness tx
     then (\<Sum>i \<leftarrow> tx_input tx. input_witness_size (in_witness i)) +
          (\<Sum>o' \<leftarrow> tx_output tx. output_witness_size (out_witness o'))
     else 0)"

lemma length_encode_Transaction:
  "length (encode_Transaction tx) = length (encode_base tx) + witness_len tx"
  by (simp add: encode_Transaction_def encode_base_def witness_len_def length_concat comp_def
      length_encode_witness)

lemma length_encode_base:
  assumes "wf_Transaction E tx"
  shows "length (encode_base tx) =
    9 + VarInt_size (of_nat (length (tx_input tx))) + VarInt_size (of_nat (length (tx_output tx))) +
    (\<Sum>i \<leftarrow> tx_input tx. input_base_size i) + (\<Sum>o' \<leftarrow> tx_output tx. output_base_size o') +
    issuances tx"
proof -
  have "(\<Sum>i \<leftarrow> tx_input tx. length (encode_TxIn i)) =
      (\<Sum>i \<leftarrow> tx_input tx. input_base_size i + of_bool (has_issuance i))"
    by (intro arg_cong [where f = sum_list] map_cong refl length_encode_TxIn [where E = E])
      (use assms in \<open>auto simp: wf_Transaction_def wf_vec_def list_all_iff\<close>)
  moreover have "(\<Sum>i \<leftarrow> xs. of_bool (has_issuance i)) = length (filter has_issuance xs)" for xs
    by (induction xs) auto
  moreover have "(\<Sum>o' \<leftarrow> tx_output tx. length (encode_TxOut o')) =
      (\<Sum>o' \<leftarrow> tx_output tx. output_base_size o')"
    by (intro arg_cong [where f = sum_list] map_cong refl length_encode_TxOut [where E = E])
      (use assms in \<open>auto simp: wf_Transaction_def wf_vec_def list_all_iff\<close>)
  ultimately show ?thesis
    by (simp add: encode_base_def length_encode_vec issuances_def sum_list_addf encode_LockTime_def)
qed

lemma scaled_size_eq:
  assumes "wf_Transaction E tx"
  shows "scaled_size k tx + k * issuances tx = k * length (encode_base tx) + witness_len tx"
  unfolding length_encode_base [OF assms]
  by (simp add: scaled_size_def Let_def witness_len_def sum_list_addf sum_list_const_mult
      distrib_left)

section \<open>The discount never underflows\<close>

lemma discount_loop_eq:
  "(\<Sum>o' \<leftarrow> os. output_discount o') \<le> w \<Longrightarrow>
     discount_loop os w = Inr (w - (\<Sum>o' \<leftarrow> os. output_discount o'))"
  by (induction os arbitrary: w) (auto simp: usize_minus_def output_discount_def)

lemma output_discount_le:
  "output_discount o' \<le> 4 * output_base_size o' + (output_witness_size (out_witness o') - 2)"
  by (cases "out_value o'"; cases "out_nonce o'") (simp_all add: output_discount_def output_base_size_def)

lemma output_witness_size_empty: "output_witness_size TxOutWitness_empty = 2"
  by (simp add: output_witness_size_def TxOutWitness_empty_def rangeproof_len_def
      surjectionproof_len_def proof_len_def sized_def VarInt_size_def)

lemma sum_output_discount_le: "(\<Sum>o' \<leftarrow> tx_output tx. output_discount o') \<le> tx_weight tx"
proof -
  have "(\<Sum>o' \<leftarrow> tx_output tx. output_discount o') \<le>
      (\<Sum>o' \<leftarrow> tx_output tx. 4 * output_base_size o' +
        (if has_witness tx then output_witness_size (out_witness o') else 0))"
  proof (rule sum_list_mono)
    fix o' assume "o' \<in> set (tx_output tx)"
    then show "output_discount o' \<le> 4 * output_base_size o' +
        (if has_witness tx then output_witness_size (out_witness o') else 0)"
      using output_discount_le [of o'] has_witness_empty(2) [of tx o']
      by (auto simp: output_witness_size_empty)
  qed
  then show ?thesis by (simp add: tx_weight_def scaled_size_def Let_def)
qed

section \<open>Fees as sums of naturals\<close>

definition fee_of :: "AssetId \<Rightarrow> TxOut \<Rightarrow> nat" where
  "fee_of asset o' =
     (if is_fee o' \<and> out_asset o' = AExplicit asset
      then (case out_value o' of VExplicit v \<Rightarrow> unat v | _ \<Rightarrow> 0) else 0)"

definition fee_total :: "AssetId \<Rightarrow> TxOut list \<Rightarrow> nat" where
  "fee_total asset os = (\<Sum>o' \<leftarrow> os. fee_of asset o')"

definition fee_assets :: "TxOut list \<Rightarrow> AssetId set" where
  "fee_assets os = {a. \<exists>o' \<in> set os. is_fee o' \<and> out_asset o' = AExplicit a}"

lemma is_fee_cases:
  assumes "is_fee o'"
  obtains a v where "out_asset o' = AExplicit a" "out_value o' = VExplicit v"
  using assms by (cases "out_asset o'"; cases "out_value o'") (auto simp: is_fee_def)

lemma fee_total_Cons: "fee_total a (o' # os) = fee_of a o' + fee_total a os"
  by (simp add: fee_total_def)

lemma fee_in_loop_eq:
  "fee_in_loop os asset acc =
     (if unat acc + fee_total asset os < 2 ^ 64 then Inr (of_nat (unat acc + fee_total asset os))
      else Inl (Panic ''attempt to add with overflow''))"
proof (induction os arbitrary: acc)
  case Nil
  then show ?case using unsigned_less [where 'a = nat, of acc] by (simp add: fee_total_def)
next
  case (Cons o' os)
  show ?case
  proof (cases "is_fee o'")
    case True
    then obtain a v where "out_asset o' = AExplicit a" "out_value o' = VExplicit v"
      by (rule is_fee_cases)
    with True Cons show ?thesis
      by (auto simp: fee_total_Cons fee_of_def checked_plus_def unat_plus_simple add.assoc)
  next
    case False
    with Cons show ?thesis by (simp add: fee_total_Cons fee_of_def)
  qed
qed

definition fee_entry :: "(AssetId \<rightharpoonup> u64) \<Rightarrow> AssetId \<Rightarrow> nat" where
  "fee_entry fees a = (case fees a of Some e \<Rightarrow> unat e | None \<Rightarrow> 0)"

definition fees_after :: "TxOut list \<Rightarrow> (AssetId \<rightharpoonup> u64) \<Rightarrow> AssetId \<rightharpoonup> u64" where
  "fees_after os fees = (\<lambda>a. if a \<in> dom fees \<union> fee_assets os
     then Some (of_nat (fee_entry fees a + fee_total a os)) else None)"

lemma fees_after_Nil: "fees_after [] fees = fees"
  by (auto simp: fees_after_def fee_entry_def fee_total_def fee_assets_def split: option.splits)

lemma all_fees_loop_eq:
  "(all_fees_loop os fees :: 'e fault + (AssetId \<rightharpoonup> u64)) = Inr m \<longleftrightarrow>
     (\<forall>a. fee_entry fees a + fee_total a os < 2 ^ 64) \<and> m = fees_after os fees"
proof (induction os arbitrary: fees)
  case Nil
  have "fee_entry fees a < 2 ^ 64" for a
    by (simp add: fee_entry_def unat_bounds split: option.splits)
  then show ?case by (auto simp: fees_after_Nil fee_total_def)
next
  case (Cons o' os)
  show ?case
  proof (cases "is_fee o'")
    case True
    then obtain b v where av: "out_asset o' = AExplicit b" "out_value o' = VExplicit v"
      by (rule is_fee_cases)
    let ?e = "case fees b of Some e \<Rightarrow> e | None \<Rightarrow> 0"
    have e: "unat ?e = fee_entry fees b" by (simp add: fee_entry_def split: option.splits)
    have fo: "fee_of a o' = (if a = b then unat v else 0)" for a
      using True av by (simp add: fee_of_def)
    show ?thesis
    proof (cases "fee_entry fees b + unat v < 2 ^ 64")
      case fits: True
      then have e': "unat (?e + v) = fee_entry fees b + unat v" by (simp add: e unat_plus_simple)
      have ent: "fee_entry (fees(b \<mapsto> ?e + v)) a = fee_entry fees a + fee_of a o'" for a
        using e' by (simp add: fo) (simp add: fee_entry_def)
      have "fees_after os (fees(b \<mapsto> ?e + v)) = fees_after (o' # os) fees"
        using True av by (auto simp: fees_after_def fun_eq_iff ent fee_total_Cons add.assoc fee_assets_def)
      moreover have "(all_fees_loop (o' # os) fees :: 'e fault + _) =
          all_fees_loop os (fees(b \<mapsto> ?e + v))"
        using True av fits e by (simp add: checked_plus_def)
      ultimately show ?thesis
        by (simp only: Cons ent fee_total_Cons add.assoc)
    next
      case False
      then have "\<not> (\<forall>a. fee_entry fees a + fee_total a (o' # os) < 2 ^ 64)"
        by (auto simp: fee_total_Cons fo intro!: exI [of _ b])
      with True av False e show ?thesis by (simp add: checked_plus_def)
    qed
  next
    case False
    then have "fees_after (o' # os) fees = fees_after os fees"
      by (auto simp: fees_after_def fee_total_Cons fee_of_def fee_assets_def)
    with False show ?thesis by (simp add: Cons fee_total_Cons fee_of_def)
  qed
qed

lemma fee_total_0: "a \<notin> fee_assets os \<Longrightarrow> fee_total a os = 0"
  by (induction os) (auto simp: fee_total_def fee_of_def fee_assets_def)

section \<open>Properties\<close>

text \<open>C13. \<open>size\<close> and \<open>weight\<close> against the bytes that are really written: the weight counts the
  serialization without witnesses three times more than the witnesses, and both fall short of the
  serialized length by one byte for every issuance, because \<open>scaled_size\<close> does not count the
  denomination byte.\<close>

theorem size_weight_of_encoding:
  assumes "wf_Transaction E tx"
  shows "tx_size tx + issuances tx = length (encode_Transaction tx) \<and>
    tx_weight tx + 4 * issuances tx = 3 * length (encode_base tx) + length (encode_Transaction tx)"
  using scaled_size_eq [OF assms, of 1] scaled_size_eq [OF assms, of 4]
  by (simp add: tx_size_def tx_weight_def length_encode_Transaction)


theorem size_weight_of_encoding_witness:
  "wf_Transaction sample_env sample_tx \<and> issuances sample_tx = 1 \<and>
   tx_size sample_tx + 1 = length (encode_Transaction sample_tx)"
proof -
  have "issuances sample_tx = 1"
    by (simp add: issuances_def sample_defs has_issuance_def AssetIssuance_is_null_def)
  with size_weight_of_encoding [OF wf_sample_tx] wf_sample_tx show ?thesis by simp
qed

text \<open>C14. The discount weight is computed without underflow for every transaction: it is the weight
  less the discounts of the outputs, and it never exceeds the weight.\<close>

theorem discount_weight_total:
  "discount_weight tx = Inr (tx_weight tx - (\<Sum>o' \<leftarrow> tx_output tx. output_discount o')) \<and>
   (\<Sum>o' \<leftarrow> tx_output tx. output_discount o') \<le> tx_weight tx"
  using sum_output_discount_le [of tx]
  by (simp add: discount_weight_def discount_loop_eq tx_weight_def)


text \<open>C15. The two ways to compute fees agree. \<open>fee_in\<close> returns the sum of the explicit fee
  outputs of the asset, and panics exactly when that sum leaves 64 bits; \<open>all_fees\<close> returns exactly
  when no asset overflows, and maps exactly the assets of the fee outputs to their \<open>fee_in\<close>.\<close>

theorem fee_in_all_fees:
  "fee_in tx a = (let s = fee_total a (tx_output tx) in
     if s < 2 ^ 64 then Inr (of_nat s) else Inl (Panic ''attempt to add with overflow'')) \<and>
   (all_fees tx = Inr m \<longleftrightarrow>
     (\<forall>b. \<exists>s. fee_in tx b = (Inr s :: unit fault + u64) \<and>
       m b = (if b \<in> fee_assets (tx_output tx) then Some s else None)))"
proof
  have *: "fee_in tx b = (let s = fee_total b (tx_output tx) in
     if s < 2 ^ 64 then Inr (of_nat s) else Inl (Panic ''attempt to add with overflow''))" for b
    by (simp add: fee_in_def fee_in_loop_eq Let_def)
  show "fee_in tx a = (let s = fee_total a (tx_output tx) in
     if s < 2 ^ 64 then Inr (of_nat s) else Inl (Panic ''attempt to add with overflow''))"
    by (rule *)
  show "all_fees tx = Inr m \<longleftrightarrow>
     (\<forall>b. \<exists>s. fee_in tx b = (Inr s :: unit fault + u64) \<and>
       m b = (if b \<in> fee_assets (tx_output tx) then Some s else None))"
    by (auto simp: all_fees_def all_fees_loop_eq * Let_def fees_after_def fee_entry_def fun_eq_iff)
qed

end
