(* ===== verification/Merkle.thy ===== *)
theory Merkle
  imports Prelude
begin

text \<open>
  The Merkle root over SHA-256 midstates (\<^verbatim>\<open>rust-elements/src/fast_merkle_root.rs\<close>). The compression
  \<open>sha256midstate\<close> of two nodes is a parameter \<open>H\<close>. The code keeps, in an array of 32 levels, the
  roots of the complete subtrees that the binary digits of the leaf counter stand for, and then
  sweeps them together; the reference is the recursive root of a tree whose left subtrees are
  complete. The counter is a \<open>u32\<close>: its overflow and a shift by 32 are panics.
\<close>

unbundle bit_operations_syntax

type_synonym node = bytes
type_synonym compress = "node \<Rightarrow> node \<Rightarrow> node"

section \<open>The code\<close>

text \<open>The inner loop, at two places of the code: while the bit of the counter at the current level is
  clear, combine with the subtree stored there and go up.\<close>

function absorb :: "compress \<Rightarrow> node list \<Rightarrow> nat \<Rightarrow> nat \<Rightarrow> node \<Rightarrow> 'e fault + (nat \<times> node)" where
  "absorb H inner cnt level temp =
     (if 32 \<le> level then Inl (Panic ''attempt to shift left with overflow'')
      else if bit cnt level then Inr (level, temp)
      else absorb H inner cnt (level + 1) (H (inner ! level) temp))"
  by pat_completeness auto

termination absorb
  by (relation "measure (\<lambda>(H, inner, cnt, level, temp). 32 - level)") auto

fun absorb_leaves :: "compress \<Rightarrow> node list \<Rightarrow> node list \<Rightarrow> nat \<Rightarrow> 'e fault + (node list \<times> nat)" where
  "absorb_leaves H [] inner cnt = Inr (inner, cnt)"
| "absorb_leaves H (leaf # leaves) inner cnt =
     (if 2 ^ 32 \<le> cnt + 1 then Inl (Panic ''attempt to add with overflow'')
      else rbind (absorb H inner (cnt + 1) 0 leaf) (\<lambda>(level, temp).
        absorb_leaves H leaves (inner[level := temp]) (cnt + 1)))"

declare absorb.simps [simp del]

function skip_levels :: "nat \<Rightarrow> nat \<Rightarrow> 'e fault + nat" where
  "skip_levels cnt level =
     (if 32 \<le> level then Inl (Panic ''attempt to shift left with overflow'')
      else if bit cnt level then Inr level
      else skip_levels cnt (level + 1))"
  by pat_completeness auto

termination skip_levels
  by (relation "measure (\<lambda>(cnt, level). 32 - level)") auto

declare skip_levels.simps [simp del]

lemma absorb_level: "absorb H inner cnt level temp = Inr (l, t) \<Longrightarrow> level \<le> l \<and> l < 32"
proof (induction H inner cnt level temp rule: absorb.induct)
  case (1 H inner cnt level temp)
  then show ?case by (subst (asm) (2) absorb.simps) (auto split: if_splits)
qed

function sweep :: "compress \<Rightarrow> node list \<Rightarrow> nat \<Rightarrow> nat \<Rightarrow> node \<Rightarrow> 'e fault + node" where
  "sweep H inner cnt level result =
     (if 32 \<le> level then Inl (Panic ''attempt to shift left with overflow'')
      else if cnt = 2 ^ level then Inr result
      else if 2 ^ 32 \<le> cnt + 2 ^ level then Inl (Panic ''attempt to add with overflow'')
      else (case absorb H inner (cnt + 2 ^ level) (level + 1) result of
          Inl e \<Rightarrow> Inl e
        | Inr (level', result') \<Rightarrow> sweep H inner (cnt + 2 ^ level) level' result'))"
  by pat_completeness auto

termination sweep
  by (relation "measure (\<lambda>(H, inner, cnt, level, result). 32 - level)") (auto dest: absorb_level)

definition fast_merkle_root :: "compress \<Rightarrow> node list \<Rightarrow> 'e fault + node" where
  "fast_merkle_root H leaves =
     (if leaves = [] then Inr (replicate 32 0)
      else rbind (absorb_leaves H leaves (replicate 32 (replicate 32 0)) 0) (\<lambda>(inner, cnt).
        rbind (skip_levels cnt 0) (\<lambda>level. sweep H inner cnt level (inner ! level))))"

declare sweep.simps [simp del]

section \<open>The reference\<close>

text \<open>The root of the leaves \<open>xs\<close> as a tree of depth at most \<open>l\<close>: the left subtree of a node takes
  the largest power of two of leaves that leaves something for the right one.\<close>

fun merkle_tree :: "compress \<Rightarrow> nat \<Rightarrow> node list \<Rightarrow> node" where
  "merkle_tree H 0 xs = hd xs"
| "merkle_tree H (Suc l) xs =
     (if length xs \<le> 2 ^ l then merkle_tree H l xs
      else H (merkle_tree H l (take (2 ^ l) xs)) (merkle_tree H l (drop (2 ^ l) xs)))"

lemma merkle_tree_level: "length xs \<le> 2 ^ l \<Longrightarrow> l \<le> l' \<Longrightarrow> merkle_tree H l' xs = merkle_tree H l xs"
proof (induction l')
  case (Suc l')
  show ?case
  proof (cases "l = Suc l'")
    case False
    with Suc.prems have "l \<le> l'" by simp
    moreover from this have "length xs \<le> 2 ^ l'"
      using Suc.prems(1) by (meson le_trans one_le_numeral power_increasing)
    ultimately show ?thesis using Suc by simp
  qed simp
qed simp

text \<open>The chunk of \<open>2 ^ l\<close> leaves that the binary digit \<open>l\<close> of \<open>n\<close> stands for.\<close>

definition chunk :: "nat \<Rightarrow> nat \<Rightarrow> node list \<Rightarrow> node list" where
  "chunk n l xs = take (2 ^ l) (drop (n div 2 ^ Suc l * 2 ^ Suc l) xs)"

definition levels_ok :: "compress \<Rightarrow> node list \<Rightarrow> node list \<Rightarrow> bool" where
  "levels_ok H inner xs \<longleftrightarrow> length inner = 32 \<and>
     (\<forall>l < 32. bit (length xs) l \<longrightarrow> inner ! l = merkle_tree H l (chunk (length xs) l xs))"

section \<open>Binary digits of a counter\<close>

lemma dvd_next_level:
  assumes "2 ^ l dvd n" and "\<not> bit (n::nat) l"
  obtains k where "n = 2 ^ Suc l * k"
proof -
  from assms(1) obtain q where q: "n = 2 ^ l * q" by blast
  with assms(2) have "even q" by (simp add: bit_iff_odd)
  then obtain k where "q = 2 * k" by blast
  with q that show thesis by simp
qed

lemma dvd_bit_level:
  assumes "2 ^ l dvd n" and "bit (n::nat) l"
  obtains j where "n = 2 ^ Suc l * j + 2 ^ l"
proof -
  from assms(1) obtain q where q: "n = 2 ^ l * q" by blast
  with assms(2) have "odd q" by (simp add: bit_iff_odd)
  then obtain j where "q = 2 * j + 1" by (rule oddE)
  with q that show thesis by (simp add: algebra_simps)
qed

lemma dvd_not_bit: "2 ^ m dvd n \<Longrightarrow> l < m \<Longrightarrow> \<not> bit n l" for n :: nat
proof -
  assume "2 ^ m dvd n" "l < m"
  then have "2 ^ Suc l dvd n" by (meson Suc_leI dvd_trans le_imp_power_dvd)
  then show ?thesis by (auto simp: bit_iff_odd elim!: dvdE)
qed

lemma digit_of_range:
  assumes "2 ^ Suc l * j + 2 ^ l \<le> n" and "n < 2 ^ Suc l * Suc j"
  shows "bit n l" and "n div 2 ^ Suc l = j"
proof -
  from assms have "n div 2 ^ l = 2 * j + 1" by (intro div_nat_eqI) (simp_all add: algebra_simps)
  then show "bit n l" by (simp add: bit_iff_odd)
  from assms have "2 ^ Suc l * j \<le> n" by linarith
  with assms(2) show "n div 2 ^ Suc l = j" by (intro div_nat_eqI) (simp_all add: mult.commute)
qed

lemma bit_lower_bound:
  assumes "bit (n::nat) m"
  shows "2 ^ Suc m * (n div 2 ^ Suc m) + 2 ^ m \<le> n"
proof -
  from assms have "odd (n div 2 ^ m)" by (simp add: bit_iff_odd)
  then have "n div 2 ^ m = 2 * (n div 2 ^ m div 2) + 1"
    by (rule odd_two_times_div_two_succ [symmetric])
  moreover have "n div 2 ^ m div 2 = n div 2 ^ Suc m" by (simp add: div_mult2_eq [symmetric] mult.commute)
  ultimately have "n div 2 ^ m = 2 * (n div 2 ^ Suc m) + 1" by simp
  moreover have "2 ^ m * (n div 2 ^ m) \<le> n" by (simp add: mult.commute)
  ultimately show ?thesis by (simp add: algebra_simps)
qed

lemma next_multiple_le:
  assumes "2 ^ k * j < 2 ^ (m::nat)" and "0 < (j::nat)"
  shows "2 ^ k * Suc j \<le> 2 ^ m"
proof -
  have "2 ^ k * 1 \<le> 2 ^ k * j" using assms(2) by simp
  with assms(1) have "(2::nat) ^ k < 2 ^ m" by linarith
  then have "k < m" by simp
  then have m: "2 ^ m = 2 ^ k * (2::nat) ^ (m - k)" by (simp add: power_add [symmetric])
  with assms(1) have "j < 2 ^ (m - k)" by simp
  then show ?thesis unfolding m by (intro mult_le_mono2) simp
qed

lemma level_bound: "2 ^ l dvd n \<Longrightarrow> 0 < n \<Longrightarrow> n < 2 ^ 32 \<Longrightarrow> l < 32" for n :: nat
  by (metis dvd_imp_le le_less_trans nat_power_less_imp_less zero_less_numeral)

section \<open>Absorbing the leaves\<close>

lemma merkle_tree_join:
  assumes "2 ^ l < length ys"
  shows "merkle_tree H (Suc l) ys = H (merkle_tree H l (take (2 ^ l) ys)) (merkle_tree H l (drop (2 ^ l) ys))"
  using assms by simp

lemma absorb_leaf:
  assumes ok: "levels_ok H inner xs" and n: "Suc (length xs) < 2 ^ 32"
    and "2 ^ l dvd Suc (length xs)"
    and "temp = merkle_tree H l (drop (Suc (length xs) - 2 ^ l) (xs @ [x]))"
  shows "\<exists>l' t. (absorb H inner (Suc (length xs)) l temp :: 'e fault + _) = Inr (l', t) \<and> l' < 32 \<and>
    bit (Suc (length xs)) l' \<and> 2 ^ l' dvd Suc (length xs) \<and>
    t = merkle_tree H l' (drop (Suc (length xs) - 2 ^ l') (xs @ [x]))"
  using assms(3,4)
proof (induction "32 - l" arbitrary: l temp rule: less_induct)
  case less
  have l: "l < 32" using level_bound [OF less.prems(1) _ n] by simp
  show ?case
  proof (cases "bit (Suc (length xs)) l")
    case True
    with l less.prems show ?thesis by (subst absorb.simps) auto
  next
    case False
    with less.prems(1) obtain k where k: "Suc (length xs) = 2 ^ Suc l * k" by (rule dvd_next_level)
    then obtain j where j: "k = Suc j" by (cases k) auto
    let ?p = "2 ^ Suc l * j"
    have "Suc (?p + 2 ^ l) \<le> ?p + 2 ^ Suc l" by simp
    also have "\<dots> = Suc (length xs)" using k j by simp
    finally have lo: "?p + 2 ^ l \<le> length xs" by simp
    have hi: "length xs < 2 ^ Suc l * Suc j" using k j by simp
    note bit = digit_of_range(1) [OF lo hi] and dv = digit_of_range(2) [OF lo hi]
    have p: "Suc (length xs) - 2 ^ Suc l = ?p" "Suc (length xs) - 2 ^ l = ?p + 2 ^ l"
      using k j by (simp_all add: algebra_simps)
    have "inner ! l = merkle_tree H l (take (2 ^ l) (drop ?p xs))"
      using ok l bit dv by (simp add: levels_ok_def chunk_def mult.commute)
    moreover have "take (2 ^ l) (drop ?p xs) = take (2 ^ l) (drop ?p (xs @ [x]))"
      using lo by simp
    moreover have "drop (?p + 2 ^ l) (xs @ [x]) = drop (2 ^ l) (drop ?p (xs @ [x]))"
      by (simp only: drop_drop add.commute)
    ultimately have "H (inner ! l) temp = merkle_tree H (Suc l) (drop ?p (xs @ [x]))"
      using less.prems(2) p by (subst merkle_tree_join) (use lo in simp_all)
    then have "\<exists>l' t. (absorb H inner (Suc (length xs)) (Suc l) (H (inner ! l) temp) :: 'e fault + _) =
        Inr (l', t) \<and> l' < 32 \<and> bit (Suc (length xs)) l' \<and> 2 ^ l' dvd Suc (length xs) \<and>
        t = merkle_tree H l' (drop (Suc (length xs) - 2 ^ l') (xs @ [x]))"
      using l k p by (intro less.hyps) auto
    with l False show ?thesis by (subst absorb.simps) simp
  qed
qed

lemma levels_ok_step:
  assumes ok: "levels_ok H inner xs" and l: "l < 32" "bit (Suc (length xs)) l"
    and dvd: "2 ^ l dvd Suc (length xs)"
    and t: "t = merkle_tree H l (drop (Suc (length xs) - 2 ^ l) (xs @ [x]))"
  shows "levels_ok H (inner[l := t]) (xs @ [x])"
proof -
  from dvd l(2) obtain j where j: "Suc (length xs) = 2 ^ Suc l * j + 2 ^ l" by (rule dvd_bit_level)
  have "inner[l := t] ! m = merkle_tree H m (chunk (Suc (length xs)) m (xs @ [x]))"
    if m: "m < 32" "bit (Suc (length xs)) m" for m
  proof (cases m l rule: linorder_cases)
    case less
    with dvd m show ?thesis using dvd_not_bit by blast
  next
    case equal
    have "Suc (length xs) div 2 ^ Suc l = j" unfolding j by (rule digit_of_range(2)) simp_all
    then show ?thesis using ok l(1) j equal
      by (simp add: t chunk_def levels_ok_def mult.commute)
  next
    case greater
    have same: "Suc (length xs) div 2 ^ k = length xs div 2 ^ k" if "l < k" for k
      using that l(2) dvd_not_bit [of k "Suc (length xs)" l] by (auto simp: div_Suc dvd_eq_mod_eq_0)
    have bit: "bit (length xs) m" using m(2) same [OF greater] by (simp add: bit_iff_odd)
    then have "2 ^ Suc m * (length xs div 2 ^ Suc m) + 2 ^ m \<le> length xs"
      by (rule bit_lower_bound)
    then have "chunk (Suc (length xs)) m (xs @ [x]) = chunk (length xs) m xs"
      using same [of "Suc m"] greater by (simp add: chunk_def mult.commute)
    with bit ok m greater show ?thesis by (simp add: levels_ok_def)
  qed
  then show ?thesis using ok by (simp add: levels_ok_def)
qed

lemma absorb_leaves_ok:
  assumes "levels_ok H inner xs" and "length xs + length ys < 2 ^ 32"
  shows "\<exists>inner'. (absorb_leaves H ys inner (length xs) :: 'e fault + _) =
    Inr (inner', length xs + length ys) \<and> levels_ok H inner' (xs @ ys)"
  using assms
proof (induction ys arbitrary: xs inner)
  case Nil
  then show ?case by simp
next
  case (Cons y ys)
  have n: "Suc (length xs) < 2 ^ 32" using Cons.prems(2) by simp
  obtain l t where a: "(absorb H inner (Suc (length xs)) 0 y :: 'e fault + _) = Inr (l, t)"
    and l: "l < 32" "bit (Suc (length xs)) l" "2 ^ l dvd Suc (length xs)"
      "t = merkle_tree H l (drop (Suc (length xs) - 2 ^ l) (xs @ [y]))"
    using absorb_leaf [OF Cons.prems(1) n, of 0 y y, where 'e = 'e] by auto
  have "levels_ok H (inner[l := t]) (xs @ [y])" by (rule levels_ok_step [OF Cons.prems(1) l])
  from Cons.IH [OF this] Cons.prems(2) a n show ?case by simp
qed

section \<open>Sweeping the levels\<close>

lemma skip_levels_ok:
  assumes "2 ^ l dvd n" and "0 < n" and "n < 2 ^ 32"
  shows "\<exists>l'. (skip_levels n l :: 'e fault + _) = Inr l' \<and> l' < 32 \<and> bit n l' \<and> 2 ^ l' dvd n"
  using assms(1)
proof (induction "32 - l" arbitrary: l rule: less_induct)
  case less
  have l: "l < 32" using level_bound [OF less.prems assms(2,3)] .
  show ?case
  proof (cases "bit n l")
    case True
    with l less.prems show ?thesis by (subst skip_levels.simps) simp
  next
    case False
    with less.prems obtain k where "n = 2 ^ Suc l * k" by (rule dvd_next_level)
    then have "2 ^ Suc l dvd n" by simp
    with l have "\<exists>l'. (skip_levels n (Suc l) :: 'e fault + _) = Inr l' \<and> l' < 32 \<and> bit n l' \<and> 2 ^ l' dvd n"
      by (intro less.hyps) simp_all
    with l False show ?thesis by (subst skip_levels.simps) simp
  qed
qed

text \<open>The state of the sweep: the value at a level is the root of the leaves from the last multiple
  of the level's width on.\<close>

definition swept :: "compress \<Rightarrow> node list \<Rightarrow> nat \<Rightarrow> nat \<Rightarrow> node \<Rightarrow> bool" where
  "swept H xs cnt l r \<longleftrightarrow> 2 ^ l dvd cnt \<and> length xs \<le> cnt \<and> cnt - 2 ^ l < length xs \<and>
     r = merkle_tree H l (drop (cnt - 2 ^ l) xs)"

lemma absorb_swept:
  assumes ok: "levels_ok H inner xs" and cnt: "length xs < cnt" "cnt \<le> 2 ^ 31"
    and "swept H xs cnt l r"
  shows "\<exists>l' r'. (absorb H inner cnt l r :: 'e fault + _) = Inr (l', r') \<and> l' < 32 \<and> bit cnt l' \<and>
    swept H xs cnt l' r'"
  using assms(4)
proof (induction "32 - l" arbitrary: l r rule: less_induct)
  case less
  have "2 ^ l dvd cnt" using less.prems by (simp add: swept_def)
  then have l: "l < 32" using cnt by (intro level_bound [of l cnt]) auto
  show ?case
  proof (cases "bit cnt l")
    case True
    with l less.prems show ?thesis by (subst absorb.simps) simp
  next
    case False
    with \<open>2 ^ l dvd cnt\<close> obtain k where k: "cnt = 2 ^ Suc l * k" by (rule dvd_next_level)
    then obtain j where j: "k = Suc j" using cnt by (cases k) auto
    have p: "cnt - 2 ^ Suc l = 2 ^ Suc l * j" "cnt - 2 ^ l = 2 ^ Suc l * j + 2 ^ l"
      using k j by simp_all
    then have lo: "2 ^ Suc l * j + 2 ^ l < length xs" using less.prems by (simp add: swept_def)
    have hi: "length xs < 2 ^ Suc l * Suc j" using cnt k j by simp
    have "inner ! l = merkle_tree H l (take (2 ^ l) (drop (2 ^ Suc l * j) xs))"
      using ok l digit_of_range [OF less_imp_le [OF lo] hi]
      by (simp add: levels_ok_def chunk_def mult.commute)
    moreover have "drop (2 ^ Suc l * j + 2 ^ l) xs = drop (2 ^ l) (drop (2 ^ Suc l * j) xs)"
      by (simp only: drop_drop add.commute)
    moreover have "2 ^ l < length (drop (2 ^ Suc l * j) xs)" using lo by simp
    ultimately have "H (inner ! l) r = merkle_tree H (Suc l) (drop (2 ^ Suc l * j) xs)"
      using less.prems p by (simp add: swept_def merkle_tree_join del: length_drop)
    then have "swept H xs cnt (Suc l) (H (inner ! l) r)"
      using less.prems p k lo by (simp add: swept_def)
    with l have "\<exists>l' r'. (absorb H inner cnt (Suc l) (H (inner ! l) r) :: 'e fault + _) = Inr (l', r') \<and>
        l' < 32 \<and> bit cnt l' \<and> swept H xs cnt l' r'"
      by (intro less.hyps) simp_all
    with l False show ?thesis by (subst absorb.simps) simp
  qed
qed

lemma sweep_ok:
  assumes ok: "levels_ok H inner xs" and n: "length xs \<le> 2 ^ 31"
    and "l < 32" and "bit cnt l" and "swept H xs cnt l r"
  shows "(sweep H inner cnt l r :: 'e fault + _) = Inr (merkle_tree H 31 xs)"
  using assms(3-)
proof (induction "32 - l" arbitrary: cnt l r rule: less_induct)
  case less
  have dvd: "2 ^ l dvd cnt" using less.prems by (simp add: swept_def)
  show ?case
  proof (cases "cnt = 2 ^ l")
    case True
    with less.prems have "length xs \<le> 2 ^ l" "r = merkle_tree H l xs" by (simp_all add: swept_def)
    moreover have "merkle_tree H 31 xs = merkle_tree H l xs"
      using less.prems(1) calculation(1) by (intro merkle_tree_level) simp_all
    ultimately show ?thesis using True less.prems(1) by (subst sweep.simps) simp
  next
    case False
    from dvd less.prems(2) obtain j where j: "cnt = 2 ^ Suc l * j + 2 ^ l" by (rule dvd_bit_level)
    with False have j0: "0 < j" by (cases j) auto
    have lt: "2 ^ Suc l * j < length xs" using less.prems(3) j by (simp add: swept_def)
    let ?c = "cnt + 2 ^ l"
    have c: "?c = 2 ^ Suc l * Suc j" using j by simp
    have le: "?c \<le> 2 ^ 31" unfolding c by (rule next_multiple_le [OF _ j0]) (use lt n in linarith)
    have "swept H xs ?c (Suc l) r"
    proof -
      have "length xs \<le> 2 ^ Suc l * j + 2 ^ l" using less.prems(3) j by (simp add: swept_def)
      then have "length (drop (2 ^ Suc l * j) xs) \<le> 2 ^ l" unfolding length_drop by linarith
      then have "merkle_tree H (Suc l) (drop (2 ^ Suc l * j) xs) = merkle_tree H l (drop (2 ^ Suc l * j) xs)"
        by (rule merkle_tree_level) simp
      moreover have "?c - 2 ^ Suc l = 2 ^ Suc l * j" "cnt - 2 ^ l = 2 ^ Suc l * j" using c j by simp_all
      ultimately show ?thesis using less.prems(3) c lt by (simp add: swept_def)
    qed
    moreover have "length xs < ?c"
    proof -
      have "length xs \<le> cnt" using less.prems(3) by (simp add: swept_def)
      then show ?thesis by (simp add: le_imp_less_Suc trans_less_add1 le_less_trans [of _ cnt])
    qed
    ultimately obtain l' r' where a: "(absorb H inner ?c (Suc l) r :: 'e fault + _) = Inr (l', r')"
      and l': "l' < 32" "bit ?c l'" "swept H xs ?c l' r'"
      using absorb_swept [OF ok _ le, of "Suc l" r, where 'e = 'e] by auto
    have "(sweep H inner ?c l' r' :: 'e fault + _) = Inr (merkle_tree H 31 xs)"
      using absorb_level [OF a] less.prems(1) l' by (intro less.hyps) simp_all
    moreover have "\<not> 2 ^ 32 \<le> ?c" using le by simp
    ultimately show ?thesis using less.prems(1) False a by (subst sweep.simps) simp
  qed
qed

lemma levels_ok_init: "levels_ok H (replicate 32 z) []"
  by (simp add: levels_ok_def)

lemma fast_merkle_root_eq:
  assumes "0 < length xs" and "length xs \<le> 2 ^ 31"
  shows "fast_merkle_root H xs = Inr (merkle_tree H 31 xs)"
proof -
  obtain inner where a: "(absorb_leaves H xs (replicate 32 (replicate 32 0)) 0 :: 'a fault + _) =
      Inr (inner, length xs)" and ok: "levels_ok H inner xs"
    using absorb_leaves_ok [OF levels_ok_init, of xs H, where 'e = 'a] assms by auto
  obtain l where s: "(skip_levels (length xs) 0 :: 'a fault + _) = Inr l"
    and l: "l < 32" "bit (length xs) l" "2 ^ l dvd length xs"
    using skip_levels_ok [of 0 "length xs", where 'e = 'a] assms by auto
  from l(3,2) obtain j where j: "length xs = 2 ^ Suc l * j + 2 ^ l" by (rule dvd_bit_level)
  have "length xs div 2 ^ Suc l = j" unfolding j by (rule digit_of_range(2)) simp_all
  with ok l(1,2) j have "swept H xs (length xs) l (inner ! l)"
    by (simp add: swept_def levels_ok_def chunk_def mult.commute l(3) [unfolded j])
  then have "(sweep H inner (length xs) l (inner ! l) :: 'a fault + _) = Inr (merkle_tree H 31 xs)"
    by (rule sweep_ok [OF ok assms(2) l(1,2)])
  with a s assms show ?thesis by (simp add: fast_merkle_root_def)
qed

lemma fast_merkle_root_pair: "fast_merkle_root H [a, b] = Inr (H a b)"
  using merkle_tree_level [of "[a, b]" "Suc 0" 31 H] by (simp add: fast_merkle_root_eq)

lemma fast_merkle_root_triple: "fast_merkle_root H [a, b, c] = Inr (H (H a b) c)"
  using merkle_tree_level [of "[a, b, c]" "Suc (Suc 0)" 31 H] by (simp add: fast_merkle_root_eq)

section \<open>Properties\<close>

text \<open>C19. The level-by-level computation of the Merkle root returns, for every number of leaves up to
  \<open>2 ^ 31\<close>, the root of the recursive tree, without a counter overflow or a shift by 32; an odd node
  goes up unchanged (it is not combined with itself). An empty list of leaves gives the zero
  midstate.\<close>

theorem fast_merkle_root_correct:
  assumes "length xs \<le> 2 ^ 31"
  shows "fast_merkle_root H xs = Inr (if xs = [] then replicate 32 0 else merkle_tree H 31 xs)"
  using assms by (cases xs) (simp_all add: fast_merkle_root_eq, simp add: fast_merkle_root_def)

theorem fast_merkle_root_correct_witness:
  "(fast_merkle_root (@) [[1], [2], [3], [4], [5]] :: unit fault + node) = Inr [1, 2, 3, 4, 5]"
proof -
  have "merkle_tree (@) 31 [[1], [2], [3], [4], [5]] = [1, 2, 3, 4, 5::u8]"
    using merkle_tree_level [of "[[1], [2], [3], [4], [5]]" "Suc (Suc (Suc 0))" 31 "(@)"] by simp
  then show ?thesis using fast_merkle_root_correct [of "[[1], [2], [3], [4], [5]]" "(@)"] by simp
qed

end
