(* ===== verification/BlockHeader.thy ===== *)
theory BlockHeader
  imports TxSize Merkle
begin

text \<open>
  Dynamic federation parameters, block headers and blocks (\<^verbatim>\<open>rust-elements/src/dynafed.rs\<close>,
  \<^verbatim>\<open>block.rs\<close>) and the identifiers of issued assets (\<^verbatim>\<open>issuance.rs\<close>). A Sequentia header carries a
  Bitcoin anchor, which is optional in the data type and required on the wire: encoding or
  hashing a header without it panics, so the encoder is a partial one. The hash functions are
  parameters: \<open>sha256d\<close> on byte strings and the midstate compression \<open>H\<close> of two nodes.
\<close>

unbundle bit_operations_syntax

type_synonym BlockHash = bytes
type_synonym Midstate = bytes

section \<open>Dynamic federation parameters\<close>

record FullParams =
  fp_signblockscript :: Script
  fp_signblock_witness_limit :: u32
  fp_fedpeg_program :: bytes
  fp_fedpegscript :: bytes
  fp_extension_space :: "bytes list"

datatype Params = Null_params | Compact Script u32 Midstate | Full FullParams

definition FullParams_new :: "Script \<Rightarrow> u32 \<Rightarrow> bytes \<Rightarrow> bytes \<Rightarrow> bytes list \<Rightarrow> FullParams" where
  "FullParams_new sb limit prog script ext =
     \<lparr>fp_signblockscript = sb, fp_signblock_witness_limit = limit, fp_fedpeg_program = prog,
      fp_fedpegscript = script, fp_extension_space = ext\<rparr>"

definition FullParams_extra_root ::
    "(bytes \<Rightarrow> bytes) \<Rightarrow> compress \<Rightarrow> FullParams \<Rightarrow> encode_error fault + Midstate" where
  "FullParams_extra_root sha256d H f = fast_merkle_root H
     [sha256d (consensus_encode_with_size (fp_fedpeg_program f)),
      sha256d (consensus_encode_with_size (fp_fedpegscript f)),
      sha256d (encode_vec consensus_encode_with_size (fp_extension_space f))]"

definition FullParams_calculate_root ::
    "(bytes \<Rightarrow> bytes) \<Rightarrow> compress \<Rightarrow> FullParams \<Rightarrow> encode_error fault + Midstate" where
  "FullParams_calculate_root sha256d H f =
     rbind (fast_merkle_root H
       [sha256d (consensus_encode_with_size (fp_signblockscript f)),
        sha256d (emit_u32 (fp_signblock_witness_limit f))]) (\<lambda>compact_root.
     rbind (FullParams_extra_root sha256d H f) (\<lambda>extra.
     fast_merkle_root H [compact_root, extra]))"

definition FullParams_into_compact ::
    "(bytes \<Rightarrow> bytes) \<Rightarrow> compress \<Rightarrow> FullParams \<Rightarrow> encode_error fault + Params" where
  "FullParams_into_compact sha256d H f =
     rbind (FullParams_extra_root sha256d H f) (\<lambda>elided_root.
     Inr (Compact (fp_signblockscript f) (fp_signblock_witness_limit f) elided_root))"

definition encode_FullParams :: "FullParams \<Rightarrow> bytes" where
  "encode_FullParams f =
     consensus_encode_with_size (fp_signblockscript f) @ emit_u32 (fp_signblock_witness_limit f) @
     consensus_encode_with_size (fp_fedpeg_program f) @ consensus_encode_with_size (fp_fedpegscript f) @
     encode_vec consensus_encode_with_size (fp_extension_space f)"

definition decode_FullParams :: "env \<Rightarrow> FullParams decoder" where
  "decode_FullParams E =
     dbind (decode_byte_vec E) (\<lambda>sb. dbind read_u32 (\<lambda>limit. dbind (decode_byte_vec E) (\<lambda>prog.
     dbind (decode_byte_vec E) (\<lambda>script. dbind (decode_vec E ''Vec<u8>'' (decode_byte_vec E)) (\<lambda>ext.
     dret (FullParams_new sb limit prog script ext))))))"

fun Params_is_null :: "Params \<Rightarrow> bool" where
  "Params_is_null Null_params = True"
| "Params_is_null (Compact _ _ _) = False"
| "Params_is_null (Full _) = False"

fun Params_is_compact :: "Params \<Rightarrow> bool" where
  "Params_is_compact Null_params = False"
| "Params_is_compact (Compact _ _ _) = True"
| "Params_is_compact (Full _) = False"

fun Params_is_full :: "Params \<Rightarrow> bool" where
  "Params_is_full Null_params = False"
| "Params_is_full (Compact _ _ _) = False"
| "Params_is_full (Full _) = True"

fun Params_signblockscript :: "Params \<Rightarrow> Script option" where
  "Params_signblockscript Null_params = None"
| "Params_signblockscript (Compact sb _ _) = Some sb"
| "Params_signblockscript (Full f) = Some (fp_signblockscript f)"

fun Params_signblock_witness_limit :: "Params \<Rightarrow> u32 option" where
  "Params_signblock_witness_limit Null_params = None"
| "Params_signblock_witness_limit (Compact _ limit _) = Some limit"
| "Params_signblock_witness_limit (Full f) = Some (fp_signblock_witness_limit f)"

fun Params_fedpeg_program :: "Params \<Rightarrow> bytes option" where
  "Params_fedpeg_program (Full f) = Some (fp_fedpeg_program f)"
| "Params_fedpeg_program _ = None"

fun Params_fedpegscript :: "Params \<Rightarrow> bytes option" where
  "Params_fedpegscript (Full f) = Some (fp_fedpegscript f)"
| "Params_fedpegscript _ = None"

fun Params_extension_space :: "Params \<Rightarrow> bytes list option" where
  "Params_extension_space (Full f) = Some (fp_extension_space f)"
| "Params_extension_space _ = None"

fun Params_elided_root :: "Params \<Rightarrow> Midstate option" where
  "Params_elided_root (Compact _ _ root) = Some root"
| "Params_elided_root _ = None"

fun Params_extra_root ::
    "(bytes \<Rightarrow> bytes) \<Rightarrow> compress \<Rightarrow> Params \<Rightarrow> encode_error fault + Midstate" where
  "Params_extra_root sha256d H Null_params = Inr (replicate 32 0)"
| "Params_extra_root sha256d H (Compact _ _ elided_root) = Inr elided_root"
| "Params_extra_root sha256d H (Full f) = FullParams_extra_root sha256d H f"

definition Params_calculate_root ::
    "(bytes \<Rightarrow> bytes) \<Rightarrow> compress \<Rightarrow> Params \<Rightarrow> encode_error fault + Midstate" where
  "Params_calculate_root sha256d H p =
     (if Params_is_null p then Inr (replicate 32 0)
      else case (Params_signblockscript p, Params_signblock_witness_limit p) of
        (Some sb, Some limit) \<Rightarrow>
          rbind (fast_merkle_root H
            [sha256d (consensus_encode_with_size sb), sha256d (emit_u32 limit)]) (\<lambda>compact_root.
          rbind (Params_extra_root sha256d H p) (\<lambda>extra.
          fast_merkle_root H [compact_root, extra]))
      | _ \<Rightarrow> Inl (Panic ''called Option::unwrap() on a None value''))"

fun Params_full :: "Params \<Rightarrow> FullParams option" where
  "Params_full (Full f) = Some f"
| "Params_full _ = None"

fun Params_into_compact ::
    "(bytes \<Rightarrow> bytes) \<Rightarrow> compress \<Rightarrow> Params \<Rightarrow> encode_error fault + Params option" where
  "Params_into_compact sha256d H Null_params = Inr None"
| "Params_into_compact sha256d H (Compact sb limit root) = Inr (Some (Compact sb limit root))"
| "Params_into_compact sha256d H (Full f) =
     rbind (FullParams_into_compact sha256d H f) (\<lambda>p. Inr (Some p))"

fun encode_Params :: "Params \<Rightarrow> bytes" where
  "encode_Params Null_params = emit_u8 0"
| "encode_Params (Compact sb limit root) =
     emit_u8 1 @ consensus_encode_with_size sb @ emit_u32 limit @ root"
| "encode_Params (Full f) = emit_u8 2 @ encode_FullParams f"

definition decode_Params :: "env \<Rightarrow> Params decoder" where
  "decode_Params E = dbind read_u8 (\<lambda>ser_type.
     if ser_type = 0 then dret Null_params
     else if ser_type = 1 then
       dbind (decode_byte_vec E) (\<lambda>sb. dbind read_u32 (\<lambda>limit. dbind (read_slice 32) (\<lambda>root.
       dret (Compact sb limit root))))
     else if ser_type = 2 then dbind (decode_FullParams E) (\<lambda>f. dret (Full f))
     else dfail (Err (ParseFailed ''bad serialize type for dynafed parameters'')))"

text \<open>The field visitor of the serde deserializer: the entries of a map, in any order, unknown ones
  ignored and later ones overriding earlier ones; and the entries the serializer writes.\<close>

datatype params_entry =
    PE_unknown
  | PE_signblockscript Script
  | PE_signblock_witness_limit u32
  | PE_elided_root Midstate
  | PE_fedpeg_program bytes
  | PE_fedpegscript bytes
  | PE_extension_space "bytes list"

record params_fields =
  pf_signblockscript :: "Script option"
  pf_signblock_witness_limit :: "u32 option"
  pf_elided_root :: "Midstate option"
  pf_fedpeg_program :: "bytes option"
  pf_fedpegscript :: "bytes option"
  pf_extension_space :: "bytes list option"

fun params_visit_entry :: "params_entry \<Rightarrow> params_fields \<Rightarrow> params_fields" where
  "params_visit_entry PE_unknown s = s"
| "params_visit_entry (PE_signblockscript v) s = s\<lparr>pf_signblockscript := Some v\<rparr>"
| "params_visit_entry (PE_signblock_witness_limit v) s = s\<lparr>pf_signblock_witness_limit := Some v\<rparr>"
| "params_visit_entry (PE_elided_root v) s = s\<lparr>pf_elided_root := Some v\<rparr>"
| "params_visit_entry (PE_fedpeg_program v) s = s\<lparr>pf_fedpeg_program := Some v\<rparr>"
| "params_visit_entry (PE_fedpegscript v) s = s\<lparr>pf_fedpegscript := Some v\<rparr>"
| "params_visit_entry (PE_extension_space v) s = s\<lparr>pf_extension_space := Some v\<rparr>"

definition params_visit_map :: "params_entry list \<Rightarrow> Params" where
  "params_visit_map entries =
     (let s = fold params_visit_entry entries
        \<lparr>pf_signblockscript = None, pf_signblock_witness_limit = None, pf_elided_root = None,
         pf_fedpeg_program = None, pf_fedpegscript = None, pf_extension_space = None\<rparr>
      in case (pf_signblockscript s, pf_signblock_witness_limit s, pf_elided_root s,
               pf_fedpeg_program s, pf_fedpegscript s, pf_extension_space s) of
           (Some sb, Some limit, _, Some prog, Some script, Some ext) \<Rightarrow>
             Full (FullParams_new sb limit prog script ext)
         | (Some sb, Some limit, Some root, _, _, _) \<Rightarrow> Compact sb limit root
         | _ \<Rightarrow> Null_params)"

fun params_serialize :: "Params \<Rightarrow> params_entry list" where
  "params_serialize Null_params = []"
| "params_serialize (Compact sb limit root) =
     [PE_signblockscript sb, PE_signblock_witness_limit limit, PE_elided_root root]"
| "params_serialize (Full f) =
     [PE_signblockscript (fp_signblockscript f),
      PE_signblock_witness_limit (fp_signblock_witness_limit f),
      PE_fedpeg_program (fp_fedpeg_program f), PE_fedpegscript (fp_fedpegscript f),
      PE_extension_space (fp_extension_space f)]"

section \<open>Block headers\<close>

datatype ExtData =
    ExtProof Script Script
  | Dynafed Params Params "bytes list"

record BlockHeader =
  bh_version :: u32
  prev_blockhash :: BlockHash
  merkle_root :: bytes
  bh_time :: u32
  bh_height :: u32
  bh_ext :: ExtData
  bitcoin_anchor :: "(u32 \<times> BlockHash) option"

definition ExtData_default :: ExtData where
  "ExtData_default = Dynafed Null_params Null_params []"

fun encode_ExtData :: "ExtData \<Rightarrow> bytes" where
  "encode_ExtData (ExtProof challenge solution) =
     consensus_encode_with_size challenge @ consensus_encode_with_size solution"
| "encode_ExtData (Dynafed current proposed signblock_witness) =
     encode_Params current @ encode_Params proposed @
     encode_vec consensus_encode_with_size signblock_witness"

definition is_dynafed :: "BlockHeader \<Rightarrow> bool" where
  "is_dynafed b = (case bh_ext b of Dynafed _ _ _ \<Rightarrow> True | ExtProof _ _ \<Rightarrow> False)"

definition DYNAFED_FLAG :: u32 where "DYNAFED_FLAG = 0x80000000"

definition VERSION_MASK :: u32 where "VERSION_MASK = 0x7fffffff"

definition wire_version :: "BlockHeader \<Rightarrow> u32" where
  "wire_version b = (if is_dynafed b then bh_version b OR DYNAFED_FLAG else bh_version b)"

definition block_hash :: "(bytes \<Rightarrow> BlockHash) \<Rightarrow> BlockHeader \<Rightarrow> encode_error fault + BlockHash" where
  "block_hash sha256d b =
     (case bitcoin_anchor b of
        None \<Rightarrow> Inl (Panic ''sequentia BlockHeader without bitcoin_anchor'')
      | Some (anchor_height, anchor_hash) \<Rightarrow> Inr (sha256d (
          emit_u32 (wire_version b) @ prev_blockhash b @ merkle_root b @ emit_u32 (bh_time b) @
          emit_u32 (bh_height b) @ emit_u32 anchor_height @ anchor_hash @
          (case bh_ext b of
             ExtProof challenge _ \<Rightarrow> consensus_encode_with_size challenge
           | Dynafed current proposed _ \<Rightarrow> encode_Params current @ encode_Params proposed))))"

fun clear_ext :: "ExtData \<Rightarrow> ExtData" where
  "clear_ext (ExtProof challenge solution) = ExtProof challenge []"
| "clear_ext (Dynafed current proposed witness) = Dynafed current proposed []"

definition clear_witness :: "BlockHeader \<Rightarrow> BlockHeader" where
  "clear_witness b = b\<lparr>bh_ext := clear_ext (bh_ext b)\<rparr>"

definition calculate_dynafed_params_root ::
    "(bytes \<Rightarrow> bytes) \<Rightarrow> compress \<Rightarrow> BlockHeader \<Rightarrow> encode_error fault + Midstate option" where
  "calculate_dynafed_params_root sha256d H b =
     (case bh_ext b of
        ExtProof _ _ \<Rightarrow> Inr None
      | Dynafed current proposed _ \<Rightarrow>
          rbind (Params_calculate_root sha256d H current) (\<lambda>c.
          rbind (Params_calculate_root sha256d H proposed) (\<lambda>p.
          rbind (fast_merkle_root H [c, p]) (\<lambda>root. Inr (Some root)))))"

definition dynafed_current :: "BlockHeader \<Rightarrow> Params option" where
  "dynafed_current b =
     (case bh_ext b of Dynafed current _ _ \<Rightarrow> Some current | ExtProof _ _ \<Rightarrow> None)"

definition dynafed_proposed :: "BlockHeader \<Rightarrow> Params option" where
  "dynafed_proposed b =
     (case bh_ext b of Dynafed _ proposed _ \<Rightarrow> Some proposed | ExtProof _ _ \<Rightarrow> None)"

definition encode_BlockHeader :: "BlockHeader \<Rightarrow> encode_error fault + bytes" where
  "encode_BlockHeader b =
     (case bitcoin_anchor b of
        None \<Rightarrow> Inl (Panic ''sequentia BlockHeader without bitcoin_anchor'')
      | Some (anchor_height, anchor_hash) \<Rightarrow> Inr (
          emit_u32 (wire_version b) @ prev_blockhash b @ merkle_root b @ emit_u32 (bh_time b) @
          emit_u32 (bh_height b) @ emit_u32 anchor_height @ anchor_hash @ encode_ExtData (bh_ext b)))"

definition decode_BlockHeader :: "env \<Rightarrow> BlockHeader decoder" where
  "decode_BlockHeader E = dbind read_u32 (\<lambda>version.
     let is_dyna = (drop_bit 31 version = 1);
         version = (if is_dyna then version AND VERSION_MASK else version)
     in dbind (read_slice 32) (\<lambda>prev. dbind (read_slice 32) (\<lambda>root. dbind read_u32 (\<lambda>time.
        dbind read_u32 (\<lambda>height. dbind read_u32 (\<lambda>anchor_height. dbind (read_slice 32) (\<lambda>anchor_hash.
        dbind (if is_dyna
          then dbind (decode_Params E) (\<lambda>current. dbind (decode_Params E) (\<lambda>proposed.
               dbind (decode_vec E ''Vec<u8>'' (decode_byte_vec E)) (\<lambda>witness.
               dret (Dynafed current proposed witness))))
          else dbind (decode_byte_vec E) (\<lambda>challenge. dbind (decode_byte_vec E) (\<lambda>solution.
               dret (ExtProof challenge solution)))) (\<lambda>ext.
        dret \<lparr>bh_version = version, prev_blockhash = prev, merkle_root = root, bh_time = time,
              bh_height = height, bh_ext = ext, bitcoin_anchor = Some (anchor_height, anchor_hash)\<rparr>))))))))"

text \<open>The field visitor of the serde deserializer of \<open>ExtData\<close>; \<open>Inl f\<close> reports the missing field \<open>f\<close>.\<close>

datatype ext_entry =
    EE_unknown
  | EE_challenge Script
  | EE_solution Script
  | EE_current Params
  | EE_proposed Params
  | EE_witness "bytes list"

record ext_fields =
  ef_challenge :: "Script option"
  ef_solution :: "Script option"
  ef_current :: "Params option"
  ef_proposed :: "Params option"
  ef_witness :: "bytes list option"

fun ext_visit_entry :: "ext_entry \<Rightarrow> ext_fields \<Rightarrow> ext_fields" where
  "ext_visit_entry EE_unknown s = s"
| "ext_visit_entry (EE_challenge v) s = s\<lparr>ef_challenge := Some v\<rparr>"
| "ext_visit_entry (EE_solution v) s = s\<lparr>ef_solution := Some v\<rparr>"
| "ext_visit_entry (EE_current v) s = s\<lparr>ef_current := Some v\<rparr>"
| "ext_visit_entry (EE_proposed v) s = s\<lparr>ef_proposed := Some v\<rparr>"
| "ext_visit_entry (EE_witness v) s = s\<lparr>ef_witness := Some v\<rparr>"

definition ext_visit_map :: "ext_entry list \<Rightarrow> string + ExtData" where
  "ext_visit_map entries =
     (let s = fold ext_visit_entry entries
        \<lparr>ef_challenge = None, ef_solution = None, ef_current = None, ef_proposed = None,
         ef_witness = None\<rparr>;
        challenge_missing = (ef_challenge s \<noteq> None)
      in case (ef_challenge s, ef_solution s) of
           (Some chal, Some soln) \<Rightarrow> Inr (ExtProof chal soln)
         | _ \<Rightarrow> (case (ef_current s, ef_proposed s, ef_witness s) of
             (Some cur, Some prop, Some wit) \<Rightarrow> Inr (Dynafed cur prop wit)
           | _ \<Rightarrow> if challenge_missing then Inl ''challenge'' else Inl ''solution''))"

fun ext_serialize :: "ExtData \<Rightarrow> ext_entry list" where
  "ext_serialize (ExtProof challenge solution) = [EE_challenge challenge, EE_solution solution]"
| "ext_serialize (Dynafed current proposed witness) =
     [EE_current current, EE_proposed proposed, EE_witness witness]"

section \<open>Blocks\<close>

record Block =
  blk_header :: BlockHeader
  txdata :: "Transaction list"

definition encode_Block :: "Block \<Rightarrow> encode_error fault + bytes" where
  "encode_Block b = rbind (encode_BlockHeader (blk_header b)) (\<lambda>h.
     Inr (h @ encode_vec encode_Transaction (txdata b)))"

definition decode_Block :: "env \<Rightarrow> Block decoder" where
  "decode_Block E = dbind (decode_BlockHeader E) (\<lambda>h.
     dbind (decode_vec E ''Transaction'' (decode_Transaction E)) (\<lambda>txs.
     dret \<lparr>blk_header = h, txdata = txs\<rparr>))"

definition Block_block_hash :: "(bytes \<Rightarrow> BlockHash) \<Rightarrow> Block \<Rightarrow> encode_error fault + BlockHash" where
  "Block_block_hash sha256d b = block_hash sha256d (blk_header b)"

definition Block_size :: "Block \<Rightarrow> encode_error fault + nat" where
  "Block_size b = rbind (encode_BlockHeader (blk_header b)) (\<lambda>h.
     let base_size = length h + VarInt_size (of_nat (length (txdata b)));
         txs_size = (\<Sum>tx \<leftarrow> txdata b. tx_size tx)
     in Inr (base_size + txs_size))"

definition Block_weight :: "Block \<Rightarrow> encode_error fault + nat" where
  "Block_weight b = rbind (encode_BlockHeader (blk_header b)) (\<lambda>h.
     let base_weight = 4 * (length h + VarInt_size (of_nat (length (txdata b))));
         txs_weight = (\<Sum>tx \<leftarrow> txdata b. tx_weight tx)
     in Inr (base_weight + txs_weight))"

section \<open>Identifiers of issued assets\<close>

definition ZERO32 :: bytes where "ZERO32 = replicate 32 0"

definition ONE32 :: bytes where "ONE32 = 1 # replicate 31 0"

definition TWO32 :: bytes where "TWO32 = 2 # replicate 31 0"

definition generate_asset_entropy ::
    "(bytes \<Rightarrow> bytes) \<Rightarrow> compress \<Rightarrow> OutPoint \<Rightarrow> bytes \<Rightarrow> encode_error fault + Midstate" where
  "generate_asset_entropy sha256d H prevout contract_hash =
     fast_merkle_root H [sha256d (encode_OutPoint prevout), contract_hash]"

definition from_entropy :: "compress \<Rightarrow> Midstate \<Rightarrow> encode_error fault + AssetId" where
  "from_entropy H entropy = fast_merkle_root H [entropy, ZERO32]"

definition reissuance_token_from_entropy ::
    "compress \<Rightarrow> Midstate \<Rightarrow> bool \<Rightarrow> encode_error fault + AssetId" where
  "reissuance_token_from_entropy H entropy confidential =
     (let second = (if confidential then TWO32 else ONE32) in fast_merkle_root H [entropy, second])"

definition new_issuance ::
    "(bytes \<Rightarrow> bytes) \<Rightarrow> compress \<Rightarrow> OutPoint \<Rightarrow> bytes \<Rightarrow> encode_error fault + AssetId" where
  "new_issuance sha256d H prevout contract_hash =
     rbind (generate_asset_entropy sha256d H prevout contract_hash) (from_entropy H)"

definition new_reissuance_token ::
    "(bytes \<Rightarrow> bytes) \<Rightarrow> compress \<Rightarrow> OutPoint \<Rightarrow> bytes \<Rightarrow> bool \<Rightarrow> encode_error fault + AssetId" where
  "new_reissuance_token sha256d H prevout contract_hash confidential =
     rbind (generate_asset_entropy sha256d H prevout contract_hash) (\<lambda>entropy.
     reissuance_token_from_entropy H entropy confidential)"

definition issuance_ids ::
    "(bytes \<Rightarrow> bytes) \<Rightarrow> compress \<Rightarrow> TxIn \<Rightarrow> encode_error fault + (AssetId \<times> AssetId)" where
  "issuance_ids sha256d H i =
     rbind (if asset_blinding_nonce (asset_issuance i) = replicate 32 0
            then generate_asset_entropy sha256d H (previous_output i) (asset_entropy (asset_issuance i))
            else Inr (asset_entropy (asset_issuance i))) (\<lambda>entropy.
     rbind (from_entropy H entropy) (\<lambda>asset_id.
     rbind (reissuance_token_from_entropy H entropy
        (Value_is_confidential (issuance_amount (asset_issuance i)))) (\<lambda>token_id.
     Inr (asset_id, token_id))))"

section \<open>Codecs\<close>

definition wf_FullParams :: "env \<Rightarrow> FullParams \<Rightarrow> bool" where
  "wf_FullParams E f \<longleftrightarrow>
     wf_byte_vec E (fp_signblockscript f) \<and> wf_byte_vec E (fp_fedpeg_program f) \<and>
     wf_byte_vec E (fp_fedpegscript f) \<and> wf_vec E ''Vec<u8>'' (wf_byte_vec E) (fp_extension_space f)"

fun wf_Params :: "env \<Rightarrow> Params \<Rightarrow> bool" where
  "wf_Params E Null_params = True"
| "wf_Params E (Compact sb limit root) = (wf_byte_vec E sb \<and> length root = 32)"
| "wf_Params E (Full f) = wf_FullParams E f"

fun wf_ExtData :: "env \<Rightarrow> ExtData \<Rightarrow> bool" where
  "wf_ExtData E (ExtProof challenge solution) = (wf_byte_vec E challenge \<and> wf_byte_vec E solution)"
| "wf_ExtData E (Dynafed current proposed witness) =
     (wf_Params E current \<and> wf_Params E proposed \<and> wf_vec E ''Vec<u8>'' (wf_byte_vec E) witness)"

definition wf_BlockHeader :: "env \<Rightarrow> BlockHeader \<Rightarrow> bool" where
  "wf_BlockHeader E b \<longleftrightarrow>
     \<not> bit (bh_version b) 31 \<and> length (prev_blockhash b) = 32 \<and> length (merkle_root b) = 32 \<and>
     (case bitcoin_anchor b of None \<Rightarrow> False | Some (_, h) \<Rightarrow> length h = 32) \<and>
     wf_ExtData E (bh_ext b)"

definition wf_Block :: "env \<Rightarrow> Block \<Rightarrow> bool" where
  "wf_Block E b \<longleftrightarrow> wf_BlockHeader E (blk_header b) \<and>
     wf_vec E ''Transaction'' (wf_Transaction E) (txdata b)"

interpretation fullparamsc: total_codec encode_FullParams "decode_FullParams E" "wf_FullParams E" for E
  by (unfold_locales,
      simp add: decode_FullParams_def encode_FullParams_def wf_FullParams_def FullParams_new_def
        codec_enc,
      auto simp: decode_FullParams_def encode_FullParams_def wf_FullParams_def FullParams_new_def
        codec_dec)

declare fullparamsc.total_decode_encode [codec_enc] fullparamsc.decode_iff [codec_dec]

interpretation paramsc: total_codec encode_Params "decode_Params E" "wf_Params E" for E
proof
  fix p r
  assume "wf_Params E p"
  then show "decode_Params E (encode_Params p @ r) = Inr (p, r)"
    by (cases p) (simp_all add: decode_Params_def codec_enc)
next
  fix bs p r
  assume "decode_Params E bs = Inr (p, r)"
  then show "wf_Params E p \<and> bs = encode_Params p @ r"
    by (auto simp: decode_Params_def codec_dec split: if_splits)
qed

declare paramsc.total_decode_encode [codec_enc] paramsc.decode_iff [codec_dec]

lemma bit_version_masks:
  "bit DYNAFED_FLAG n \<longleftrightarrow> n = 31" "bit VERSION_MASK n \<longleftrightarrow> n < 31"
proof -
  have "DYNAFED_FLAG = ISSUANCE_FLAG" by (simp add: ISSUANCE_FLAG_def DYNAFED_FLAG_def)
  then show "bit DYNAFED_FLAG n \<longleftrightarrow> n = 31" by (simp add: bit_flags)
  have m: "VERSION_MASK = mask 31" by (simp add: VERSION_MASK_def mask_eq_exp_minus_1)
  show "bit VERSION_MASK n \<longleftrightarrow> n < 31" unfolding m bit_mask_iff by auto
qed

lemma drop_bit_31: "drop_bit 31 v = 1 \<longleftrightarrow> bit v 31" for v :: u32
proof -
  have "bit (drop_bit 31 v) n \<longleftrightarrow> bit (of_bool (bit v 31) :: u32) n" for n
  proof (cases "n = 0")
    case False
    then have "\<not> bit v (31 + n)" using bit_imp_le_length [of v "31 + n"] by auto
    with False show ?thesis by (simp add: bit_drop_bit_eq bit_of_bool_iff)
  qed (simp add: bit_drop_bit_eq bit_of_bool_iff)
  then have "drop_bit 31 v = of_bool (bit v 31)" by (simp add: bit_eq_iff)
  then show ?thesis by simp
qed

lemma version_masks:
  "\<not> bit v 31 \<Longrightarrow> (v OR DYNAFED_FLAG) AND VERSION_MASK = v"
  "bit v 31 \<Longrightarrow> (v AND VERSION_MASK) OR DYNAFED_FLAG = v"
  "bit (v OR DYNAFED_FLAG) 31" "\<not> bit (v AND VERSION_MASK) 31"
proof -
  have lt: "n < 31 \<or> n = 31" if "n < 32" for n :: nat using that by linarith
  show "\<not> bit v 31 \<Longrightarrow> (v OR DYNAFED_FLAG) AND VERSION_MASK = v"
    by (intro bit_word_eqI) (use lt in \<open>auto simp: bit_or_iff bit_and_iff bit_version_masks\<close>)
  show "bit v 31 \<Longrightarrow> (v AND VERSION_MASK) OR DYNAFED_FLAG = v"
    by (intro bit_word_eqI) (use lt in \<open>auto simp: bit_or_iff bit_and_iff bit_version_masks\<close>)
qed (simp_all add: bit_or_iff bit_and_iff bit_version_masks)

interpretation headerc: codec encode_BlockHeader "decode_BlockHeader E" "wf_BlockHeader E" for E
proof
  fix b
  assume "wf_BlockHeader E b"
  then show "\<exists>bs. encode_BlockHeader b = Inr bs"
    by (auto simp: wf_BlockHeader_def encode_BlockHeader_def split: option.splits)
next
  fix b bs r
  assume wf: "wf_BlockHeader E b" and enc: "encode_BlockHeader b = Inr bs"
  then obtain h hash where a: "bitcoin_anchor b = Some (h, hash)"
    by (auto simp: encode_BlockHeader_def split: option.splits)
  show "decode_BlockHeader E (bs @ r) = Inr (b, r)"
  proof (cases "bh_ext b")
    case (ExtProof c s)
    with wf enc a show ?thesis
      by (auto simp: encode_BlockHeader_def decode_BlockHeader_def wf_BlockHeader_def codec_enc
          drop_bit_31 wire_version_def is_dynafed_def)
  next
    case (Dynafed c p w)
    with wf enc a show ?thesis
      by (auto simp: encode_BlockHeader_def decode_BlockHeader_def wf_BlockHeader_def codec_enc
          drop_bit_31 wire_version_def is_dynafed_def version_masks)
  qed
next
  fix bs b r
  assume "decode_BlockHeader E bs = Inr (b, r)"
  then show "wf_BlockHeader E b \<and> (\<exists>c. encode_BlockHeader b = Inr c \<and> bs = c @ r)"
    by (auto simp: encode_BlockHeader_def decode_BlockHeader_def wf_BlockHeader_def codec_dec Let_def
        drop_bit_31 wire_version_def is_dynafed_def version_masks split: if_splits)
qed

interpretation txsc: total_codec "encode_vec encode_Transaction"
  "decode_vec E ''Transaction'' (decode_Transaction E)"
  "wf_vec E ''Transaction'' (wf_Transaction E)" for E
  unfolding wf_vec_def by (rule txc.vec_total_codec)

interpretation blockc: codec encode_Block "decode_Block E" "wf_Block E" for E
proof
  fix b
  assume "wf_Block E b"
  then show "\<exists>bs. encode_Block b = Inr bs"
    using headerc.encodes [of E "blk_header b"] by (auto simp: wf_Block_def encode_Block_def)
next
  fix b bs r
  assume "wf_Block E b" and "encode_Block b = Inr bs"
  then show "decode_Block E (bs @ r) = Inr (b, r)"
    using headerc.decode_encode [of E "blk_header b"]
    by (auto simp: wf_Block_def encode_Block_def decode_Block_def codec_enc rbind_eq_Inr
        txsc.total_decode_encode)
next
  fix bs b r
  assume "decode_Block E bs = Inr (b, r)"
  then show "wf_Block E b \<and> (\<exists>c. encode_Block b = Inr c \<and> bs = c @ r)"
    by (auto simp: wf_Block_def encode_Block_def decode_Block_def codec_dec txsc.decode_iff
        dest!: headerc.encode_decode)
qed

section \<open>The hash of a header and its witness\<close>

text \<open>The bytes that are hashed, followed by an empty witness, are the encoding of the header with its
  witness cleared.\<close>

lemma block_hash_preimage:
  assumes "bitcoin_anchor b = Some a"
  obtains pre where "block_hash h b = Inr (h pre)"
    and "encode_BlockHeader (clear_witness b) = Inr (pre @ consensus_encode_with_size [])"
proof (cases "bh_ext b"; cases a)
  fix c s ah hash
  assume "bh_ext b = ExtProof c s" "a = (ah, hash)"
  with assms that show thesis
    by (simp add: block_hash_def encode_BlockHeader_def clear_witness_def wire_version_def is_dynafed_def)
next
  fix c p w ah hash
  assume "bh_ext b = Dynafed c p w" "a = (ah, hash)"
  with assms that show thesis
    by (simp add: block_hash_def encode_BlockHeader_def clear_witness_def wire_version_def
        is_dynafed_def encode_vec_def consensus_encode_with_size_def)
qed

lemma wf_clear_witness: "wf_BlockHeader E b \<Longrightarrow> wf_BlockHeader E (clear_witness b)"
  by (cases "bh_ext b") (auto simp: wf_BlockHeader_def clear_witness_def wf_vec_def)

lemma wf_BlockHeader_anchor: "wf_BlockHeader E b \<Longrightarrow> \<exists>a. bitcoin_anchor b = Some a"
  by (auto simp: wf_BlockHeader_def split: option.splits)

section \<open>Roots of the parameters\<close>

lemma FullParams_extra_root_eq:
  "FullParams_extra_root sha256d H f = Inr (H (H (sha256d (consensus_encode_with_size (fp_fedpeg_program f)))
     (sha256d (consensus_encode_with_size (fp_fedpegscript f))))
     (sha256d (encode_vec consensus_encode_with_size (fp_extension_space f))))"
  by (simp add: FullParams_extra_root_def fast_merkle_root_triple)

lemmas root_simps = Params_calculate_root_def FullParams_calculate_root_def FullParams_into_compact_def
  FullParams_extra_root_eq fast_merkle_root_pair

section \<open>Maps of fields in any order\<close>

lemma fold_entries_perm:
  assumes "\<And>s. f u s = s"
    and "\<And>x y. x \<in> set ys \<Longrightarrow> y \<in> set ys \<Longrightarrow> f x \<circ> f y = f y \<circ> f x"
    and "mset (filter (\<lambda>x. x \<noteq> u) xs) = mset ys"
  shows "fold f xs = fold f ys"
proof -
  have "fold f xs = fold f (filter (\<lambda>x. x \<noteq> u) xs)"
    by (induction xs) (auto simp: assms(1) fun_eq_iff)
  also have "\<dots> = fold f ys"
    by (rule fold_multiset_equiv [OF _ assms(3)])
      (use assms(2) in \<open>simp only: mset_eq_setD [OF assms(3)]\<close>)
  finally show ?thesis .
qed

lemma ext_visit_serialize: "ext_visit_map (ext_serialize e) = Inr e"
  by (cases e) (simp_all add: ext_visit_map_def)

lemma params_visit_serialize: "params_visit_map (params_serialize p) = p"
  by (cases p) (simp_all add: params_visit_map_def FullParams_new_def)

lemma ext_entries_commute:
  "x \<in> set (ext_serialize e) \<Longrightarrow> y \<in> set (ext_serialize e) \<Longrightarrow>
     ext_visit_entry x \<circ> ext_visit_entry y = ext_visit_entry y \<circ> ext_visit_entry x"
  by (cases e) (auto simp: fun_eq_iff)

lemma params_entries_commute:
  "x \<in> set (params_serialize p) \<Longrightarrow> y \<in> set (params_serialize p) \<Longrightarrow>
     params_visit_entry x \<circ> params_visit_entry y = params_visit_entry y \<circ> params_visit_entry x"
  by (cases p) (auto simp: fun_eq_iff)

text \<open>The report of a missing field names the one that is there: \<open>challenge\<close> is reported missing when
  a challenge was given.\<close>

lemma ext_missing_field_swapped:
  "ext_visit_map [EE_challenge c] = Inl ''challenge'' \<and> ext_visit_map [EE_solution c] = Inl ''solution''"
  by (simp add: ext_visit_map_def)

section \<open>Properties\<close>

text \<open>C20. The header codec is exact: a buffer deserializes to a header exactly when the header is well
  formed (31-bit version, Bitcoin anchor present) and the buffer is its serialization; and the
  serialization panics exactly on a header without an anchor.\<close>

theorem BlockHeader_deserialize_iff:
  "(deserialize (decode_BlockHeader E) bs = Inr b \<longleftrightarrow>
      wf_BlockHeader E b \<and> encode_BlockHeader b = Inr bs) \<and>
   (encode_BlockHeader b = Inl (Panic ''sequentia BlockHeader without bitcoin_anchor'') \<longleftrightarrow>
      bitcoin_anchor b = None)"
  by (auto simp: headerc.deserialize_iff encode_BlockHeader_def split: option.splits)

text \<open>C21. The witness is exactly what can be removed without changing the block hash: with a
  collision-free hash, two well-formed headers have the same hash if and only if they agree once
  their witnesses are cleared, and the hash is always defined.\<close>

theorem block_hash_clear_witness:
  assumes "wf_BlockHeader E b" and "wf_BlockHeader E b'" and "inj h"
  shows "(block_hash h b = block_hash h b' \<longleftrightarrow> clear_witness b = clear_witness b') \<and>
    (\<exists>v. block_hash h b = Inr v \<and> block_hash h (clear_witness b) = Inr v)"
proof -
  obtain a a' where a: "bitcoin_anchor b = Some a" "bitcoin_anchor b' = Some a'"
    using assms(1,2) wf_BlockHeader_anchor by blast
  obtain p where p: "block_hash h b = Inr (h p)"
    "encode_BlockHeader (clear_witness b) = Inr (p @ consensus_encode_with_size [])"
    using block_hash_preimage [OF a(1), of h] by metis
  obtain p' where p': "block_hash h b' = Inr (h p')"
    "encode_BlockHeader (clear_witness b') = Inr (p' @ consensus_encode_with_size [])"
    using block_hash_preimage [OF a(2), of h] by metis
  have "p = p' \<longleftrightarrow> clear_witness b = clear_witness b'"
    using headerc.serialize_inj [OF wf_clear_witness wf_clear_witness, OF assms(1,2)] p(2) p'(2) by auto
  moreover have "block_hash h (clear_witness b) = block_hash h b"
    using a(1) by (cases "bh_ext b"; cases a)
      (simp_all add: block_hash_def clear_witness_def wire_version_def is_dynafed_def)
  ultimately show ?thesis using p(1) p'(1) assms(3) by (simp add: inj_eq)
qed

definition sample_header :: BlockHeader where
  "sample_header = \<lparr>bh_version = 0x20000000, prev_blockhash = replicate 32 1,
     merkle_root = replicate 32 2, bh_time = 1700000000, bh_height = 12,
     bh_ext = Dynafed (Compact [0x51] 100 (replicate 32 3)) Null_params [[1, 2, 3]],
     bitcoin_anchor = Some (800000, replicate 32 4)\<rparr>"

lemma wf_sample_header: "wf_BlockHeader sample_env sample_header"
proof -
  have "\<not> bit (0x20000000 :: u32) 31" by (simp add: bit_iff_odd)
  then show ?thesis
    by (simp add: sample_header_def wf_BlockHeader_def sample_env_def wf_byte_vec_def wf_vec_def)
qed

theorem block_hash_clear_witness_witness:
  "\<exists>v. block_hash id sample_header = Inr v \<and> block_hash id (clear_witness sample_header) = Inr v"
  using block_hash_clear_witness [OF wf_sample_header wf_sample_header inj_on_id] by blast

text \<open>C22. Replacing full parameters by their compact form never changes the root that blocks commit
  to; null parameters have no compact form; and no computation of a root panics.\<close>

theorem into_compact_root:
  "\<exists>r q. Params_calculate_root sha256d H p = Inr r \<and> Params_into_compact sha256d H p = Inr q \<and>
     (case q of None \<Rightarrow> Params_is_null p
      | Some c \<Rightarrow> Params_is_compact c \<and> Params_calculate_root sha256d H c = Inr r)"
  by (cases p) (simp_all add: root_simps)

text \<open>C23. The map visitors read back what the serializers write, with the fields in any order and
  unknown fields in between.\<close>

theorem visit_map_serialize:
  assumes "mset (filter (\<lambda>x. x \<noteq> PE_unknown) ps) = mset (params_serialize p)"
    and "mset (filter (\<lambda>x. x \<noteq> EE_unknown) es) = mset (ext_serialize e)"
  shows "params_visit_map ps = p \<and> ext_visit_map es = Inr e"
proof
  have "fold params_visit_entry ps = fold params_visit_entry (params_serialize p)"
    by (rule fold_entries_perm [OF _ params_entries_commute assms(1)]) simp_all
  then show "params_visit_map ps = p"
    using params_visit_serialize [of p] by (simp add: params_visit_map_def)
  have "fold ext_visit_entry es = fold ext_visit_entry (ext_serialize e)"
    by (rule fold_entries_perm [OF _ ext_entries_commute assms(2)]) simp_all
  then show "ext_visit_map es = Inr e"
    using ext_visit_serialize [of e] by (simp add: ext_visit_map_def)
qed

theorem visit_map_serialize_witness:
  "params_visit_map [PE_elided_root [3], PE_unknown, PE_signblock_witness_limit 7,
     PE_signblockscript [1]] = Compact [1] 7 [3] \<and>
   ext_visit_map [EE_solution [2], EE_unknown, EE_challenge [1]] = Inr (ExtProof [1] [2])"
  by (rule visit_map_serialize) simp_all

text \<open>C24. The size of a block falls short of its serialized length by one byte for each issuance in
  it, as for its transactions; the weight counts the header fully.\<close>

theorem Block_size_of_encoding:
  assumes "wf_Block E b" and "encode_Block b = Inr bs"
  shows "\<exists>s w. Block_size b = Inr s \<and> Block_weight b = Inr w \<and>
    s + (\<Sum>tx \<leftarrow> txdata b. issuances tx) = length bs \<and>
    w + 4 * (\<Sum>tx \<leftarrow> txdata b. issuances tx) + 3 * (\<Sum>tx \<leftarrow> txdata b. witness_len tx) = 4 * length bs"
proof -
  from assms(2) obtain h where h: "encode_BlockHeader (blk_header b) = Inr h"
    and bs: "bs = h @ encode_vec encode_Transaction (txdata b)"
    by (auto simp: encode_Block_def rbind_eq_Inr)
  have each: "scaled_size k tx + k * issuances tx = k * length (encode_base tx) + witness_len tx"
    if "tx \<in> set (txdata b)" for k tx
    using assms(1) that by (intro scaled_size_eq [of E]) (simp add: wf_Block_def wf_vec_def list_all_iff)
  have sz: "(\<Sum>tx \<leftarrow> txdata b. tx_size tx) + (\<Sum>tx \<leftarrow> txdata b. issuances tx) =
      (\<Sum>tx \<leftarrow> txdata b. length (encode_Transaction tx))"
    unfolding sum_list_addf [symmetric]
    by (intro arg_cong [where f = sum_list] map_cong refl)
      (use each [of _ 1] in \<open>simp add: tx_size_def length_encode_Transaction\<close>)
  have wt: "(\<Sum>tx \<leftarrow> txdata b. tx_weight tx) + (\<Sum>tx \<leftarrow> txdata b. 4 * issuances tx) +
      (\<Sum>tx \<leftarrow> txdata b. 3 * witness_len tx) = (\<Sum>tx \<leftarrow> txdata b. 4 * length (encode_Transaction tx))"
    unfolding sum_list_addf [symmetric]
    by (intro arg_cong [where f = sum_list] map_cong refl)
      (use each [of _ 4] in \<open>simp add: tx_weight_def length_encode_Transaction\<close>)
  show ?thesis using h bs sz wt
    by (simp add: Block_size_def Block_weight_def length_encode_vec sum_list_const_mult)
qed

definition sample_block :: Block where
  "sample_block = \<lparr>blk_header = sample_header, txdata = [sample_tx]\<rparr>"

theorem Block_size_of_encoding_witness:
  "\<exists>bs s. encode_Block sample_block = Inr bs \<and> Block_size sample_block = Inr s \<and> s + 1 = length bs"
proof -
  have wf: "wf_Block sample_env sample_block"
    using wf_sample_header wf_sample_tx
    by (simp add: wf_Block_def sample_block_def wf_vec_def sample_env_def)
  then obtain bs where "encode_Block sample_block = Inr bs" using blockc.encodes by blast
  moreover have "issuances sample_tx = 1"
    by (simp add: issuances_def sample_defs has_issuance_def AssetIssuance_is_null_def)
  ultimately show ?thesis
    using Block_size_of_encoding [OF wf] by (auto simp: sample_block_def)
qed

lemma tags_distinct: "ZERO32 \<noteq> ONE32" "ZERO32 \<noteq> TWO32" "ONE32 \<noteq> TWO32"
proof -
  have "hd ZERO32 = 0" "hd ONE32 = 1" "hd TWO32 = 2" by (simp_all add: ZERO32_def ONE32_def TWO32_def)
  then show "ZERO32 \<noteq> ONE32" "ZERO32 \<noteq> TWO32" "ONE32 \<noteq> TWO32" by auto
qed

text \<open>C25. With collision-free hashes the identifiers of an issuance are independent: an asset, its
  explicit reissuance token and its confidential one are three different identifiers, and two new
  issuances give the same asset exactly when they spend the same output under the same contract.\<close>

theorem issuance_identifiers:
  assumes H: "\<forall>a b c d. H a b = H c d \<longrightarrow> a = c \<and> b = d" and "inj sha256d"
    and "length (op_txid p) = 32" and "length (op_txid q) = 32"
  shows "(new_issuance sha256d H p c = new_issuance sha256d H q d \<longleftrightarrow> p = q \<and> c = d) \<and>
    new_reissuance_token sha256d H p c False \<noteq> new_reissuance_token sha256d H q d True \<and>
    new_issuance sha256d H p c \<noteq> new_reissuance_token sha256d H q d k \<and>
    (\<exists>a t. issuance_ids sha256d H i = Inr (a, t) \<and> a \<noteq> t)"
proof -
  have inj: "H a b = H c d \<longleftrightarrow> a = c \<and> b = d" for a b c d using H by blast
  have op: "encode_OutPoint p = encode_OutPoint q \<longleftrightarrow> p = q"
    using outpointc.serialize_inj [of p q] assms(3,4) by (auto simp: wf_OutPoint_def)
  note eqs = generate_asset_entropy_def from_entropy_def reissuance_token_from_entropy_def
    fast_merkle_root_pair inj
  have "new_issuance sha256d H p c = new_issuance sha256d H q d \<longleftrightarrow> p = q \<and> c = d"
    by (simp add: new_issuance_def eqs inj_eq [OF assms(2)] op)
  moreover have "new_reissuance_token sha256d H p c False \<noteq> new_reissuance_token sha256d H q d True"
    using tags_distinct by (simp add: new_reissuance_token_def eqs)
  moreover have "new_issuance sha256d H p c \<noteq> new_reissuance_token sha256d H q d k"
    using tags_distinct by (simp add: new_issuance_def new_reissuance_token_def eqs)
  moreover have "\<exists>a t. issuance_ids sha256d H i = Inr (a, t) \<and> a \<noteq> t"
    using tags_distinct by (simp add: issuance_ids_def eqs)
  ultimately show ?thesis by blast
qed

text \<open>An injective compression, for the witness.\<close>

definition pair_code :: compress where
  "pair_code a b = concat (map (\<lambda>x. [1, x]) a) @ 0 # b"

lemma pair_code_inj: "pair_code a b = pair_code c d \<Longrightarrow> a = c \<and> b = d"
proof (induction a arbitrary: c)
  case Nil
  then show ?case by (cases c) (auto simp: pair_code_def)
next
  case (Cons x a)
  then show ?case by (cases c) (auto simp: pair_code_def)
qed

theorem issuance_identifiers_witness:
  "\<exists>a t. issuance_ids id pair_code sample_in = Inr (a, t) \<and> a \<noteq> t"
proof -
  have inj: "\<forall>a b c d. pair_code a b = pair_code c d \<longrightarrow> a = c \<and> b = d" using pair_code_inj by blast
  have "length (op_txid (OutPoint_new (replicate 32 7) 5)) = 32" by (simp add: OutPoint_new_def)
  from issuance_identifiers [OF inj inj_on_id this this] show ?thesis by blast
qed

end
