(* ===== verification/UpdateCodec.thy ===== *)
theory UpdateCodec
  imports BlockHeader
begin

text \<open>
  Wallet updates and their persistent encoding (\<^verbatim>\<open>lwk_wollet/src/update.rs\<close>), versions 0 to 4.
  Transaction ids are not written: the decoder recomputes them with the hash, a parameter. A
  derivation child number is its 32-bit consensus value, hardened when the top bit is set.
  Blinding factors are 32-byte scalars; a scalar that is out of range makes the decoder panic.
  A list whose announced length exceeds the address space makes \<open>Vec::with_capacity\<close> panic.
\<close>

unbundle bit_operations_syntax

type_synonym Height = u32
type_synonym Timestamp = u32
type_synonym ChildNumber = u32
type_synonym BlindingPublicKey = bytes

datatype Chain = External | Internal

section \<open>Data\<close>

record TxOutSecrets =
  sec_asset :: AssetId
  asset_bf :: bytes
  sec_value :: u64
  value_bf :: bytes

record DownloadTxResult =
  dl_txs :: "(Txid \<times> Transaction) list"
  dl_unblinds :: "(OutPoint \<times> TxOutSecrets) list"

record LastUnused =
  lu_internal :: u32
  lu_external :: u32

type_synonym script_entry = "Chain \<times> ChildNumber \<times> Script \<times> BlindingPublicKey option"

record Update =
  upd_version :: u8
  wollet_status :: u64
  new_txs :: DownloadTxResult
  txid_height_new :: "(Txid \<times> Height option) list"
  txid_height_delete :: "Txid list"
  upd_timestamps :: "(Height \<times> Timestamp) list"
  scripts_with_blinding_pubkey :: "script_entry list"
  upd_tip :: BlockHeader
  upd_unspent :: "OutPoint list"
  upd_last_unused :: LastUnused

definition LastUnused_default :: LastUnused where
  "LastUnused_default = \<lparr>lu_internal = 0, lu_external = 0\<rparr>"

definition DownloadTxResult_is_empty :: "DownloadTxResult \<Rightarrow> bool" where
  "DownloadTxResult_is_empty d \<longleftrightarrow> dl_txs d = [] \<and> dl_unblinds d = []"

definition only_tip :: "Update \<Rightarrow> bool" where
  "only_tip u \<longleftrightarrow> DownloadTxResult_is_empty (new_txs u) \<and> txid_height_new u = [] \<and>
     txid_height_delete u = [] \<and> scripts_with_blinding_pubkey u = [] \<and> upd_unspent u = []"

definition default_blockheader :: BlockHeader where
  "default_blockheader =
     \<lparr>bh_version = 0, prev_blockhash = replicate 32 0, merkle_root = replicate 32 0, bh_time = 0,
      bh_height = 0, bh_ext = ExtData_default, bitcoin_anchor = Some (0, replicate 32 0)\<rparr>"

section \<open>Pruning\<close>

definition prune_output :: "(Script \<Rightarrow> bool) \<Rightarrow> TxOut \<Rightarrow> TxOut" where
  "prune_output mine o' =
     (if mine (script_pubkey o') then o'\<lparr>out_witness := (out_witness o')\<lparr>surjection_proof := None\<rparr>\<rparr>
      else o'\<lparr>out_witness := TxOutWitness_empty\<rparr>)"

definition prune_tx :: "(Script \<Rightarrow> bool) \<Rightarrow> Transaction \<Rightarrow> Transaction" where
  "prune_tx mine tx = tx\<lparr>tx_input := map (\<lambda>i. i\<lparr>in_witness := TxInWitness_empty\<rparr>) (tx_input tx),
     tx_output := map (prune_output mine) (tx_output tx)\<rparr>"

definition DownloadTxResult_prune :: "(Script \<rightharpoonup> Chain \<times> ChildNumber) \<Rightarrow> DownloadTxResult \<Rightarrow> DownloadTxResult" where
  "DownloadTxResult_prune scripts d =
     d\<lparr>dl_txs := map (\<lambda>(t, tx). (t, prune_tx (\<lambda>s. scripts s \<noteq> None) tx)) (dl_txs d)\<rparr>"

definition Update_prune :: "(Script \<rightharpoonup> Chain \<times> ChildNumber) \<Rightarrow> Update \<Rightarrow> Update" where
  "Update_prune paths u = u\<lparr>new_txs := DownloadTxResult_prune paths (new_txs u)\<rparr>"

definition prune_witnesses :: "Update \<Rightarrow> Update" where
  "prune_witnesses u = u\<lparr>new_txs := (new_txs u)\<lparr>dl_txs := map (\<lambda>(t, tx). (t,
     tx\<lparr>tx_input := map (\<lambda>i. i\<lparr>in_witness := TxInWitness_empty\<rparr>) (tx_input tx),
        tx_output := map (\<lambda>o'. o'\<lparr>out_witness := TxOutWitness_empty\<rparr>) (tx_output tx)\<rparr>))
     (dl_txs (new_txs u))\<rparr>\<rparr>"

section \<open>Encoding\<close>

definition UPDATE_MAGIC_BYTES :: bytes where
  "UPDATE_MAGIC_BYTES = [0x89, 0x61, 0xb8, 0xc8]"

definition encode_TxOutSecrets :: "TxOutSecrets \<Rightarrow> bytes" where
  "encode_TxOutSecrets s = sec_asset s @ asset_bf s @ emit_u64 (sec_value s) @ value_bf s"

definition decode_TxOutSecrets :: "env \<Rightarrow> TxOutSecrets decoder" where
  "decode_TxOutSecrets E =
     dbind (read_slice 32) (\<lambda>asset. dbind (read_slice 32) (\<lambda>abf.
     if \<not> tweak_ok E abf then dfail (Panic ''bytes length is 32'')
     else dbind read_u64 (\<lambda>v. dbind (read_slice 32) (\<lambda>vbf.
     if \<not> tweak_ok E vbf then dfail (Panic ''bytes length is 32'')
     else dret \<lparr>sec_asset = asset, asset_bf = abf, sec_value = v, value_bf = vbf\<rparr>))))"

definition encode_unblind :: "OutPoint \<times> TxOutSecrets \<Rightarrow> bytes" where
  "encode_unblind = (\<lambda>(op, s). encode_OutPoint op @ encode_TxOutSecrets s)"

definition decode_unblind :: "env \<Rightarrow> (OutPoint \<times> TxOutSecrets) decoder" where
  "decode_unblind E = dbind decode_OutPoint (\<lambda>op. dbind (decode_TxOutSecrets E) (\<lambda>s. dret (op, s)))"

definition decode_tx_with_id :: "env \<Rightarrow> (bytes \<Rightarrow> Txid) \<Rightarrow> (Txid \<times> Transaction) decoder" where
  "decode_tx_with_id E sha256d = dbind (decode_Transaction E) (\<lambda>tx. dret (txid sha256d tx, tx))"

text \<open>A counted list: \<open>cap n\<close> holds when reserving \<open>n\<close> elements exceeds the address space, which never
  happens for a list that grows as it is read.\<close>

definition decode_counted :: "(nat \<Rightarrow> bool) \<Rightarrow> 'a decoder \<Rightarrow> 'a list decoder" where
  "decode_counted cap d = dbind read_varint (\<lambda>len.
     if cap (unat len) then dfail (Panic ''capacity overflow'') else decode_n (unat len) d)"

definition over_capacity :: "env \<Rightarrow> string \<Rightarrow> nat \<Rightarrow> bool" where
  "over_capacity E ty n \<longleftrightarrow> 2 ^ 63 \<le> n * size_of E ty"

definition encode_DownloadTxResult :: "DownloadTxResult \<Rightarrow> bytes" where
  "encode_DownloadTxResult d =
     encode_vec (\<lambda>(t, tx). encode_Transaction tx) (dl_txs d) @ encode_vec encode_unblind (dl_unblinds d)"

definition decode_DownloadTxResult :: "env \<Rightarrow> (bytes \<Rightarrow> Txid) \<Rightarrow> DownloadTxResult decoder" where
  "decode_DownloadTxResult E sha256d =
     dbind (decode_counted (\<lambda>_. False) (decode_tx_with_id E sha256d)) (\<lambda>txs.
     dbind (decode_counted (\<lambda>_. False) (decode_unblind E)) (\<lambda>unblinds.
     dret \<lparr>dl_txs = txs, dl_unblinds = unblinds\<rparr>))"

definition encode_height :: "Txid \<times> Height option \<Rightarrow> bytes" where
  "encode_height = (\<lambda>(t, h). t @ emit_u32 (case h of Some x \<Rightarrow> x | None \<Rightarrow> 0xffffffff))"

definition decode_height :: "(Txid \<times> Height option) decoder" where
  "decode_height = dbind (read_slice 32) (\<lambda>t. dbind read_u32 (\<lambda>x.
     dret (t, if x = 0xffffffff then None else Some x)))"

definition encode_timestamp :: "Height \<times> Timestamp \<Rightarrow> bytes" where
  "encode_timestamp = (\<lambda>(h, t). emit_u32 h @ emit_u32 t)"

definition decode_timestamp :: "(Height \<times> Timestamp) decoder" where
  "decode_timestamp = dbind read_u32 (\<lambda>h. dbind read_u32 (\<lambda>t. dret (h, t)))"

definition encode_script_entry :: "u8 \<Rightarrow> script_entry \<Rightarrow> bytes" where
  "encode_script_entry version = (\<lambda>(chain, child, script, pk).
     consensus_encode_with_size script @ emit_u8 (case chain of External \<Rightarrow> 0 | Internal \<Rightarrow> 1) @
     emit_u32 child @
     (if 2 \<le> version then (case pk of Some p \<Rightarrow> p | None \<Rightarrow> replicate 33 0) else []))"

definition decode_script_entry :: "env \<Rightarrow> u8 \<Rightarrow> script_entry decoder" where
  "decode_script_entry E version =
     dbind (decode_byte_vec E) (\<lambda>script. dbind read_u8 (\<lambda>c.
     dbind (if c = 0 then dret External else if c = 1 then dret Internal
            else dfail (Err (ParseFailed ''Invalid chain''))) (\<lambda>chain.
     dbind read_u32 (\<lambda>child.
     dbind (if 2 \<le> version then dbind (read_slice 33) (\<lambda>b.
              if b = replicate 33 0 then dret None
              else if pubkey_ok E b then dret (Some b) else dfail (Err Secp256k1))
            else dret None) (\<lambda>pk. dret (chain, child, script, pk))))))"

definition encode_Update :: "Update \<Rightarrow> encode_error fault + bytes" where
  "encode_Update u = rbind (encode_BlockHeader (upd_tip u)) (\<lambda>tip. Inr (
     UPDATE_MAGIC_BYTES @ emit_u8 (upd_version u) @
     (if 1 \<le> upd_version u then emit_u64 (wollet_status u) else []) @
     encode_DownloadTxResult (new_txs u) @ encode_vec encode_height (txid_height_new u) @
     encode_vec (\<lambda>t. t) (txid_height_delete u) @ encode_vec encode_timestamp (upd_timestamps u) @
     encode_vec (encode_script_entry (upd_version u)) (scripts_with_blinding_pubkey u) @ tip @
     (if 3 \<le> upd_version u then encode_vec encode_OutPoint (upd_unspent u) else []) @
     (if 4 \<le> upd_version u
      then emit_u32 (lu_external (upd_last_unused u)) @ emit_u32 (lu_internal (upd_last_unused u))
      else [])))"

definition decode_Update_body :: "env \<Rightarrow> (bytes \<Rightarrow> Txid) \<Rightarrow> u8 \<Rightarrow> Update decoder" where
  "decode_Update_body E sha256d version =
     dbind (if 1 \<le> version then read_u64 else dret 0) (\<lambda>status.
     dbind (decode_DownloadTxResult E sha256d) (\<lambda>txs.
     dbind (decode_counted (over_capacity E ''(Txid, Option<u32>)'') decode_height) (\<lambda>hs.
     dbind (decode_counted (over_capacity E ''Txid'') (read_slice 32)) (\<lambda>del.
     dbind (decode_counted (over_capacity E ''(u32, u32)'') decode_timestamp) (\<lambda>ts.
     dbind (decode_counted (over_capacity E ''(Chain, ChildNumber, Script, Option<PublicKey>)'')
              (decode_script_entry E version)) (\<lambda>scripts.
     dbind (decode_BlockHeader E) (\<lambda>tip.
     dbind (if 3 \<le> version then decode_counted (over_capacity E ''OutPoint'') decode_OutPoint
            else dret []) (\<lambda>unspent.
     dbind (if 4 \<le> version
            then dbind read_u32 (\<lambda>e. dbind read_u32 (\<lambda>i. dret \<lparr>lu_internal = i, lu_external = e\<rparr>))
            else dret LastUnused_default) (\<lambda>lu.
     dret \<lparr>upd_version = version, wollet_status = status, new_txs = txs, txid_height_new = hs,
           txid_height_delete = del, upd_timestamps = ts, scripts_with_blinding_pubkey = scripts,
           upd_tip = tip, upd_unspent = unspent, upd_last_unused = lu\<rparr>)))))))))"

definition decode_Update :: "env \<Rightarrow> (bytes \<Rightarrow> Txid) \<Rightarrow> Update decoder" where
  "decode_Update E sha256d = dbind (read_slice 4) (\<lambda>magic.
     if magic \<noteq> UPDATE_MAGIC_BYTES then dfail (Err (ParseFailed ''Invalid magic bytes''))
     else dbind read_u8 (\<lambda>version.
     if 4 < version then dfail (Err (ParseFailed ''Unsupported version''))
     else decode_Update_body E sha256d version))"

text \<open>\<open>Update::deserialize\<close> decodes from the slice and ignores what follows.\<close>

definition Update_serialize :: "Update \<Rightarrow> encode_error fault + bytes" where
  "Update_serialize u = encode_Update u"

definition Update_deserialize ::
    "env \<Rightarrow> (bytes \<Rightarrow> Txid) \<Rightarrow> bytes \<Rightarrow> encode_error fault + Update" where
  "Update_deserialize E sha256d bs = rbind (decode_Update E sha256d bs) (\<lambda>(u, rest). Inr u)"

section \<open>Codecs\<close>

context total_codec begin

lemma counted_total_codec:
  "total_codec (encode_vec enc) (decode_counted cap dec)
     (\<lambda>xs. list_all wf xs \<and> length xs < 2 ^ 64 \<and> \<not> cap (length xs))"
proof
  fix xs :: "'a list" and r
  assume a: "list_all wf xs \<and> length xs < 2 ^ 64 \<and> \<not> cap (length xs)"
  then have "unat (of_nat (length xs) :: u64) = length xs" by (simp add: unat_of_nat)
  with a show "decode_counted cap dec (encode_vec enc xs @ r) = Inr (xs, r)"
    by (simp add: decode_counted_def encode_vec_def codec_enc decode_n_iff)
next
  fix bs :: bytes and xs :: "'a list" and r
  assume "decode_counted cap dec bs = Inr (xs, r)"
  then obtain len where "bs = emit_varint len @ concat (map enc xs) @ r"
    "length xs = unat len" "list_all wf xs" "\<not> cap (unat len)"
    by (auto simp: decode_counted_def codec_dec decode_n_iff split: if_splits)
  moreover have "unat len < 2 ^ 64" using unsigned_less [where 'a = nat, of len] by simp
  ultimately show "(list_all wf xs \<and> length xs < 2 ^ 64 \<and> \<not> cap (length xs)) \<and>
      bs = encode_vec enc xs @ r"
    by (simp add: encode_vec_def)
qed

end

definition wf_counted :: "(nat \<Rightarrow> bool) \<Rightarrow> ('a \<Rightarrow> bool) \<Rightarrow> 'a list \<Rightarrow> bool" where
  "wf_counted cap p xs \<longleftrightarrow> list_all p xs \<and> length xs < 2 ^ 64 \<and> \<not> cap (length xs)"

definition wf_TxOutSecrets :: "env \<Rightarrow> TxOutSecrets \<Rightarrow> bool" where
  "wf_TxOutSecrets E s \<longleftrightarrow> length (sec_asset s) = 32 \<and> length (asset_bf s) = 32 \<and>
     length (value_bf s) = 32 \<and> tweak_ok E (asset_bf s) \<and> tweak_ok E (value_bf s)"

definition wf_unblind :: "env \<Rightarrow> OutPoint \<times> TxOutSecrets \<Rightarrow> bool" where
  "wf_unblind E = (\<lambda>(op, s). wf_OutPoint op \<and> wf_TxOutSecrets E s)"

definition wf_tx_entry :: "env \<Rightarrow> (bytes \<Rightarrow> Txid) \<Rightarrow> Txid \<times> Transaction \<Rightarrow> bool" where
  "wf_tx_entry E sha256d = (\<lambda>(t, tx). wf_Transaction E tx \<and> t = txid sha256d tx)"

definition wf_DownloadTxResult :: "env \<Rightarrow> (bytes \<Rightarrow> Txid) \<Rightarrow> DownloadTxResult \<Rightarrow> bool" where
  "wf_DownloadTxResult E sha256d d \<longleftrightarrow>
     wf_counted (\<lambda>_. False) (wf_tx_entry E sha256d) (dl_txs d) \<and>
     wf_counted (\<lambda>_. False) (wf_unblind E) (dl_unblinds d)"

definition wf_height :: "Txid \<times> Height option \<Rightarrow> bool" where
  "wf_height = (\<lambda>(t, h). length t = 32 \<and> h \<noteq> Some 0xffffffff)"

definition wf_script_entry :: "env \<Rightarrow> u8 \<Rightarrow> script_entry \<Rightarrow> bool" where
  "wf_script_entry E version = (\<lambda>(chain, child, script, pk). wf_byte_vec E script \<and>
     (case pk of None \<Rightarrow> True
      | Some p \<Rightarrow> 2 \<le> version \<and> length p = 33 \<and> p \<noteq> replicate 33 0 \<and> pubkey_ok E p))"

text \<open>What a version of the format can represent: older versions have no status, no blinding keys, no
  list of unspent outputs and no indexes.\<close>

definition wf_Update :: "env \<Rightarrow> (bytes \<Rightarrow> Txid) \<Rightarrow> Update \<Rightarrow> bool" where
  "wf_Update E sha256d u \<longleftrightarrow>
     upd_version u \<le> 4 \<and> (1 \<le> upd_version u \<or> wollet_status u = 0) \<and>
     wf_DownloadTxResult E sha256d (new_txs u) \<and>
     wf_counted (over_capacity E ''(Txid, Option<u32>)'') wf_height (txid_height_new u) \<and>
     wf_counted (over_capacity E ''Txid'') (\<lambda>t. length t = 32) (txid_height_delete u) \<and>
     wf_counted (over_capacity E ''(u32, u32)'') (\<lambda>_. True) (upd_timestamps u) \<and>
     wf_counted (over_capacity E ''(Chain, ChildNumber, Script, Option<PublicKey>)'')
       (wf_script_entry E (upd_version u)) (scripts_with_blinding_pubkey u) \<and>
     wf_BlockHeader E (upd_tip u) \<and>
     (if 3 \<le> upd_version u then wf_counted (over_capacity E ''OutPoint'') wf_OutPoint (upd_unspent u)
      else upd_unspent u = []) \<and>
     (4 \<le> upd_version u \<or> upd_last_unused u = LastUnused_default)"

interpretation secretsc: total_codec encode_TxOutSecrets "decode_TxOutSecrets E" "wf_TxOutSecrets E" for E
  by (unfold_locales,
      simp add: decode_TxOutSecrets_def encode_TxOutSecrets_def wf_TxOutSecrets_def codec_enc,
      auto simp: decode_TxOutSecrets_def encode_TxOutSecrets_def wf_TxOutSecrets_def codec_dec
        split: if_splits)

declare secretsc.total_decode_encode [codec_enc] secretsc.decode_iff [codec_dec]

interpretation unblindc: total_codec encode_unblind "decode_unblind E" "wf_unblind E" for E
  by (unfold_locales,
      clarsimp simp: decode_unblind_def encode_unblind_def wf_unblind_def codec_enc,
      auto simp: decode_unblind_def encode_unblind_def wf_unblind_def codec_dec)

interpretation txentryc: total_codec "\<lambda>(t, tx). encode_Transaction tx" "decode_tx_with_id E sha256d"
  "wf_tx_entry E sha256d" for E sha256d
  by (unfold_locales, clarsimp simp: decode_tx_with_id_def wf_tx_entry_def codec_enc,
      auto simp: decode_tx_with_id_def wf_tx_entry_def codec_dec)

interpretation heightc: total_codec encode_height decode_height wf_height
  by (unfold_locales,
      clarsimp simp: decode_height_def encode_height_def wf_height_def codec_enc split: option.splits,
      auto simp: decode_height_def encode_height_def wf_height_def codec_dec split: if_splits)

interpretation timestampc: total_codec encode_timestamp decode_timestamp "\<lambda>_. True"
  by (unfold_locales, clarsimp simp: decode_timestamp_def encode_timestamp_def codec_enc,
      auto simp: decode_timestamp_def encode_timestamp_def codec_dec)

interpretation txidc: total_codec "\<lambda>t. t" "read_slice 32" "\<lambda>t. length t = 32"
  by unfold_locales (auto simp: codec_enc codec_dec)

interpretation scriptc: total_codec "encode_script_entry v" "decode_script_entry E v"
  "wf_script_entry E v" for E v
proof
  fix x r
  assume "wf_script_entry E v x"
  then show "decode_script_entry E v (encode_script_entry v x @ r) = Inr (x, r)"
    by (auto simp: decode_script_entry_def encode_script_entry_def wf_script_entry_def codec_enc
        split: Chain.splits option.splits)
next
  fix bs x r
  assume "decode_script_entry E v bs = Inr (x, r)"
  then show "wf_script_entry E v x \<and> bs = encode_script_entry v x @ r"
    by (auto simp: decode_script_entry_def encode_script_entry_def wf_script_entry_def codec_dec
        split: if_splits)
qed

interpretation txentriesc: total_codec "encode_vec (\<lambda>(t, tx). encode_Transaction tx)"
  "decode_counted cap (decode_tx_with_id E sha256d)" "wf_counted cap (wf_tx_entry E sha256d)"
  for cap E sha256d
  unfolding wf_counted_def by (rule txentryc.counted_total_codec)

interpretation unblindsc: total_codec "encode_vec encode_unblind"
  "decode_counted cap (decode_unblind E)" "wf_counted cap (wf_unblind E)" for cap E
  unfolding wf_counted_def by (rule unblindc.counted_total_codec)

interpretation heightsc: total_codec "encode_vec encode_height"
  "decode_counted cap decode_height" "wf_counted cap wf_height" for cap
  unfolding wf_counted_def by (rule heightc.counted_total_codec)

interpretation timestampsc: total_codec "encode_vec encode_timestamp"
  "decode_counted cap decode_timestamp" "wf_counted cap (\<lambda>_. True)" for cap
  unfolding wf_counted_def by (rule timestampc.counted_total_codec)

interpretation txidsc: total_codec "encode_vec (\<lambda>t. t)"
  "decode_counted cap (read_slice 32)" "wf_counted cap (\<lambda>t. length t = 32)" for cap
  unfolding wf_counted_def by (rule txidc.counted_total_codec)

interpretation scriptsc: total_codec "encode_vec (encode_script_entry v)"
  "decode_counted cap (decode_script_entry E v)" "wf_counted cap (wf_script_entry E v)" for cap E v
  unfolding wf_counted_def by (rule scriptc.counted_total_codec)

interpretation outpointsc: total_codec "encode_vec encode_OutPoint"
  "decode_counted cap decode_OutPoint" "wf_counted cap wf_OutPoint" for cap
  unfolding wf_counted_def by (rule outpointc.counted_total_codec)

lemmas list_codecs_enc = txentriesc.total_decode_encode unblindsc.total_decode_encode
  heightsc.total_decode_encode timestampsc.total_decode_encode txidsc.total_decode_encode
  scriptsc.total_decode_encode outpointsc.total_decode_encode

lemmas list_codecs_dec = txentriesc.decode_iff unblindsc.decode_iff heightsc.decode_iff
  timestampsc.decode_iff txidsc.decode_iff scriptsc.decode_iff outpointsc.decode_iff

interpretation downloadc: total_codec encode_DownloadTxResult "decode_DownloadTxResult E sha256d"
  "wf_DownloadTxResult E sha256d" for E sha256d
  by (unfold_locales,
      simp add: decode_DownloadTxResult_def encode_DownloadTxResult_def wf_DownloadTxResult_def
        codec_enc list_codecs_enc,
      auto simp: decode_DownloadTxResult_def encode_DownloadTxResult_def wf_DownloadTxResult_def
        codec_dec list_codecs_dec)

declare downloadc.total_decode_encode [codec_enc] downloadc.decode_iff [codec_dec]

lemma decode_encode_Update:
  assumes wf: "wf_Update E sha256d u" and enc: "encode_Update u = Inr b"
  shows "decode_Update E sha256d (b @ r) = Inr (u, r)"
proof -
  from enc obtain tip where tip: "encode_BlockHeader (upd_tip u) = Inr tip"
    by (auto simp: encode_Update_def rbind_eq_Inr)
  have hd: "decode_BlockHeader E (tip @ r') = Inr (upd_tip u, r')" for r'
    using headerc.decode_encode [OF _ tip] wf by (simp add: wf_Update_def)
  have v: "\<not> 4 < upd_version u" using wf by (simp add: wf_Update_def not_less)
  have magic: "length UPDATE_MAGIC_BYTES = 4" by (simp add: UPDATE_MAGIC_BYTES_def)
  have lu: "upd_last_unused u =
    \<lparr>lu_internal = lu_internal (upd_last_unused u), lu_external = lu_external (upd_last_unused u)\<rparr>"
    by simp
  show ?thesis
    using wf enc v
    by (cases "1 \<le> upd_version u"; cases "3 \<le> upd_version u"; cases "4 \<le> upd_version u")
      (auto simp: decode_Update_def decode_Update_body_def encode_Update_def wf_Update_def tip hd magic codec_enc
        list_codecs_enc)
qed

lemma encode_decode_Update:
  assumes "decode_Update E sha256d bs = Inr (u, r)"
  shows "wf_Update E sha256d u \<and> (\<exists>b. encode_Update u = Inr b \<and> bs = b @ r)"
proof -
  from assms obtain v r0 where bs: "bs = UPDATE_MAGIC_BYTES @ emit_u8 v @ r0" and v: "\<not> 4 < v"
    and body: "decode_Update_body E sha256d v r0 = Inr (u, r)"
    by (auto simp: decode_Update_def codec_dec split: if_splits)
  from body obtain st r1 txs hs del ts sc r2 tip r3 un r4 lu where
    st: "(if 1 \<le> v then read_u64 else dret 0) r0 = Inr (st, r1)"
    and r1: "r1 = encode_DownloadTxResult txs @ encode_vec encode_height hs @ encode_vec (\<lambda>t. t) del @
        encode_vec encode_timestamp ts @ encode_vec (encode_script_entry v) sc @ r2"
    and wfs: "wf_DownloadTxResult E sha256d txs"
      "wf_counted (over_capacity E ''(Txid, Option<u32>)'') wf_height hs"
      "wf_counted (over_capacity E ''Txid'') (\<lambda>t. length t = 32) del"
      "wf_counted (over_capacity E ''(u32, u32)'') (\<lambda>_. True) ts"
      "wf_counted (over_capacity E ''(Chain, ChildNumber, Script, Option<PublicKey>)'')
        (wf_script_entry E v) sc"
    and tip: "decode_BlockHeader E r2 = Inr (tip, r3)"
    and un: "(if 3 \<le> v then decode_counted (over_capacity E ''OutPoint'') decode_OutPoint
        else dret []) r3 = Inr (un, r4)"
    and lu: "(if 4 \<le> v
        then dbind read_u32 (\<lambda>e. dbind read_u32 (\<lambda>i. dret \<lparr>lu_internal = i, lu_external = e\<rparr>))
        else dret LastUnused_default) r4 = Inr (lu, r)"
    and u: "u = \<lparr>upd_version = v, wollet_status = st, new_txs = txs, txid_height_new = hs,
        txid_height_delete = del, upd_timestamps = ts, scripts_with_blinding_pubkey = sc,
        upd_tip = tip, upd_unspent = un, upd_last_unused = lu\<rparr>"
    unfolding decode_Update_body_def
    by (auto simp only: codec_dec list_codecs_dec)
  have st': "1 \<le> v \<or> st = 0" "r0 = (if 1 \<le> v then emit_u64 st else []) @ r1"
    using st by (auto simp: codec_dec split: if_splits)
  obtain t where t: "wf_BlockHeader E tip" "encode_BlockHeader tip = Inr t" "r2 = t @ r3"
    using headerc.encode_decode [OF tip] by blast
  have un': "if 3 \<le> v then wf_counted (over_capacity E ''OutPoint'') wf_OutPoint un else un = []"
    "r3 = (if 3 \<le> v then encode_vec encode_OutPoint un else []) @ r4"
    using un by (auto simp: list_codecs_dec codec_dec split: if_splits)
  have lu': "4 \<le> v \<or> lu = LastUnused_default"
    "r4 = (if 4 \<le> v then emit_u32 (lu_external lu) @ emit_u32 (lu_internal lu) else []) @ r"
    using lu by (auto simp: codec_dec split: if_splits)
  show ?thesis
    using v wfs t un' lu' st' by (simp add: u bs r1 wf_Update_def encode_Update_def not_less)
qed

interpretation updatec: codec encode_Update "decode_Update E sha256d" "wf_Update E sha256d"
  for E sha256d
proof
  fix u
  assume "wf_Update E sha256d u"
  then show "\<exists>b. encode_Update u = Inr b"
    using headerc.encodes [of E "upd_tip u"] by (auto simp: wf_Update_def encode_Update_def)
qed (simp_all add: decode_encode_Update encode_decode_Update)

section \<open>Pruning keeps identifiers\<close>

lemma strip_tx_eqI:
  assumes "tx_version a = tx_version b" and "tx_lock_time a = tx_lock_time b"
    and "map strip_in (tx_input a) = map strip_in (tx_input b)"
    and "map strip_out (tx_output a) = map strip_out (tx_output b)"
  shows "strip_tx a = strip_tx b"
  using assms by (intro Transaction.equality) simp_all

lemma strip_prune_tx: "strip_tx (prune_tx mine tx) = strip_tx tx"
  by (rule strip_tx_eqI) (auto simp: prune_tx_def prune_output_def strip_in_def strip_out_def)

lemma txid_prune_tx: "txid h (prune_tx mine tx) = txid h tx"
  by (simp add: txid_strip strip_prune_tx)

lemma txid_strip_tx: "txid h (strip_tx tx) = txid h tx"
  by (simp add: txid_strip strip_tx_def comp_def) (simp add: strip_in_def [abs_def] strip_out_def [abs_def])

lemma prune_witnesses_strip:
  "prune_witnesses u = u\<lparr>new_txs := (new_txs u)\<lparr>dl_txs := map (\<lambda>(t, tx). (t, strip_tx tx)) (dl_txs (new_txs u))\<rparr>\<rparr>"
  by (simp add: prune_witnesses_def strip_tx_def strip_in_def [abs_def] strip_out_def [abs_def])

lemma wf_prune_tx: "wf_Transaction E tx \<Longrightarrow> wf_Transaction E (prune_tx mine tx)"
proof -
  assume wf: "wf_Transaction E tx"
  have i: "wf_TxIn E (i\<lparr>in_witness := w\<rparr>) = wf_TxIn E i" for i w
    by (simp add: wf_TxIn_def wf_vout_def encoded_vout_def has_issuance_def)
  have o: "wf_TxOut E (prune_output mine o') = wf_TxOut E o'" for o'
    by (simp add: wf_TxOut_def prune_output_def)
  have w: "wf_TxOutWitness E (out_witness o') \<Longrightarrow> wf_TxOutWitness E (out_witness (prune_output mine o'))"
    for o' by (simp add: prune_output_def wf_TxOutWitness_def wf_box_option_def TxOutWitness_empty_def)
  from wf show ?thesis
    by (auto simp: wf_Transaction_def prune_tx_def wf_vec_def list_all_iff i o w)
qed

lemma wf_tx_entry_map:
  assumes "\<And>tx. wf_Transaction E tx \<Longrightarrow> wf_Transaction E (f tx)" and "\<And>tx. txid h (f tx) = txid h tx"
    and "wf_Update E h u"
  shows "wf_Update E h (u\<lparr>new_txs := (new_txs u)\<lparr>dl_txs := map (\<lambda>(t, tx). (t, f tx)) (dl_txs (new_txs u))\<rparr>\<rparr>)"
  using assms
  by (auto simp: wf_Update_def wf_DownloadTxResult_def wf_counted_def list_all_iff wf_tx_entry_def)

section \<open>Properties\<close>

text \<open>C26. The update codec is exact for all five versions of the format: deserialization succeeds with
  \<open>u\<close> exactly on the serialization of a representable update \<open>u\<close>, possibly followed by bytes that are
  ignored; so every representable update survives a round trip and the transaction ids are
  recomputed correctly.\<close>

theorem Update_deserialize_iff:
  "Update_deserialize E h bs = Inr u \<longleftrightarrow>
     wf_Update E h u \<and> (\<exists>b rest. Update_serialize u = Inr b \<and> bs = b @ rest)"
  by (auto simp: Update_deserialize_def Update_serialize_def rbind_eq_Inr updatec.decode_encode
      dest!: updatec.encode_decode)


definition sample_update :: Update where
  "sample_update = \<lparr>upd_version = 4, wollet_status = 99,
     new_txs = \<lparr>dl_txs = [(txid id sample_tx, sample_tx)], dl_unblinds = []\<rparr>,
     txid_height_new = [(replicate 32 5, Some 7), (replicate 32 6, None)], txid_height_delete = [],
     upd_timestamps = [(7, 1000)], scripts_with_blinding_pubkey = [(Internal, 3, [0x51], None)],
     upd_tip = sample_header, upd_unspent = [], upd_last_unused = \<lparr>lu_internal = 1, lu_external = 2\<rparr>\<rparr>"

lemma wf_sample_update: "wf_Update sample_env id sample_update"
  using wf_sample_header wf_sample_tx
  by (simp add: sample_update_def wf_Update_def wf_DownloadTxResult_def wf_counted_def wf_tx_entry_def
      wf_height_def wf_script_entry_def over_capacity_def wf_byte_vec_def sample_env_def)


text \<open>Crafted bytes make the decoder of the secrets panic: the factor's length is right, its value is not.\<close>

lemma decode_TxOutSecrets_panics:
  assumes "length a = 32" and "length f = 32" and "\<not> tweak_ok E f"
  shows "decode_TxOutSecrets E (a @ f @ r) = Inl (Panic ''bytes length is 32'')"
  using assms by (simp add: decode_TxOutSecrets_def codec_enc dfail_def)

lemma decode_counted_panics:
  assumes "2 ^ 63 \<le> unat len * size_of E ty"
  shows "decode_counted (over_capacity E ty) d (emit_varint len @ r) = Inl (Panic ''capacity overflow'')"
  using assms by (simp add: decode_counted_def over_capacity_def codec_enc dfail_def)

end
