(* ===== verification/Script.thy ===== *)
theory Script
  imports Prelude
begin

text \<open>
  Scripts (\<^verbatim>\<open>rust-elements/src/script.rs\<close>) and opcodes (\<^verbatim>\<open>rust-elements/src/opcodes.rs\<close>): the
  classification of opcodes, numbers in script format, the builder, the iterator over the
  instructions and the standard output templates. A script is its byte string, an opcode its
  byte; an \<open>i64\<close> is an integer and a \<open>usize\<close> a natural number, the one overflow that the code can
  run into, the negation of the least \<open>i64\<close>, being explicit.
\<close>

unbundle bit_operations_syntax

section \<open>Opcodes\<close>

type_synonym opcode = u8

abbreviation OP_PUSHBYTES_75 :: opcode where "OP_PUSHBYTES_75 \<equiv> 0x4b"
abbreviation OP_PUSHDATA1 :: opcode where "OP_PUSHDATA1 \<equiv> 0x4c"
abbreviation OP_PUSHDATA2 :: opcode where "OP_PUSHDATA2 \<equiv> 0x4d"
abbreviation OP_PUSHDATA4 :: opcode where "OP_PUSHDATA4 \<equiv> 0x4e"
abbreviation OP_PUSHNUM_NEG1 :: opcode where "OP_PUSHNUM_NEG1 \<equiv> 0x4f"
abbreviation OP_PUSHNUM_1 :: opcode where "OP_PUSHNUM_1 \<equiv> 0x51"
abbreviation OP_PUSHNUM_16 :: opcode where "OP_PUSHNUM_16 \<equiv> 0x60"
abbreviation OP_VERIFY :: opcode where "OP_VERIFY \<equiv> 0x69"
abbreviation OP_RETURN :: opcode where "OP_RETURN \<equiv> 0x6a"
abbreviation OP_DUP :: opcode where "OP_DUP \<equiv> 0x76"
abbreviation OP_EQUAL :: opcode where "OP_EQUAL \<equiv> 0x87"
abbreviation OP_EQUALVERIFY :: opcode where "OP_EQUALVERIFY \<equiv> 0x88"
abbreviation OP_NUMEQUAL :: opcode where "OP_NUMEQUAL \<equiv> 0x9c"
abbreviation OP_NUMEQUALVERIFY :: opcode where "OP_NUMEQUALVERIFY \<equiv> 0x9d"
abbreviation OP_HASH160 :: opcode where "OP_HASH160 \<equiv> 0xa9"
abbreviation OP_CHECKSIG :: opcode where "OP_CHECKSIG \<equiv> 0xac"
abbreviation OP_CHECKSIGVERIFY :: opcode where "OP_CHECKSIGVERIFY \<equiv> 0xad"
abbreviation OP_CHECKMULTISIG :: opcode where "OP_CHECKMULTISIG \<equiv> 0xae"
abbreviation OP_CHECKMULTISIGVERIFY :: opcode where "OP_CHECKMULTISIGVERIFY \<equiv> 0xaf"
abbreviation OP_CHECKSIGADD :: opcode where "OP_CHECKSIGADD \<equiv> 0xba"
abbreviation OP_CHECKSIGFROMSTACK :: opcode where "OP_CHECKSIGFROMSTACK \<equiv> 0xc1"
abbreviation OP_CHECKSIGFROMSTACKVERIFY :: opcode where "OP_CHECKSIGFROMSTACKVERIFY \<equiv> 0xc2"

datatype ClassifyContext = TapScript | Legacy

datatype opclass =
    PushNum int
  | PushBytesClass nat
  | ReturnOp
  | SuccessOp
  | IllegalOp
  | NoOp
  | Ordinary opcode

text \<open>The codes of the list of ordinary opcodes, in its order.\<close>

definition ordinary_opcodes :: "int list" where
  "ordinary_opcodes =
     [0x4c, 0x4d, 0x4e,
      0x63, 0x64, 0x67, 0x68, 0x69,
      0x6b, 0x6c,
      0x6d, 0x6e, 0x6f, 0x70, 0x71, 0x72,
      0x75, 0x76, 0x77, 0x78, 0x79, 0x7a, 0x7b, 0x7c, 0x7d,
      0x73, 0x74, 0x82,
      0x87, 0x88,
      0x8b, 0x8c, 0x8f, 0x90, 0x91, 0x92,
      0x93, 0x94, 0x9a, 0x9b,
      0x9c, 0x9d, 0x9e, 0x9f,
      0xa0, 0xa1, 0xa2,
      0xa3, 0xa4, 0xa5,
      0xa6, 0xa7, 0xa8, 0xa9, 0xaa,
      0xab, 0xac, 0xad,
      0xae, 0xaf,
      0x7e, 0x7f, 0xc3, 0x80, 0x81,
      0x83, 0x84, 0x85, 0x86, 0x98, 0x99,
      0xc1, 0xc2]"

definition try_from_all :: "opcode \<Rightarrow> opcode option" where
  "try_from_all b = (if uint b \<in> set ordinary_opcodes then Some b else None)"

definition classify :: "opcode \<Rightarrow> ClassifyContext \<Rightarrow> 'e fault + opclass" where
  "classify op ctx =
     (let code = uint op in
      if code = 0x65 \<or> code = 0x66 \<or> code = 0xff then Inr IllegalOp
      else if code \<in> set [0x7e, 0x7f, 0x80, 0x81, 0x83, 0x84, 0x85, 0x86, 0x8d, 0x8e, 0x95, 0x96, 0x97,
                        0x98, 0x99] \<and> ctx = Legacy then Inr IllegalOp
      else if ctx = TapScript \<and>
        (code = 80 \<or> code = 98 \<or> 137 \<le> code \<and> code \<le> 138 \<or> 141 \<le> code \<and> code \<le> 142 \<or>
         149 \<le> code \<and> code \<le> 151 \<or> 187 \<le> code \<and> code \<le> 191 \<or> 229 \<le> code \<and> code \<le> 254) then Inr SuccessOp
      else if code = 0x61 then Inr NoOp
      else if 0xb0 \<le> code \<and> code \<le> 0xb9 then Inr NoOp
      else if code = 0x6a then Inr ReturnOp
      else if (code = 0x50 \<or> code = 0x89 \<or> code = 0x8a \<or> code = 0x62) \<and> ctx = Legacy then Inr ReturnOp
      else if ctx = Legacy \<and> 0xba \<le> code then Inr ReturnOp
      else if (code = 0xae \<or> code = 0xaf) \<and> ctx = TapScript then Inr ReturnOp
      else if code = 0x4f then Inr (PushNum (- 1))
      else if 0x51 \<le> code \<and> code \<le> 0x60 then Inr (PushNum (1 + code - 0x51))
      else if code \<le> 0x4b then Inr (PushBytesClass (nat code))
      else (case try_from_all op of
          Some o' \<Rightarrow> Inr (Ordinary o')
        | None \<Rightarrow> Inl (Panic ''called `Option::unwrap()` on a `None` value'')))"

section \<open>Numbers in script format\<close>

datatype script_error = NonMinimalPush | EarlyEndOfScript | NumericOverflow

function scriptint_loop :: "nat \<Rightarrow> bytes \<Rightarrow> bytes \<times> nat" where
  "scriptint_loop a v =
     (if 0xFF < a then scriptint_loop (a div 256) (v @ [of_nat (a mod 256)]) else (v, a))"
  by pat_completeness auto

termination scriptint_loop
  by (relation "measure fst") auto

definition build_scriptint :: "int \<Rightarrow> 'e fault + bytes" where
  "build_scriptint n =
     (if n = 0 then Inr []
      else if n = - (2 ^ 63) then Inl (Panic ''attempt to negate with overflow'')
      else let neg = (n < 0);
               (v, a) = scriptint_loop (nat \<bar>n\<bar>) []
           in if a AND 0x80 \<noteq> 0
              then Inr (v @ [of_nat a] @ [if neg then 0x80 else 0])
              else Inr (v @ [of_nat (a OR (if neg then 0x80 else 0))]))"

definition read_scriptint :: "bytes \<Rightarrow> script_error + int" where
  "read_scriptint v =
     (if v = [] then Inr 0
      else if 4 < length v then Inl NumericOverflow
      else let (ret, sh) = foldl (\<lambda>(acc, sh) n. (acc + push_bit sh (uint n), sh + 8)) (0, 0) v
           in if last v AND 0x80 \<noteq> 0 then Inr (- take_bit (sh - 1) ret) else Inr ret)"

definition read_scriptbool :: "bytes \<Rightarrow> bool" where
  "read_scriptbool v \<longleftrightarrow>
     \<not> (v = [] \<or> ((last v = 0 \<or> last v = 0x80) \<and> (\<forall>w \<in> set (drop 1 (rev v)). w = 0)))"

definition read_uint :: "bytes \<Rightarrow> nat \<Rightarrow> script_error + nat" where
  "read_uint data sz =
     (if length data < sz then Inl EarlyEndOfScript
      else Inr (\<Sum>(i, item) \<leftarrow> enumerate 0 (take sz data). push_bit (i * 8) (unat item)))"

section \<open>The builder\<close>

text \<open>The bytes and the last opcode, when the last addition was one.\<close>

type_synonym builder = "bytes \<times> opcode option"

definition Builder_new :: builder where "Builder_new = ([], None)"

definition push_opcode :: "opcode \<Rightarrow> builder \<Rightarrow> builder" where
  "push_opcode op b = (fst b @ [op], Some op)"

definition push_header :: "nat \<Rightarrow> 'e fault + bytes" where
  "push_header n =
     (if n < 0x4c then Inr [of_nat n]
      else if n < 0x100 then Inr [OP_PUSHDATA1, of_nat n]
      else if n < 0x10000 then Inr [OP_PUSHDATA2, of_nat (n mod 0x100), of_nat (n div 0x100)]
      else if n < 0x100000000
      then Inr [OP_PUSHDATA4, of_nat (n mod 0x100), of_nat (n div 0x100 mod 0x100),
                of_nat (n div 0x10000 mod 0x100), of_nat (n div 0x1000000)]
      else Inl (Panic ''tried to put a 4bn+ sized object into a script!''))"

definition push_slice :: "bytes \<Rightarrow> builder \<Rightarrow> 'e fault + builder" where
  "push_slice data b = rbind (push_header (length data)) (\<lambda>hd. Inr (fst b @ hd @ data, None))"

definition push_scriptint :: "int \<Rightarrow> builder \<Rightarrow> 'e fault + builder" where
  "push_scriptint n b = rbind (build_scriptint n) (\<lambda>data. push_slice data b)"

definition push_int :: "int \<Rightarrow> builder \<Rightarrow> 'e fault + builder" where
  "push_int n b =
     (if n = - 1 \<or> 1 \<le> n \<and> n \<le> 16 then Inr (push_opcode (word_of_int (n - 1 + uint OP_PUSHNUM_1)) b)
      else if n = 0 then Inr (push_opcode 0 b)
      else push_scriptint n b)"

text \<open>\<open>OP_VERIFY\<close>, or the verifying form of the last opcode in its place.\<close>

definition push_verify :: "builder \<Rightarrow> builder" where
  "push_verify b =
     (let replace = (\<lambda>op. push_opcode op (butlast (fst b), snd b)) in
      if snd b = Some OP_EQUAL then replace OP_EQUALVERIFY
      else if snd b = Some OP_NUMEQUAL then replace OP_NUMEQUALVERIFY
      else if snd b = Some OP_CHECKSIG then replace OP_CHECKSIGVERIFY
      else if snd b = Some OP_CHECKMULTISIG then replace OP_CHECKMULTISIGVERIFY
      else if snd b = Some OP_CHECKSIGFROMSTACK then replace OP_CHECKSIGFROMSTACKVERIFY
      else push_opcode OP_VERIFY b)"

definition into_script :: "builder \<Rightarrow> bytes" where "into_script b = fst b"

section \<open>The instruction iterator\<close>

datatype Instruction = PushBytes bytes | Op opcode

text \<open>A push whose length takes \<open>k\<close> bytes after the opcode. The order of the two checks differs between
  the one-byte form and the other two.\<close>

definition next_pushdata ::
    "bool \<Rightarrow> nat \<Rightarrow> nat \<Rightarrow> bytes \<Rightarrow> (script_error + Instruction) \<times> bytes" where
  "next_pushdata minimal k least data =
     (if length data < k + 1 then (Inl EarlyEndOfScript, [])
      else case read_uint (drop 1 data) k of
          Inl e \<Rightarrow> (Inl e, [])
        | Inr n \<Rightarrow>
            if k = 1 \<and> length data < n + k + 1 then (Inl EarlyEndOfScript, [])
            else if minimal \<and> n < least then (Inl NonMinimalPush, [])
            else if length data < n + k + 1 then (Inl EarlyEndOfScript, [])
            else (Inr (PushBytes (take n (drop (k + 1) data))), drop (n + k + 1) data))"

definition next_instruction ::
    "bool \<Rightarrow> bytes \<Rightarrow> ((script_error + Instruction) \<times> bytes) option" where
  "next_instruction minimal data =
     (if data = [] then None
      else Some (case (classify (hd data) Legacy :: unit fault + opclass) of
          Inr (PushBytesClass n) \<Rightarrow>
            if length data < n + 1 then (Inl EarlyEndOfScript, [])
            else if minimal \<and> n = 1 \<and> (data ! 1 = 0x81 \<or> 0 < data ! 1 \<and> data ! 1 \<le> 16)
            then (Inl NonMinimalPush, [])
            else (Inr (PushBytes (take n (drop 1 data))), drop (n + 1) data)
        | Inr (Ordinary op) \<Rightarrow>
            if op = OP_PUSHDATA1 then next_pushdata minimal 1 76 data
            else if op = OP_PUSHDATA2 then next_pushdata minimal 2 0x100 data
            else if op = OP_PUSHDATA4 then next_pushdata minimal 4 0x10000 data
            else (Inr (Op (hd data)), tl data)
        | _ \<Rightarrow> (Inr (Op (hd data)), tl data)))"

lemma next_instruction_shorter: "next_instruction m data = Some (r, rest) \<Longrightarrow> length rest < length data"
  by (cases data)
    (auto simp: next_instruction_def next_pushdata_def split: if_splits sum.splits opclass.splits)

function instructions :: "bool \<Rightarrow> bytes \<Rightarrow> (script_error + Instruction) list" where
  "instructions minimal data =
     (case next_instruction minimal data of
        None \<Rightarrow> []
      | Some (r, rest) \<Rightarrow> r # instructions minimal rest)"
  by pat_completeness auto

termination instructions
  by (relation "measure (\<lambda>(m, d). length d)") (auto dest: next_instruction_shorter)

text \<open>The builder that continues an existing script.\<close>

definition Builder_from :: "bytes \<Rightarrow> builder" where
  "Builder_from v =
     (v, case instructions False v of
           [] \<Rightarrow> None
         | is \<Rightarrow> (case last is of Inr (Op op) \<Rightarrow> Some op | _ \<Rightarrow> None))"

section \<open>Output templates\<close>

definition new_p2pkh :: "bytes \<Rightarrow> 'e fault + bytes" where
  "new_p2pkh pubkey_hash =
     rbind (push_slice pubkey_hash (push_opcode OP_HASH160 (push_opcode OP_DUP Builder_new))) (\<lambda>b.
     Inr (into_script (push_opcode OP_CHECKSIG (push_opcode OP_EQUALVERIFY b))))"

definition new_p2sh :: "bytes \<Rightarrow> 'e fault + bytes" where
  "new_p2sh script_hash =
     rbind (push_slice script_hash (push_opcode OP_HASH160 Builder_new)) (\<lambda>b.
     Inr (into_script (push_opcode OP_EQUAL b)))"

definition new_p2pk :: "bytes \<Rightarrow> 'e fault + bytes" where
  "new_p2pk pubkey =
     rbind (push_slice pubkey Builder_new) (\<lambda>b. Inr (into_script (push_opcode OP_CHECKSIG b)))"

definition new_witness_program :: "u8 \<Rightarrow> bytes \<Rightarrow> 'e fault + bytes" where
  "new_witness_program ver program =
     (if \<not> ver \<le> 16 then Inl (Panic ''incorrect witness version provided'')
      else let verop = (if 0 < ver then ver + 0x50 else ver)
        in rbind (push_slice program (push_opcode verop Builder_new)) (\<lambda>b. Inr (into_script b)))"

definition new_v0_wpkh :: "bytes \<Rightarrow> 'e fault + bytes" where
  "new_v0_wpkh pubkey_hash = new_witness_program 0 pubkey_hash"

definition new_v0_wsh :: "bytes \<Rightarrow> 'e fault + bytes" where
  "new_v0_wsh script_hash = new_witness_program 0 script_hash"

definition new_v1_p2tr_tweaked :: "bytes \<Rightarrow> 'e fault + bytes" where
  "new_v1_p2tr_tweaked output_key = new_witness_program 1 output_key"

definition new_op_return :: "bytes \<Rightarrow> 'e fault + bytes" where
  "new_op_return data =
     rbind (push_slice data (push_opcode OP_RETURN Builder_new)) (\<lambda>b. Inr (into_script b))"

definition to_p2sh :: "(bytes \<Rightarrow> bytes) \<Rightarrow> bytes \<Rightarrow> 'e fault + bytes" where
  "to_p2sh hash160 s =
     rbind (push_slice (hash160 s) (push_opcode OP_HASH160 Builder_new)) (\<lambda>b.
     Inr (into_script (push_opcode OP_EQUAL b)))"

definition to_v0_p2wsh :: "(bytes \<Rightarrow> bytes) \<Rightarrow> bytes \<Rightarrow> 'e fault + bytes" where
  "to_v0_p2wsh sha256 s =
     rbind (push_int 0 Builder_new) (\<lambda>b. rbind (push_slice (sha256 s) b) (\<lambda>b. Inr (into_script b)))"

definition is_p2sh :: "bytes \<Rightarrow> bool" where
  "is_p2sh s \<longleftrightarrow> length s = 23 \<and> s ! 0 = OP_HASH160 \<and> s ! 1 = 20 \<and> s ! 22 = OP_EQUAL"

definition is_p2pkh :: "bytes \<Rightarrow> bool" where
  "is_p2pkh s \<longleftrightarrow> length s = 25 \<and> s ! 0 = OP_DUP \<and> s ! 1 = OP_HASH160 \<and> s ! 2 = 20 \<and>
     s ! 23 = OP_EQUALVERIFY \<and> s ! 24 = OP_CHECKSIG"

definition is_p2pk :: "bytes \<Rightarrow> bool" where
  "is_p2pk s \<longleftrightarrow>
     length s = 67 \<and> s ! 0 = 65 \<and> s ! 66 = OP_CHECKSIG \<or>
     length s = 35 \<and> s ! 0 = 33 \<and> s ! 34 = OP_CHECKSIG"

definition is_witness_program :: "bytes \<Rightarrow> bool" where
  "is_witness_program s \<longleftrightarrow>
     4 \<le> length s \<and> length s \<le> 42 \<and>
     (s ! 0 = 0 \<or> OP_PUSHNUM_1 \<le> s ! 0 \<and> s ! 0 \<le> OP_PUSHNUM_16) \<and>
     2 \<le> s ! 1 \<and> s ! 1 \<le> 40 \<and> length s - 2 = unat (s ! 1)"

definition is_v0_p2wsh :: "bytes \<Rightarrow> bool" where
  "is_v0_p2wsh s \<longleftrightarrow> length s = 34 \<and> s ! 0 = 0 \<and> s ! 1 = 32"

definition is_v1_p2tr :: "bytes \<Rightarrow> bool" where
  "is_v1_p2tr s \<longleftrightarrow> length s = 34 \<and> s ! 0 = OP_PUSHNUM_1 \<and> s ! 1 = 32"

definition is_v1plus_p2witprog :: "bytes \<Rightarrow> bool" where
  "is_v1plus_p2witprog s \<longleftrightarrow>
     1 < length s \<and> length s = unat (s ! 1) + 2 \<and>
     OP_PUSHNUM_1 \<le> s ! 0 \<and> s ! 0 \<le> OP_PUSHNUM_16 \<and> s ! 1 \<le> 40"

definition is_v0_p2wpkh :: "bytes \<Rightarrow> bool" where
  "is_v0_p2wpkh s \<longleftrightarrow> length s = 22 \<and> s ! 0 = 0 \<and> s ! 1 = 20"

definition is_op_return :: "bytes \<Rightarrow> bool" where
  "is_op_return s \<longleftrightarrow> s \<noteq> [] \<and> s ! 0 = OP_RETURN"

definition MAX_SCRIPT_SIZE :: nat where "MAX_SCRIPT_SIZE = 10000"

definition is_provably_unspendable :: "bytes \<Rightarrow> bool" where
  "is_provably_unspendable s \<longleftrightarrow>
     s \<noteq> [] \<and> s ! 0 = OP_RETURN \<or> MAX_SCRIPT_SIZE < length s \<or> s = []"

section \<open>Numbers round trip\<close>

declare scriptint_loop.simps [simp del]

lemma le_to_nat_append: "le_to_nat (xs @ ys) = le_to_nat xs + 256 ^ length xs * le_to_nat ys"
  by (induction xs) (auto simp: algebra_simps)

lemma scriptint_loop_eq:
  "\<exists>k. scriptint_loop a v = (v @ nat_to_le k a, a div 256 ^ k) \<and> a div 256 ^ k < 256 \<and>
     (0 < k \<longrightarrow> 0 < a div 256 ^ k)"
proof (induction a v rule: scriptint_loop.induct)
  case (1 a v)
  show ?case
  proof (cases "0xFF < a")
    case True
    from 1 [OF this] obtain k where k:
      "scriptint_loop (a div 256) (v @ [of_nat (a mod 256)])
         = ((v @ [of_nat (a mod 256)]) @ nat_to_le k (a div 256), a div 256 div 256 ^ k)"
      "a div 256 div 256 ^ k < 256" "0 < k \<longrightarrow> 0 < a div 256 div 256 ^ k" by blast
    have pos: "0 < a div 256 div 256 ^ k" using k(3) True by (cases k) auto
    have "scriptint_loop a v = (v @ nat_to_le (Suc k) a, a div 256 ^ Suc k)"
      using k(1) True by (subst scriptint_loop.simps) (simp add: div_mult2_eq)
    moreover have "a div 256 ^ Suc k < 256" "0 < a div 256 ^ Suc k"
      using k(2) pos by (simp_all add: div_mult2_eq)
    ultimately show ?thesis by blast
  next
    case False
    then have "scriptint_loop a v = (v @ nat_to_le 0 a, a div 256 ^ 0)" by (subst scriptint_loop.simps) simp
    with False show ?thesis by (intro exI [of _ 0]) simp
  qed
qed

lemma read_scriptint_fold:
  "foldl (\<lambda>(acc, sh) n. (acc + push_bit sh (uint n), sh + 8)) (acc, sh) v =
     (acc + 2 ^ sh * int (le_to_nat v), sh + 8 * length v)" for v :: bytes
proof (induction v arbitrary: acc sh)
  case (Cons b v)
  have "int (le_to_nat (b # v)) = uint b + 2 ^ 8 * int (le_to_nat v)" by simp
  with Cons show ?case by (simp add: push_bit_eq_mult ring_distribs power_add mult.commute mult.left_commute)
qed simp

lemma byte_top_bit: "(b AND 0x80 \<noteq> 0) = (128 \<le> unat b)" for b :: u8
proof -
  have "(b AND 0x80 \<noteq> 0) = bit b 7"
    using and_exp_eq_0_iff_not_bit [of b 7] by simp
  also have "\<dots> = bit (unat b) 7" by (simp add: bit_unsigned_iff)
  also have "\<dots> = odd (unat b div 128)" by (simp add: bit_iff_odd)
  also have "\<dots> = (128 \<le> unat b)"
  proof (cases "128 \<le> unat b")
    case True
    then have "unat b div 128 = 1" using unat_bounds(1) [of b] by (intro div_nat_eqI) auto
    with True show ?thesis by simp
  qed simp
  finally show ?thesis .
qed

lemma nat_top_bit: "t < 256 \<Longrightarrow> (t AND 0x80 \<noteq> 0) = (128 \<le> t)" for t :: nat
proof -
  assume t: "t < 256"
  have "(t AND 0x80 \<noteq> 0) = odd (t div 128)"
    using and_exp_eq_0_iff_not_bit [of t 7] by (simp add: bit_iff_odd)
  also have "\<dots> = (128 \<le> t)"
  proof (cases "128 \<le> t")
    case True
    then have "t div 128 = 1" using t by (intro div_nat_eqI) auto
    with True show ?thesis by simp
  qed simp
  finally show ?thesis .
qed

lemma nat_set_top_bit: "t < 128 \<Longrightarrow> t OR 0x80 = t + 128" for t :: nat
proof -
  assume t: "t < 128"
  then have "\<not> bit t 7" by (simp add: bit_iff_odd)
  then have "t AND 0x80 = 0" using and_exp_eq_0_iff_not_bit [of t 7] by simp
  then show ?thesis by (simp add: disjunctive_add_eq_or)
qed

lemma build_scriptint_bytes:
  assumes "n \<noteq> 0" "n \<noteq> - (2 ^ 63)"
  obtains k t where "t = nat \<bar>n\<bar> div 256 ^ k" "t < 256" "0 < k \<longrightarrow> 0 < t"
    "build_scriptint n = (Inr (nat_to_le k (nat \<bar>n\<bar>) @
       (if 128 \<le> t then [of_nat t, if n < 0 then 0x80 else 0]
        else [of_nat (t + (if n < 0 then 128 else 0))])) :: 'e fault + bytes)"
proof -
  define a where "a = nat \<bar>n\<bar>"
  obtain k where k: "scriptint_loop a [] = (nat_to_le k a, a div 256 ^ k)"
    "a div 256 ^ k < 256" "0 < k \<longrightarrow> 0 < a div 256 ^ k"
    using scriptint_loop_eq [of a "[]"] by auto
  obtain t where t: "t = a div 256 ^ k" by simp
  have "build_scriptint n = (Inr (nat_to_le k a @
       (if 128 \<le> t then [of_nat t, if n < 0 then 0x80 else 0]
        else [of_nat (t + (if n < 0 then 128 else 0))])) :: 'e fault + bytes)"
    using assms k nat_top_bit [of t] nat_set_top_bit [of t]
    by (simp add: build_scriptint_def flip: a_def t)
  with k(2,3) t that show ?thesis by (auto simp: a_def)
qed

text \<open>A number of at most four bytes reads back as the value of its bytes, less the sign bit.\<close>

lemma read_scriptint_short:
  assumes "v \<noteq> []" "length v \<le> 4"
  shows "read_scriptint v =
     Inr (if 128 \<le> unat (last v) then - (int (le_to_nat v) mod 2 ^ (8 * length v - 1)) else int (le_to_nat v))"
  using assms by (simp add: read_scriptint_def read_scriptint_fold byte_top_bit take_bit_eq_mod)

lemma unat_0x80: "unat (0x80 :: u8) = 128"
  by code_simp

lemma scriptint_value:
  assumes "t = a div 256 ^ k" "t < 256"
  shows "le_to_nat (nat_to_le k a @ (if 128 \<le> t then [of_nat t, if neg then 0x80 else 0]
      else [of_nat (t + (if neg then 128 else 0))])) =
    a + (if neg then 2 ^ (8 * (k + (if 128 \<le> t then 2 else 1)) - 1) else 0)"
proof -
  have a: "a mod 256 ^ k + 256 ^ k * t = a" using assms(1) by simp
  have p: "(2::nat) ^ (8 * (k + 2) - 1) = 256 ^ k * 256 * 128" "(2::nat) ^ (8 * (k + 1) - 1) = 256 ^ k * 128"
    by (simp_all add: power_add power_mult)
  show ?thesis
  proof (cases "128 \<le> t")
    case True
    define b where "b = (if neg then 0x80 else 0 :: u8)"
    have "unat b = (if neg then 128 else 0)"
      unfolding b_def by (cases neg) (simp_all only: unat_0x80 if_True if_False unsigned_0)
    with True show ?thesis using assms(2) a p(1)
      by (simp add: le_to_nat_append le_to_nat_to_le unat_of_nat algebra_simps flip: b_def)
  next
    case False
    then have "(t + (if neg then 128 else 0)) mod 256 = t + (if neg then 128 else 0)" by simp
    with False show ?thesis using a p(2)
      by (simp add: le_to_nat_append le_to_nat_to_le unat_of_nat algebra_simps del: of_nat_add)
  qed
qed

lemma scriptint_bounds:
  fixes a t :: nat
  assumes "t = a div 256 ^ k" "t < 256" "0 < k \<longrightarrow> 0 < t"
  defines "len \<equiv> k + (if 128 \<le> t then 2 else 1)"
  shows "a < 2 ^ (8 * len - 1)" "len \<le> 4 \<longleftrightarrow> a < 2 ^ 31"
proof -
  have up: "a < (t + 1) * 256 ^ k" and lo: "t * 256 ^ k \<le> a"
    using assms(1) by (simp_all add: dividend_less_div_times)
  show b: "a < 2 ^ (8 * len - 1)"
  proof -
    have "(t + 1) * 256 ^ k \<le> 2 ^ (8 * len - 1)"
    proof (cases "128 \<le> t")
      case True
      have "(t + 1) * 256 ^ k \<le> 256 * 128 * 256 ^ k" using assms(2) by (intro mult_right_mono) auto
      also have "\<dots> = 2 ^ (8 * len - 1)" using True by (simp add: len_def power_add power_mult)
      finally show ?thesis .
    next
      case False
      then have "(t + 1) * 256 ^ k \<le> 128 * 256 ^ k" by (intro mult_right_mono) auto
      also have "\<dots> = 2 ^ (8 * len - 1)" using False by (simp add: len_def power_add power_mult)
      finally show ?thesis .
    qed
    with up show ?thesis by linarith
  qed
  show "len \<le> 4 \<longleftrightarrow> a < 2 ^ 31"
  proof
    assume "len \<le> 4"
    then have "(2::nat) ^ (8 * len - 1) \<le> 2 ^ 31" by (intro power_increasing) auto
    with b show "a < 2 ^ 31" by linarith
  next
    assume small: "a < 2 ^ 31"
    show "len \<le> 4"
    proof (rule ccontr)
      assume "\<not> len \<le> 4"
      then have "128 * 256 ^ 3 \<le> t * 256 ^ k"
      proof (cases "128 \<le> t")
        case True
        with \<open>\<not> len \<le> 4\<close> have "3 \<le> k" by (simp add: len_def)
        then have "(256::nat) ^ 3 \<le> 256 ^ k" by (intro power_increasing) auto
        with True show ?thesis by (intro mult_mono) auto
      next
        case False
        with \<open>\<not> len \<le> 4\<close> have "4 \<le> k" by (simp add: len_def)
        then have "(256::nat) ^ 4 \<le> 256 ^ k" by (intro power_increasing) auto
        moreover have "1 \<le> t" using assms(3) \<open>4 \<le> k\<close> by simp
        ultimately have "1 * (256::nat) ^ 4 \<le> t * 256 ^ k" by (intro mult_mono) auto
        then show ?thesis by simp
      qed
      with lo small show False by simp
    qed
  qed
qed

lemma last_scriptint:
  assumes "t < 256"
  shows "128 \<le> unat (last (nat_to_le k a @ (if 128 \<le> t then [of_nat t, if neg then 0x80 else 0]
      else [of_nat (t + (if neg then 128 else 0))])) :: u8) \<longleftrightarrow> neg"
  using assms by (auto simp: unat_of_nat unat_0x80 simp del: of_nat_add)

lemma read_build_scriptint:
  assumes "n \<noteq> - (2 ^ 63)"
  shows "\<exists>v. build_scriptint n = (Inr v :: 'e fault + bytes) \<and>
    read_scriptint v = (if \<bar>n\<bar> < 2 ^ 31 then Inr n else Inl NumericOverflow)"
proof (cases "n = 0")
  case False
  from build_scriptint_bytes [OF False assms, where ?'e = 'e] obtain k t where
    t: "t = nat \<bar>n\<bar> div 256 ^ k" "t < 256" "0 < k \<longrightarrow> 0 < t" and
    v: "build_scriptint n = (Inr (nat_to_le k (nat \<bar>n\<bar>) @
       (if 128 \<le> t then [of_nat t, if n < 0 then 0x80 else 0]
        else [of_nat (t + (if n < 0 then 128 else 0))])) :: 'e fault + bytes)" by blast
  define w where "w = nat_to_le k (nat \<bar>n\<bar>) @
       (if 128 \<le> t then [of_nat t, if n < 0 then 0x80 else 0]
        else [of_nat (t + (if n < 0 then 128 else 0)) :: u8])"
  have len: "length w = k + (if 128 \<le> t then 2 else 1)" by (simp add: w_def)
  have ne: "w \<noteq> []" by (simp add: w_def)
  have val: "le_to_nat w = nat \<bar>n\<bar> + (if n < 0 then 2 ^ (8 * length w - 1) else 0)"
    unfolding len unfolding w_def by (rule scriptint_value [OF t(1,2)])
  have sgn: "128 \<le> unat (last w) \<longleftrightarrow> n < 0" unfolding w_def by (rule last_scriptint [OF t(2)])
  have b: "nat \<bar>n\<bar> < 2 ^ (8 * length w - 1)" "length w \<le> 4 \<longleftrightarrow> nat \<bar>n\<bar> < 2 ^ 31"
    using scriptint_bounds [OF t] by (simp_all only: len)
  have "read_scriptint w = (if \<bar>n\<bar> < 2 ^ 31 then Inr n else Inl NumericOverflow)"
  proof (cases "length w \<le> 4")
    case True
    have "int (nat \<bar>n\<bar>) < 2 ^ (8 * length w - 1)" using b(1) by (metis of_nat_less_iff of_nat_numeral of_nat_power)
    then have "int (le_to_nat w) mod 2 ^ (8 * length w - 1) = \<bar>n\<bar>" using val by auto
    with True b(2) ne sgn val show ?thesis by (auto simp: read_scriptint_short nat_less_iff)
  next
    case False
    with b(2) ne show ?thesis by (auto simp: read_scriptint_def nat_less_iff)
  qed
  with v show ?thesis unfolding w_def [symmetric] by blast
qed (simp add: build_scriptint_def read_scriptint_def)

section \<open>Every opcode is classified\<close>

definition classified :: "ClassifyContext \<Rightarrow> opcode \<Rightarrow> bool" where
  "classified ctx op \<longleftrightarrow> (case (classify op ctx :: unit fault + opclass) of Inr _ \<Rightarrow> True | Inl _ \<Rightarrow> False)"

lemma classified_iff: "classified ctx op \<longleftrightarrow> \<not> isl (classify op ctx :: unit fault + opclass)"
  unfolding classified_def by (cases "classify op ctx :: unit fault + opclass") simp_all

lemma uint_byte_bounds: "0 \<le> uint b" "uint b < 256" for b :: u8
  using uint_lt2p [of b] by simp_all

lemma classify_push: "op \<le> OP_PUSHBYTES_75 \<Longrightarrow> classify op Legacy = Inr (PushBytesClass (unat op))"
  by (auto simp: classify_def word_le_def)

lemma byte_cases: "list_all P [0..255] \<Longrightarrow> P (uint b)" for b :: u8
  using uint_byte_bounds [of b] by (simp add: list_all_iff)

lemma classified_Legacy: "classified Legacy op"
proof -
  have "list_all (\<lambda>c. c \<in> set ordinary_opcodes \<or> c = 0x65 \<or> c = 0x66 \<or>
      c \<in> set [0x7e, 0x7f, 0x80, 0x81, 0x83, 0x84, 0x85, 0x86, 0x8d, 0x8e, 0x95, 0x96, 0x97, 0x98, 0x99] \<or>
      c = 0x61 \<or> 0xb0 \<le> c \<and> c \<le> 0xb9 \<or> c = 0x6a \<or> c = 0x50 \<or> c = 0x89 \<or> c = 0x8a \<or> c = 0x62 \<or>
      0xba \<le> c \<or> c = 0x4f \<or> 0x51 \<le> c \<and> c \<le> 0x60 \<or> c \<le> 0x4b) [0..255]" by code_simp
  from byte_cases [OF this, of op] show ?thesis
    by (auto simp: classified_def classify_def try_from_all_def Let_def)
qed

lemma classified_TapScript:
  "classified TapScript op \<longleftrightarrow> \<not> (op = OP_CHECKSIGADD \<or> op = 0xc0 \<or> 0xc4 \<le> op \<and> op \<le> 0xe4)"
proof -
  have "list_all (\<lambda>c. (c = 186 \<or> c = 192 \<or> 196 \<le> c \<and> c \<le> 228) \<longleftrightarrow> \<not> (c \<in> set ordinary_opcodes \<or>
      c = 0x65 \<or> c = 0x66 \<or> c = 0xff \<or>
      c = 80 \<or> c = 98 \<or> 137 \<le> c \<and> c \<le> 138 \<or> 141 \<le> c \<and> c \<le> 142 \<or>
      149 \<le> c \<and> c \<le> 151 \<or> 187 \<le> c \<and> c \<le> 191 \<or> 229 \<le> c \<and> c \<le> 254 \<or>
      c = 0x61 \<or> 0xb0 \<le> c \<and> c \<le> 0xb9 \<or> c = 0x6a \<or> c = 0xae \<or> c = 0xaf \<or>
      c = 0x4f \<or> 0x51 \<le> c \<and> c \<le> 0x60 \<or> c \<le> 0x4b)) [0..255]" by code_simp
  note * = byte_cases [OF this, of op]
  have "classified TapScript op \<longleftrightarrow> \<not> (uint op = 186 \<or> uint op = 192 \<or> 196 \<le> uint op \<and> uint op \<le> 228)"
    unfolding * by (auto simp: classified_def classify_def try_from_all_def Let_def)
  then show ?thesis by (simp add: word_le_def word_uint_eq_iff)
qed

lemma classify_other:
  assumes "OP_PUSHDATA4 < op"
  shows "next_instruction m (op # data) = Some (Inr (Op op), data)"
proof -
  obtain c where c: "(classify op Legacy :: unit fault + opclass) = Inr c"
    using classified_Legacy [of op] by (auto simp: classified_def split: sum.splits)
  have "0x4e < uint op" using assms by (simp add: word_less_def)
  then have "c \<noteq> PushBytesClass n" "c = Ordinary o' \<Longrightarrow> o' = op" for n o'
    using c by (auto simp: classify_def try_from_all_def Let_def split: if_splits)
  with c assms show ?thesis by (cases c) (auto simp: next_instruction_def)
qed

lemma read_uint_eq: "read_uint data sz = (if length data < sz then Inl EarlyEndOfScript
    else Inr (le_to_nat (take sz data)))"
proof -
  have p: "(2 :: nat) ^ (i * 8) = 256 ^ i" for i by (subst mult.commute) (simp add: power_mult)
  have "(\<Sum>(i, item) \<leftarrow> enumerate m xs. push_bit (i * 8) (unat item)) = 256 ^ m * le_to_nat xs"
    for m and xs :: bytes
    by (induction xs arbitrary: m) (simp_all add: push_bit_eq_mult p algebra_simps)
  from this [of 0] show ?thesis by (simp add: read_uint_def)
qed

section \<open>The iterator reads what the builder writes\<close>

definition minimal_data :: "bytes \<Rightarrow> bool" where
  "minimal_data d \<longleftrightarrow> \<not> (length d = 1 \<and> (d ! 0 = 0x81 \<or> 0 < d ! 0 \<and> d ! 0 \<le> 16))"

lemma classify_pushdata:
  "classify OP_PUSHDATA1 Legacy = Inr (Ordinary OP_PUSHDATA1)"
  "classify OP_PUSHDATA2 Legacy = Inr (Ordinary OP_PUSHDATA2)"
  "classify OP_PUSHDATA4 Legacy = Inr (Ordinary OP_PUSHDATA4)"
  by (simp_all add: classify_def try_from_all_def ordinary_opcodes_def Let_def)

lemma next_pushdata_header:
  assumes "length h = k" "le_to_nat h = length d" "least \<le> length d \<or> \<not> m"
  shows "next_pushdata m k least (op # h @ d @ rest) = (Inr (PushBytes d), rest)"
  using assms by (auto simp: next_pushdata_def read_uint_eq)

lemma le_to_nat_4:
  assumes "n < 2 ^ 32"
  shows "le_to_nat [of_nat (n mod 256), of_nat (n div 256 mod 256), of_nat (n div 65536 mod 256),
    of_nat (n div 16777216)] = n"
proof -
  have "n div 16777216 < 256" using assms by (intro less_mult_imp_div_less) simp
  moreover have "n div 65536 = n div 256 div 256" "n div 16777216 = n div 256 div 256 div 256"
    by (simp_all flip: div_mult2_eq)
  moreover have "256 * (m div 256) + m mod 256 = m" for m :: nat by simp
  ultimately show ?thesis by (simp add: unat_of_nat add.commute)
qed

lemma next_instruction_push:
  assumes h: "push_header (length d) = (Inr h :: 'e fault + bytes)" and m: "m \<Longrightarrow> minimal_data d"
  shows "next_instruction m (h @ d @ rest) = Some (Inr (PushBytes d), rest)"
proof -
  consider "length d < 0x4c" "h = [of_nat (length d)]"
    | "\<not> length d < 0x4c" "length d < 0x100" "h = [OP_PUSHDATA1, of_nat (length d)]"
    | "\<not> length d < 0x100" "length d < 0x10000"
        "h = [OP_PUSHDATA2, of_nat (length d mod 0x100), of_nat (length d div 0x100)]"
    | "\<not> length d < 0x10000" "length d < 0x100000000"
        "h = [OP_PUSHDATA4, of_nat (length d mod 0x100), of_nat (length d div 0x100 mod 0x100),
              of_nat (length d div 0x10000 mod 0x100), of_nat (length d div 0x1000000)]"
    using h unfolding push_header_def by (auto split: if_splits)
  then show ?thesis
  proof cases
    case 1
    then have "(of_nat (length d) :: u8) \<le> OP_PUSHBYTES_75" "unat (of_nat (length d) :: u8) = length d"
      by (simp_all add: word_le_nat_alt unat_of_nat)
    with 1 m show ?thesis
      by (auto simp: next_instruction_def classify_push minimal_data_def nth_append)
  next
    case 2
    then have "le_to_nat [of_nat (length d)] = length d" by (simp add: unat_of_nat)
    with 2 show ?thesis
      using next_pushdata_header [of "[of_nat (length d)]" 1 d 76 m OP_PUSHDATA1 rest]
      by (simp add: next_instruction_def classify_pushdata)
  next
    case 3
    then have "le_to_nat [of_nat (length d mod 0x100), of_nat (length d div 0x100)] = length d"
      by (simp add: unat_of_nat)
    with 3 show ?thesis
      using next_pushdata_header [of "[of_nat (length d mod 0x100), of_nat (length d div 0x100)]" 2 d "0x100" m
          OP_PUSHDATA2 rest]
      by (simp add: next_instruction_def classify_pushdata)
  next
    case 4
    let ?n = "[of_nat (length d mod 0x100), of_nat (length d div 0x100 mod 0x100),
              of_nat (length d div 0x10000 mod 0x100), of_nat (length d div 0x1000000)] :: bytes"
    have "le_to_nat ?n = length d" using 4 by (intro le_to_nat_4) simp
    with 4 show ?thesis
      using next_pushdata_header [of ?n 4 d "0x10000" m OP_PUSHDATA4 rest]
      by (simp add: next_instruction_def classify_pushdata)
  qed
qed

lemma next_instruction_append:
  assumes "next_instruction m s = Some (Inr i, rest)"
  shows "next_instruction m (s @ t) = Some (Inr i, rest @ t)"
proof (cases s)
  case (Cons x s')
  have "next_pushdata m k least s = (Inr i, rest) \<Longrightarrow> next_pushdata m k least (s @ t) = (Inr i, rest @ t)"
    for k least
    by (auto simp: next_pushdata_def read_uint_eq Cons split: if_splits)
  with assms Cons show ?thesis
    by (auto simp: next_instruction_def nth_append split: if_splits sum.splits opclass.splits)
qed (use assms in \<open>simp add: next_instruction_def\<close>)

declare instructions.simps [simp del]

lemma instructions_Nil [simp]: "instructions m [] = []"
  by (simp add: instructions.simps next_instruction_def)

lemma instructions_step: "next_instruction m s = Some (r, rest) \<Longrightarrow> instructions m s = r # instructions m rest"
  by (simp add: instructions.simps)

definition parses :: "bool \<Rightarrow> bytes \<Rightarrow> bool" where
  "parses m s \<longleftrightarrow> (\<forall>r \<in> set (instructions m s). \<not> isl r)"

lemma instructions_append: "parses m s \<Longrightarrow> instructions m (s @ t) = instructions m s @ instructions m t"
proof (induction m s rule: instructions.induct)
  case (1 m s)
  show ?case
  proof (cases "next_instruction m s")
    case None
    then show ?thesis by (simp add: next_instruction_def split: if_splits)
  next
    case (Some p)
    obtain r rest where p: "p = (r, rest)" by fastforce
    have eq: "instructions m s = r # instructions m rest" using Some p by (simp add: instructions_step)
    with 1(2) obtain i where i: "r = Inr i" and rest: "parses m rest" by (cases r) (auto simp: parses_def)
    have "instructions m (s @ t) = Inr i # instructions m (rest @ t)"
      using next_instruction_append [of m s i rest t] Some p i by (intro instructions_step) simp
    with 1(1) [OF Some p [symmetric] rest] eq i show ?thesis by simp
  qed
qed

lemma parses_append_one:
  assumes "parses m s" "next_instruction m t = Some (Inr i, [])"
  shows "instructions m (s @ t) = instructions m s @ [Inr i]" "parses m (s @ t)"
  using assms by (simp_all add: instructions_append instructions_step parses_def)

lemma push_header_ok: "n < 2 ^ 32 \<Longrightarrow> \<exists>h. push_header n = (Inr h :: 'e fault + bytes)"
  by (simp add: push_header_def split: if_split)

lemma push_slice_parses:
  assumes "parses m (into_script b)" "length d < 2 ^ 32" "m \<Longrightarrow> minimal_data d"
  obtains b' where "push_slice d b = (Inr b' :: 'e fault + builder)" "parses m (into_script b')"
    "instructions m (into_script b') = instructions m (into_script b) @ [Inr (PushBytes d)]"
proof -
  obtain h where h: "push_header (length d) = (Inr h :: 'e fault + bytes)"
    using push_header_ok [OF assms(2)] by blast
  have n: "next_instruction m (h @ d) = Some (Inr (PushBytes d), [])"
    using next_instruction_push [OF h, of m "[]"] assms(3) by simp
  show ?thesis
    using that [of "(fst b @ h @ d, None)"] parses_append_one [OF _ n] assms(1) h
    by (auto simp: push_slice_def into_script_def)
qed

lemma build_scriptint_minimal:
  assumes "build_scriptint n = (Inr v :: 'e fault + bytes)" "n \<noteq> - 1" "\<not> (1 \<le> n \<and> n \<le> 16)"
  shows "minimal_data v"
proof (rule ccontr)
  assume "\<not> minimal_data v"
  then obtain x where x: "v = [x]" "x = 0x81 \<or> 0 < x \<and> x \<le> 16"
    by (auto simp: minimal_data_def length_Suc_conv)
  have "n \<noteq> - (2 ^ 63)" using assms(1) by (auto simp: build_scriptint_def)
  from read_build_scriptint [OF this, where ?'e = 'e] assms(1) x(1)
  have r: "read_scriptint [x] = (if \<bar>n\<bar> < 2 ^ 31 then Inr n else Inl NumericOverflow)" by simp
  have u: "unat x = 129 \<or> 1 \<le> unat x \<and> unat x \<le> 16"
    using x(2) by (auto simp: word_less_nat_alt word_le_nat_alt)
  have "read_scriptint [x] = Inr (if 128 \<le> unat x then - (int (unat x) mod 2 ^ 7) else int (unat x))"
    by (subst read_scriptint_short) simp_all
  with r u assms(2,3) show False by (auto split: if_splits)
qed

lemma length_build_scriptint:
  assumes "build_scriptint n = (Inr v :: 'e fault + bytes)" "\<bar>n\<bar> < 2 ^ 63"
  shows "length v < 2 ^ 32"
proof (cases "n = 0")
  case False
  have "n \<noteq> - (2 ^ 63)" using assms(2) by simp
  from build_scriptint_bytes [OF False this, where ?'e = 'e] obtain k t where
    t: "t = nat \<bar>n\<bar> div 256 ^ k" "0 < k \<longrightarrow> 0 < t" and
    w: "build_scriptint n = (Inr (nat_to_le k (nat \<bar>n\<bar>) @
       (if 128 \<le> t then [of_nat t, if n < 0 then 0x80 else 0]
        else [of_nat (t + (if n < 0 then 128 else 0))])) :: 'e fault + bytes)" by blast
  have v: "v = nat_to_le k (nat \<bar>n\<bar>) @ (if 128 \<le> t then [of_nat t, if n < 0 then 0x80 else 0]
        else [of_nat (t + (if n < 0 then 128 else 0))])" using assms(1) unfolding w by blast
  have "k < 8"
  proof (rule ccontr)
    assume "\<not> k < 8"
    then have "256 ^ 8 \<le> (256 :: nat) ^ k" by (intro power_increasing) auto
    moreover have "nat \<bar>n\<bar> < 256 ^ 8" using assms(2) by (simp add: nat_less_iff)
    ultimately have "nat \<bar>n\<bar> < 256 ^ k" by linarith
    then have "t = 0" using t(1) by simp
    with t(2) \<open>\<not> k < 8\<close> show False by simp
  qed
  with v show ?thesis by simp
qed (use assms in \<open>simp add: build_scriptint_def\<close>)

lemma push_opcode_parses:
  assumes "parses m (into_script b)" "OP_PUSHDATA4 < c"
  shows "instructions m (into_script (push_opcode c b)) = instructions m (into_script b) @ [Inr (Op c)]"
  using parses_append_one(1) [OF assms(1) classify_other [OF assms(2)]]
  by (simp add: push_opcode_def into_script_def)

text \<open>The instruction that \<open>push_int\<close> adds for a number.\<close>

definition pushes_int :: "int \<Rightarrow> Instruction \<Rightarrow> bool" where
  "pushes_int n i = (case i of
     Op c \<Rightarrow> n \<noteq> 0 \<and> (if n = - 1 then c = OP_PUSHNUM_NEG1 else uint c = 0x50 + n)
   | PushBytes v \<Rightarrow> read_scriptint v = (if \<bar>n\<bar> < 2 ^ 31 then Inr n else Inl NumericOverflow))"

lemma push_int_small:
  assumes "parses m (into_script b)" "n = - 1 \<or> 1 \<le> n \<and> n \<le> 16"
  shows "\<exists>b2 i. push_int n b = (Inr b2 :: 'e fault + builder) \<and> pushes_int n i \<and>
     instructions m (into_script b2) = instructions m (into_script b) @ [Inr i]"
proof -
  define w :: u8 where "w = word_of_int (n - 1 + uint OP_PUSHNUM_1)"
  have w: "uint w = n + 80" unfolding w_def uint_word_of_int using assms(2) by auto
  have "push_int n b = (Inr (push_opcode w b) :: 'e fault + builder)"
    unfolding push_int_def w_def [symmetric] using assms(2) by simp
  moreover have "OP_PUSHDATA4 < w" using w assms(2) by (auto simp: word_less_def)
  moreover have "pushes_int n (Op w)" using w assms(2) by (auto simp: pushes_int_def word_uint_eq_iff)
  ultimately show ?thesis using push_opcode_parses [OF assms(1), of w] by blast
qed

lemma push_int_parses:
  assumes "parses m (into_script b)" "\<bar>n\<bar> < 2 ^ 63"
  shows "\<exists>b2 i. push_int n b = (Inr b2 :: 'e fault + builder) \<and> pushes_int n i \<and>
     instructions m (into_script b2) = instructions m (into_script b) @ [Inr i]"
proof (cases "n = - 1 \<or> 1 \<le> n \<and> n \<le> 16")
  case True
  with assms(1) show ?thesis by (rule push_int_small)
next
  case False
  show ?thesis
  proof (cases "n = 0")
    case True
    have "next_instruction m [0] = Some (Inr (PushBytes []), [])"
      by (simp add: next_instruction_def classify_push)
    from parses_append_one(1) [OF assms(1) this] True show ?thesis
      by (intro exI [of _ "push_opcode 0 b"] exI [of _ "PushBytes []"])
        (simp add: push_int_def push_opcode_def into_script_def read_scriptint_def pushes_int_def)
  next
    case nz: False
    have "n \<noteq> - (2 ^ 63)" using assms(2) by simp
    from read_build_scriptint [OF this, where ?'e = 'e] obtain v where
      v: "build_scriptint n = (Inr v :: 'e fault + bytes)" and
      r: "read_scriptint v = (if \<bar>n\<bar> < 2 ^ 31 then Inr n else Inl NumericOverflow)" by blast
    have "minimal_data v" using build_scriptint_minimal [OF v] False by auto
    from push_slice_parses [OF assms(1) length_build_scriptint [OF v assms(2)] this, where ?'e = 'e]
    obtain b2 where b2: "push_slice v b = (Inr b2 :: 'e fault + builder)"
      "instructions m (into_script b2) = instructions m (into_script b) @ [Inr (PushBytes v)]" by metis
    have "push_int n b = (Inr b2 :: 'e fault + builder)"
      unfolding push_int_def if_not_P [OF False] if_not_P [OF nz] using v b2(1)
      by (simp add: push_scriptint_def)
    with b2(2) r show ?thesis by (intro exI [of _ b2] exI [of _ "PushBytes v"]) (simp add: pushes_int_def)
  qed
qed

section \<open>Properties\<close>

text \<open>C30. Numbers in script format round trip exactly when they fit four bytes: every 64-bit number
  except the least is written, and what is written reads back as the number, or as a numeric
  overflow when its magnitude takes more than 31 bits. Writing the least number panics.\<close>

theorem scriptint_roundtrip:
  "case (build_scriptint n :: 'e fault + bytes) of
     Inr v \<Rightarrow> read_scriptint v = (if \<bar>n\<bar> < 2 ^ 31 then Inr n else Inl NumericOverflow)
   | Inl f \<Rightarrow> n = - (2 ^ 63) \<and> f = Panic ''attempt to negate with overflow''"
proof (cases "n = - (2 ^ 63)")
  case True
  then show ?thesis by (simp add: build_scriptint_def)
next
  case False
  from read_build_scriptint [OF this, where ?'e = 'e] obtain v where
    "build_scriptint n = (Inr v :: 'e fault + bytes)" "read_scriptint v = (if \<bar>n\<bar> < 2 ^ 31 then Inr n else Inl NumericOverflow)"
    by blast
  then show ?thesis by simp
qed

text \<open>C29. The iterator returns what the builder added, one instruction for one addition, also when
  minimal pushes are enforced: data that is not a small number in disguise, every other opcode
  and every integer, which the builder always pushes in minimal form and which reads back.\<close>

theorem builder_instructions:
  assumes "parses m (into_script b)" "length d < 2 ^ 32" "m \<Longrightarrow> minimal_data d" "OP_PUSHDATA4 < op"
    "\<bar>n\<bar> < 2 ^ 63"
  shows "\<exists>b1 b2 i. push_slice d b = (Inr b1 :: 'e fault + builder) \<and> push_int n b = (Inr b2 :: 'e fault + builder) \<and>
     instructions m (into_script b1) = instructions m (into_script b) @ [Inr (PushBytes d)] \<and>
     pushes_int n i \<and> instructions m (into_script b2) = instructions m (into_script b) @ [Inr i] \<and>
     instructions m (into_script (push_opcode op b)) = instructions m (into_script b) @ [Inr (Op op)]"
  using push_slice_parses [OF assms(1-3), where ?'e = 'e] push_int_parses [OF assms(1,5), where ?'e = 'e]
    push_opcode_parses [OF assms(1,4)]
  by metis

theorem builder_instructions_witness:
  "\<exists>b1 b2 i. push_slice [1, 2] Builder_new = (Inr b1 :: unit fault + builder) \<and>
     push_int 1000 Builder_new = (Inr b2 :: unit fault + builder) \<and>
     instructions True (into_script b1) = [Inr (PushBytes [1, 2])] \<and>
     pushes_int 1000 i \<and> instructions True (into_script b2) = [Inr i] \<and>
     instructions True (into_script (push_opcode OP_CHECKSIG Builder_new)) = [Inr (Op OP_CHECKSIG)]"
  using builder_instructions [of True Builder_new "[1, 2]" OP_CHECKSIG 1000, where ?'e = unit]
  by (simp add: Builder_new_def into_script_def parses_def minimal_data_def)

text \<open>C32. In legacy scripts every byte is classified. In the tapscript context classification panics on
  exactly the opcodes that are neither reserved for success nor in the list of ordinary opcodes:
  \<open>OP_CHECKSIGADD\<close>, \<open>0xc0\<close> and the introspection, arithmetic and streaming opcodes of Elements.\<close>

theorem classify_panics:
  "\<not> isl (classify op Legacy :: unit fault + opclass) \<and>
   (isl (classify op TapScript :: unit fault + opclass) \<longleftrightarrow>
     op = OP_CHECKSIGADD \<or> op = 0xc0 \<or> 0xc4 \<le> op \<and> op \<le> 0xe4)"
  using classified_Legacy [of op] classified_TapScript [of op] unfolding classified_iff by blast

text \<open>C33. Iterating over a script ends: every step consumes at least one byte, so there are at most as
  many instructions as bytes, and only the last can be an error.\<close>

theorem instructions_finite:
  "length (instructions m s) \<le> length s \<and> list_all (Not \<circ> isl) (butlast (instructions m s))"
proof (induction m s rule: instructions.induct)
  case (1 m s)
  show ?case
  proof (cases "next_instruction m s")
    case None
    then show ?thesis by (simp add: instructions.simps)
  next
    case (Some p)
    obtain r rest where p: "p = (r, rest)" by fastforce
    have "isl r \<Longrightarrow> rest = []" using Some p
      by (auto simp: next_instruction_def next_pushdata_def split: if_splits sum.splits opclass.splits)
    moreover have "instructions m s = r # instructions m rest" using Some p by (simp add: instructions_step)
    moreover have "length rest < length s" using Some p by (intro next_instruction_shorter) simp
    ultimately show ?thesis using 1 [OF Some p [symmetric]] by (auto simp: comp_def)
  qed
qed

lemma push_slice_short:
  "length d \<le> 75 \<Longrightarrow> push_slice d b = (Inr (fst b @ of_nat (length d) # d, None) :: 'e fault + builder)"
  by (simp add: push_slice_def push_header_def)

lemma list_split_ends:
  assumes "length s = a + n + c"
  shows "s = take a s @ take n (drop a s) @ drop (a + n) s"
  by (metis append_take_drop_id drop_drop add.commute)

lemma is_p2pkh_iff:
  "is_p2pkh s \<longleftrightarrow> (\<exists>h. length h = 20 \<and> s = [OP_DUP, OP_HASH160, 20] @ h @ [OP_EQUALVERIFY, OP_CHECKSIG])"
proof
  assume *: "is_p2pkh s"
  then have len: "length s = 3 + 20 + 2" by (simp add: is_p2pkh_def)
  have "take 3 s = [s ! 0, s ! 1, s ! 2]" "drop 23 s = [s ! 23, s ! 24]"
    using len by (auto simp: list_eq_iff_nth_eq nth_Cons' less_Suc_eq numeral_eq_Suc)
  with * list_split_ends [OF len]
  show "\<exists>h. length h = 20 \<and> s = [OP_DUP, OP_HASH160, 20] @ h @ [OP_EQUALVERIFY, OP_CHECKSIG]"
    by (intro exI [of _ "take 20 (drop 3 s)"]) (simp add: is_p2pkh_def)
qed (auto simp: is_p2pkh_def nth_append)

lemma is_p2sh_iff: "is_p2sh s \<longleftrightarrow> (\<exists>h. length h = 20 \<and> s = [OP_HASH160, 20] @ h @ [OP_EQUAL])"
proof
  assume *: "is_p2sh s"
  then have len: "length s = 2 + 20 + 1" by (simp add: is_p2sh_def)
  have "take 2 s = [s ! 0, s ! 1]" "drop 22 s = [s ! 22]"
    using len by (auto simp: list_eq_iff_nth_eq nth_Cons' less_Suc_eq numeral_eq_Suc)
  with * list_split_ends [OF len] show "\<exists>h. length h = 20 \<and> s = [OP_HASH160, 20] @ h @ [OP_EQUAL]"
    by (intro exI [of _ "take 20 (drop 2 s)"]) (simp add: is_p2sh_def)
qed (auto simp: is_p2sh_def nth_append)

lemma two_byte_prefix: "2 \<le> length s \<Longrightarrow> s = [s ! 0, s ! 1] @ drop 2 s"
  by (cases s; cases "tl s") auto

lemma is_v0_iff:
  "is_v0_p2wpkh s \<longleftrightarrow> (\<exists>h. length h = 20 \<and> s = [0, 20] @ h)"
  "is_v0_p2wsh s \<longleftrightarrow> (\<exists>h. length h = 32 \<and> s = [0, 32] @ h)"
  "is_v1_p2tr s \<longleftrightarrow> (\<exists>h. length h = 32 \<and> s = [OP_PUSHNUM_1, 32] @ h)"
  using two_byte_prefix [of s]
  by (auto simp: is_v0_p2wpkh_def is_v0_p2wsh_def is_v1_p2tr_def intro!: exI [of _ "drop 2 s"])

text \<open>The bytes of a witness program of version \<open>v\<close>.\<close>

definition witness_script :: "u8 \<Rightarrow> bytes \<Rightarrow> bytes" where
  "witness_script v p = (if v = 0 then 0 else v + 0x50) # of_nat (length p) # p"

lemma new_witness_program_eq:
  "v \<le> 16 \<Longrightarrow> length p \<le> 75 \<Longrightarrow> new_witness_program v p = (Inr (witness_script v p) :: 'e fault + bytes)"
  by (auto simp: new_witness_program_def push_slice_short witness_script_def push_opcode_def Builder_new_def
      into_script_def word_gt_0)

lemma unat_of_nat_byte_length: "length p \<le> 40 \<Longrightarrow> unat (of_nat (length p) :: u8) = length p"
  by (simp add: unat_of_nat)

lemma version_op:
  fixes v :: u8
  assumes "1 \<le> v" "v \<le> 16"
  shows "OP_PUSHNUM_1 \<le> v + 0x50" "v + 0x50 \<le> OP_PUSHNUM_16" "v + 0x50 - 0x50 = v" "v \<noteq> 0"
  using assms by (auto simp: word_le_nat_alt unat_word_ariths)

lemma op_version:
  fixes c :: u8
  assumes "OP_PUSHNUM_1 \<le> c" "c \<le> OP_PUSHNUM_16"
  shows "1 \<le> c - 0x50" "c - 0x50 \<le> 16" "c - 0x50 + 0x50 = c"
proof -
  have "unat (c - 0x50) = unat c - 0x50" using assms by (simp add: unat_sub_if' word_le_nat_alt)
  with assms show "1 \<le> c - 0x50" "c - 0x50 \<le> 16" by (auto simp: word_le_nat_alt)
qed simp

lemma is_v1plus_iff:
  "is_v1plus_p2witprog s \<longleftrightarrow> (\<exists>v p. 1 \<le> v \<and> v \<le> 16 \<and> length p \<le> 40 \<and> s = witness_script v p)"
proof
  assume *: "is_v1plus_p2witprog s"
  then have s: "s = [s ! 0, s ! 1] @ drop 2 s" and c: "OP_PUSHNUM_1 \<le> s ! 0" "s ! 0 \<le> OP_PUSHNUM_16"
    and len: "length (drop 2 s) = unat (s ! 1)" "unat (s ! 1) \<le> 40"
    using two_byte_prefix [of s] by (auto simp: is_v1plus_p2witprog_def word_le_nat_alt)
  have "s = witness_script (s ! 0 - 0x50) (drop 2 s)"
    using s op_version [OF c] len(1) by (auto simp: witness_script_def)
  with op_version [OF c] len show "\<exists>v p. 1 \<le> v \<and> v \<le> 16 \<and> length p \<le> 40 \<and> s = witness_script v p"
    by metis
next
  assume "\<exists>v p. 1 \<le> v \<and> v \<le> 16 \<and> length p \<le> 40 \<and> s = witness_script v p"
  then obtain v p where v: "1 \<le> v" "v \<le> 16" and p: "length p \<le> 40" and s: "s = witness_script v p" by blast
  have "(of_nat (length p) :: u8) \<le> 40" using p by (simp add: word_le_nat_alt unat_of_nat_byte_length)
  with version_op [OF v] p s show "is_v1plus_p2witprog s"
    by (simp add: is_v1plus_p2witprog_def witness_script_def unat_of_nat_byte_length)
qed

lemma is_witness_program_iff:
  "is_witness_program s \<longleftrightarrow>
     (\<exists>v p. v \<le> 16 \<and> 2 \<le> length p \<and> length p \<le> 40 \<and> s = witness_script v p)"
proof
  assume *: "is_witness_program s"
  then have s: "s = [s ! 0, s ! 1] @ drop 2 s" and
    c: "s ! 0 = 0 \<or> OP_PUSHNUM_1 \<le> s ! 0 \<and> s ! 0 \<le> OP_PUSHNUM_16"
    and len: "length (drop 2 s) = unat (s ! 1)" "2 \<le> unat (s ! 1)" "unat (s ! 1) \<le> 40"
    using two_byte_prefix [of s] by (auto simp: is_witness_program_def word_le_nat_alt)
  define v where "v = (if s ! 0 = 0 then 0 else s ! 0 - 0x50)"
  have "v \<le> 16" "s = witness_script v (drop 2 s)"
    using s c op_version [of "s ! 0"] len(1) by (auto simp: witness_script_def v_def)
  with len show "\<exists>v p. v \<le> 16 \<and> 2 \<le> length p \<and> length p \<le> 40 \<and> s = witness_script v p" by metis
next
  assume "\<exists>v p. v \<le> 16 \<and> 2 \<le> length p \<and> length p \<le> 40 \<and> s = witness_script v p"
  then obtain v p where v: "v \<le> 16" and p: "2 \<le> length p" "length p \<le> 40" and s: "s = witness_script v p"
    by blast
  have "(of_nat (length p) :: u8) \<le> 40" "2 \<le> (of_nat (length p) :: u8)"
    using p by (simp_all add: word_le_nat_alt unat_of_nat_byte_length)
  moreover have "v \<noteq> 0 \<Longrightarrow> 1 \<le> v" by (simp add: word_le_nat_alt unat_gt_0 Suc_leI)
  ultimately show "is_witness_program s" using version_op [of v] v p s
    by (auto simp: is_witness_program_def witness_script_def unat_of_nat_byte_length)
qed

lemma template_iffs:
  "is_p2pkh s \<longleftrightarrow> (\<exists>h. length h = 20 \<and> new_p2pkh h = (Inr s :: 'e fault + bytes))"
  "is_p2sh s \<longleftrightarrow> (\<exists>h. length h = 20 \<and> new_p2sh h = (Inr s :: 'e fault + bytes))"
  "is_v0_p2wpkh s \<longleftrightarrow> (\<exists>h. length h = 20 \<and> new_v0_wpkh h = (Inr s :: 'e fault + bytes))"
  "is_v0_p2wsh s \<longleftrightarrow> (\<exists>h. length h = 32 \<and> new_v0_wsh h = (Inr s :: 'e fault + bytes))"
  "is_v1_p2tr s \<longleftrightarrow> (\<exists>k. length k = 32 \<and> new_v1_p2tr_tweaked k = (Inr s :: 'e fault + bytes))"
  "is_witness_program s \<longleftrightarrow> (\<exists>v p. v \<le> 16 \<and> 2 \<le> length p \<and> length p \<le> 40 \<and>
     new_witness_program v p = (Inr s :: 'e fault + bytes))"
proof -
  have "new_p2pkh h = (Inr ([OP_DUP, OP_HASH160, 20] @ h @ [OP_EQUALVERIFY, OP_CHECKSIG]) :: 'e fault + bytes)"
    "new_p2sh h = (Inr ([OP_HASH160, 20] @ h @ [OP_EQUAL]) :: 'e fault + bytes)" if "length h = 20" for h
    using that by (simp_all add: new_p2pkh_def new_p2sh_def push_slice_short push_opcode_def Builder_new_def
        into_script_def)
  then show "is_p2pkh s \<longleftrightarrow> (\<exists>h. length h = 20 \<and> new_p2pkh h = (Inr s :: 'e fault + bytes))"
    "is_p2sh s \<longleftrightarrow> (\<exists>h. length h = 20 \<and> new_p2sh h = (Inr s :: 'e fault + bytes))"
    by (auto simp: is_p2pkh_iff is_p2sh_iff)
  show "is_witness_program s \<longleftrightarrow> (\<exists>v p. v \<le> 16 \<and> 2 \<le> length p \<and> length p \<le> 40 \<and>
     new_witness_program v p = (Inr s :: 'e fault + bytes))"
    unfolding is_witness_program_iff by (intro iff_exI) (auto simp: new_witness_program_eq)
qed (auto simp: is_v0_iff new_v0_wpkh_def new_v0_wsh_def new_v1_p2tr_tweaked_def new_witness_program_eq
    witness_script_def)

text \<open>C31. The predicates on output scripts recognise exactly what the constructors build: pay to public
  key hash, pay to script hash, version 0 programs of 20 and 32 bytes, and witness programs of
  any version with 2 to 40 bytes.\<close>

theorem templates_exact:
  "(is_p2pkh s \<longleftrightarrow> (\<exists>h. length h = 20 \<and> new_p2pkh h = (Inr s :: 'e fault + bytes))) \<and>
   (is_p2sh s \<longleftrightarrow> (\<exists>h. length h = 20 \<and> new_p2sh h = (Inr s :: 'e fault + bytes))) \<and>
   (is_v0_p2wpkh s \<longleftrightarrow> (\<exists>h. length h = 20 \<and> new_v0_wpkh h = (Inr s :: 'e fault + bytes))) \<and>
   (is_v0_p2wsh s \<longleftrightarrow> (\<exists>h. length h = 32 \<and> new_v0_wsh h = (Inr s :: 'e fault + bytes))) \<and>
   (is_v1_p2tr s \<longleftrightarrow> (\<exists>k. length k = 32 \<and> new_v1_p2tr_tweaked k = (Inr s :: 'e fault + bytes))) \<and>
   (is_witness_program s \<longleftrightarrow> (\<exists>v p. v \<le> 16 \<and> 2 \<le> length p \<and> length p \<le> 40 \<and>
      new_witness_program v p = (Inr s :: 'e fault + bytes)))"
  by (intro conjI; rule template_iffs)

end
