(* ===== verification/Address.thy ===== *)
theory Address
  imports Script
begin

text \<open>
  Addresses (\<^verbatim>\<open>rust-elements/src/address.rs\<close>) and the decoder of blinded segwit text
  (\<^verbatim>\<open>rust-elements/src/blech32\<close>): the two-way conversion between addresses and output scripts, and
  the text form with its parser.

  The crates that the code calls are parameters, gathered in two records. \<open>base58\<close> is the
  checksummed base58 codec, the unblinded segwit decoder and the test of public keys;
  \<open>bech32\<close> is the alphabet of field elements, the conversion between bytes and field
  elements and the two checksums of blinded addresses. A witness version, a field element of the
  bech32 alphabet, is its number. Text is ASCII.
\<close>

section \<open>Addresses and output scripts\<close>

record AddressParams =
  p2pkh_prefix :: u8
  p2sh_prefix :: u8
  blinded_prefix :: u8
  bech_hrp :: string
  blech_hrp :: string

definition LIQUID :: AddressParams where
  "LIQUID = \<lparr>p2pkh_prefix = 57, p2sh_prefix = 39, blinded_prefix = 12, bech_hrp = ''ex'', blech_hrp = ''lq''\<rparr>"

definition ELEMENTS :: AddressParams where
  "ELEMENTS = \<lparr>p2pkh_prefix = 235, p2sh_prefix = 75, blinded_prefix = 4, bech_hrp = ''ert'', blech_hrp = ''el''\<rparr>"

definition LIQUID_TESTNET :: AddressParams where
  "LIQUID_TESTNET =
     \<lparr>p2pkh_prefix = 36, p2sh_prefix = 19, blinded_prefix = 23, bech_hrp = ''tex'', blech_hrp = ''tlq''\<rparr>"

definition SEQUENTIA_TESTNET :: AddressParams where
  "SEQUENTIA_TESTNET =
     \<lparr>p2pkh_prefix = 111, p2sh_prefix = 196, blinded_prefix = 70, bech_hrp = ''tb'', blech_hrp = ''tsqb''\<rparr>"

datatype Payload =
    PubkeyHash bytes
  | ScriptHash bytes
  | WitnessProgram u8 bytes

record Address =
  ad_params :: AddressParams
  ad_payload :: Payload
  ad_blinding_pubkey :: "bytes option"

definition is_blinded :: "Address \<Rightarrow> bool" where
  "is_blinded a \<longleftrightarrow> ad_blinding_pubkey a \<noteq> None"

definition is_liquid :: "Address \<Rightarrow> bool" where
  "is_liquid a \<longleftrightarrow> ad_params a = LIQUID"

definition from_script :: "bytes \<Rightarrow> bytes option \<Rightarrow> AddressParams \<Rightarrow> Address option" where
  "from_script s blinder params =
     map_option (\<lambda>payload. \<lparr>ad_params = params, ad_payload = payload, ad_blinding_pubkey = blinder\<rparr>)
       (if is_p2pkh s then Some (PubkeyHash (take 20 (drop 3 s)))
        else if is_p2sh s then Some (ScriptHash (take 20 (drop 2 s)))
        else if is_v0_p2wpkh s then Some (WitnessProgram 0 (take 20 (drop 2 s)))
        else if is_v0_p2wsh s then Some (WitnessProgram 0 (take 32 (drop 2 s)))
        else if is_v1plus_p2witprog s then Some (WitnessProgram (s ! 0 - 0x50) (drop 2 s))
        else None)"

definition Address_script_pubkey :: "Address \<Rightarrow> 'e fault + bytes" where
  "Address_script_pubkey a =
     (case ad_payload a of
        PubkeyHash h \<Rightarrow>
          rbind (push_slice h (push_opcode OP_HASH160 (push_opcode OP_DUP Builder_new))) (\<lambda>b.
          Inr (into_script (push_opcode OP_CHECKSIG (push_opcode OP_EQUALVERIFY b))))
      | ScriptHash h \<Rightarrow>
          rbind (push_slice h (push_opcode OP_HASH160 Builder_new)) (\<lambda>b.
          Inr (into_script (push_opcode OP_EQUAL b)))
      | WitnessProgram witver witprog \<Rightarrow>
          rbind (push_int (uint witver) Builder_new) (\<lambda>b.
          rbind (push_slice witprog b) (\<lambda>b. Inr (into_script b))))"

definition to_unconfidential :: "Address \<Rightarrow> Address" where
  "to_unconfidential a = \<lparr>ad_params = ad_params a, ad_payload = ad_payload a, ad_blinding_pubkey = None\<rparr>"

definition to_confidential :: "Address \<Rightarrow> bytes \<Rightarrow> Address" where
  "to_confidential a pk = \<lparr>ad_params = ad_params a, ad_payload = ad_payload a, ad_blinding_pubkey = Some pk\<rparr>"

section \<open>Text of blinded segwit addresses\<close>

datatype checksum_alg = Blech32 | Blech32m

record bech32 =
  fe_from_char :: "char \<Rightarrow> u8 option"
  fe_to_char :: "u8 \<Rightarrow> char"
  hrp_parse :: "string \<Rightarrow> string + string"
  fes_to_bytes :: "u8 list \<Rightarrow> bytes"
  bytes_to_fes :: "bytes \<Rightarrow> u8 list"
  valid_residue :: "checksum_alg \<Rightarrow> string \<Rightarrow> u8 list \<Rightarrow> bool"
  checksum_fes :: "checksum_alg \<Rightarrow> string \<Rightarrow> u8 list \<Rightarrow> u8 list"

datatype blech32_error =
    InvalidChar char
  | MixedCase
  | MissingSeparator
  | InvalidHrp string
  | InvalidChecksumLength
  | InvalidChecksum
  | MissingWitnessVersion
  | InvalidWitnessVersion u8
  | PaddingTooMuch
  | PaddingNonZero
  | WitnessTooShort
  | WitnessTooLong
  | WitnessInvalidSegwitV0

definition CHECKSUM_LENGTH :: nat where "CHECKSUM_LENGTH = 12"

text \<open>The scan from the end: \<open>n\<close> characters are left, \<open>sep\<close> is the position of the separator once found.\<close>

fun check_loop ::
    "bech32 \<Rightarrow> string \<Rightarrow> nat \<Rightarrow> bool \<Rightarrow> bool \<Rightarrow> nat option \<Rightarrow> blech32_error + (bool \<times> bool \<times> nat option)" where
  "check_loop B [] n has_upper has_lower sep = Inr (has_upper, has_lower, sep)"
| "check_loop B (ch # chs) n has_upper has_lower sep =
     (let sep = (if ch = CHR ''1'' \<and> sep = None then Some (n - 1) else sep)
      in if sep = None \<and> fe_from_char B ch = None then Inl (InvalidChar ch)
         else check_loop B chs (n - 1) (has_upper \<or> is_ascii_uppercase ch)
           (has_lower \<or> \<not> is_ascii_uppercase ch \<and> is_ascii_lowercase ch) sep)"

definition check_characters :: "bech32 \<Rightarrow> string \<Rightarrow> blech32_error + nat" where
  "check_characters B s =
     rbind (check_loop B (rev s) (length s) False False None) (\<lambda>(has_upper, has_lower, sep).
     if has_upper \<and> has_lower then Inl MixedCase
     else case sep of Some pos \<Rightarrow> Inr pos | None \<Rightarrow> Inl MissingSeparator)"

definition unchecked_new :: "bech32 \<Rightarrow> string \<Rightarrow> blech32_error + (string \<times> string)" where
  "unchecked_new B s =
     rbind (check_characters B s) (\<lambda>sep_pos.
     rbind (map_err InvalidHrp (hrp_parse B (take sep_pos s))) (\<lambda>hrp.
     Inr (hrp, drop 1 (drop sep_pos s))))"

definition char_fes :: "bech32 \<Rightarrow> string \<Rightarrow> u8 list" where
  "char_fes B = map (\<lambda>c. the (fe_from_char B c))"

definition validate_checksum :: "bech32 \<Rightarrow> checksum_alg \<Rightarrow> string \<Rightarrow> string \<Rightarrow> blech32_error + unit" where
  "validate_checksum B ck hrp data =
     (if length data < CHECKSUM_LENGTH then Inl InvalidChecksumLength
      else if \<not> valid_residue B ck hrp (char_fes B data) then Inl InvalidChecksum
      else Inr ())"

definition remove_checksum :: "string \<Rightarrow> string" where
  "remove_checksum data = take (length data - CHECKSUM_LENGTH) data"

definition validate_padding :: "bech32 \<Rightarrow> string \<Rightarrow> blech32_error + unit" where
  "validate_padding B data =
     (if data = [] then Inr ()
      else let padding_len = length data * 5 mod 8;
               last_byte = last (char_fes B data)
           in if 4 < padding_len then Inl PaddingTooMuch
              else if take_bit padding_len last_byte \<noteq> 0 then Inl PaddingNonZero
              else Inr ())"

definition validate_witness_program_length :: "bech32 \<Rightarrow> u8 \<Rightarrow> string \<Rightarrow> blech32_error + unit" where
  "validate_witness_program_length B witver data =
     (let len = length (fes_to_bytes B (char_fes B data))
      in if len < 2 then Inl WitnessTooShort
         else if 40 + 33 < len then Inl WitnessTooLong
         else if witver = 0 \<and> len \<noteq> 53 \<and> len \<noteq> 65 then Inl WitnessInvalidSegwitV0
         else Inr ())"

text \<open>The decoded text: the prefix, the witness version and the bytes of the program.\<close>

definition validate_segwit :: "bech32 \<Rightarrow> string \<Rightarrow> string \<Rightarrow> blech32_error + (string \<times> u8 \<times> bytes)" where
  "validate_segwit B hrp data =
     (if data = [] then Inl MissingWitnessVersion
      else let witver = the (fe_from_char B (hd data))
           in rbind (validate_padding B (tl data)) (\<lambda>_.
              rbind (validate_witness_program_length B witver (tl data)) (\<lambda>_.
              Inr (hrp, witver, fes_to_bytes B (char_fes B (tl data))))))"

definition blech32_decode :: "bech32 \<Rightarrow> string \<Rightarrow> blech32_error + (string \<times> u8 \<times> bytes)" where
  "blech32_decode B s =
     rbind (unchecked_new B s) (\<lambda>(hrp, data).
     if data = [] then Inl MissingWitnessVersion
     else let witver = the (fe_from_char B (hd data))
          in if 16 < witver then Inl (InvalidWitnessVersion witver)
             else rbind (validate_checksum B (if witver = 0 then Blech32 else Blech32m) hrp data) (\<lambda>_.
                  validate_segwit B hrp (remove_checksum data)))"

text \<open>The variant for old addresses indexes the data without the test for emptiness.\<close>

definition new_bech32 :: "bech32 \<Rightarrow> string \<Rightarrow> blech32_error fault + (string \<times> u8 \<times> bytes)" where
  "new_bech32 B s =
     rbind (map_err Err (unchecked_new B s)) (\<lambda>(hrp, data).
     if data = [] then Inl (Panic ''index out of bounds'')
     else let witver = the (fe_from_char B (hd data))
          in if 16 < witver then Inl (Err (InvalidWitnessVersion witver))
             else rbind (map_err Err (validate_checksum B Blech32 hrp data)) (\<lambda>_.
                  map_err Err (validate_segwit B hrp (remove_checksum data))))"

text \<open>The layout that the encoder of the crate documents.\<close>

definition blech32_encode :: "bech32 \<Rightarrow> checksum_alg \<Rightarrow> string \<Rightarrow> u8 \<Rightarrow> bytes \<Rightarrow> string" where
  "blech32_encode B ck hrp witver bs =
     (let fes = witver # bytes_to_fes B bs
      in hrp @ ''1'' @ map (fe_to_char B) (fes @ checksum_fes B ck hrp fes))"

section \<open>Text of addresses\<close>

record base58 =
  b58_encode :: "bytes \<Rightarrow> string"
  b58_decode :: "string \<Rightarrow> string + bytes"
  segwit_encode :: "string \<Rightarrow> u8 \<Rightarrow> bytes \<Rightarrow> string"
  segwit_decode :: "string \<Rightarrow> string + (u8 \<times> bytes)"
  b58_pubkey_ok :: "bytes \<Rightarrow> bool"

datatype AddressError =
    Base58Error string
  | Bech32Error string
  | Blech32Error blech32_error
  | InvalidAddress string
  | InvalidSegwitV0Encoding
  | InvalidBlindingPubKey
  | InvalidLength nat
  | InvalidAddressVersion u8

definition from_bech32 :: "base58 \<Rightarrow> bech32 \<Rightarrow> string \<Rightarrow> bool \<Rightarrow> AddressParams \<Rightarrow> AddressError + Address" where
  "from_bech32 C B s blinded params =
     (if blinded
      then rbind (map_err Blech32Error (blech32_decode B s)) (\<lambda>(hrp, version, data).
        if length data < 33 then Inl InvalidSegwitV0Encoding
        else if \<not> b58_pubkey_ok C (take 33 data) then Inl InvalidBlindingPubKey
        else Inr \<lparr>ad_params = params, ad_payload = WitnessProgram version (drop 33 data),
                  ad_blinding_pubkey = Some (take 33 data)\<rparr>)
      else rbind (map_err Bech32Error (segwit_decode C s)) (\<lambda>(version, data).
        Inr \<lparr>ad_params = params, ad_payload = WitnessProgram version data, ad_blinding_pubkey = None\<rparr>))"

definition base58_payload :: "AddressParams \<Rightarrow> u8 \<Rightarrow> bytes \<Rightarrow> AddressError + Payload" where
  "base58_payload params prefix hash =
     (if prefix = p2pkh_prefix params then Inr (PubkeyHash hash)
      else if prefix = p2sh_prefix params then Inr (ScriptHash hash)
      else Inl (InvalidAddressVersion prefix))"

definition from_base58 :: "base58 \<Rightarrow> bytes \<Rightarrow> AddressParams \<Rightarrow> AddressError + Address" where
  "from_base58 C data params =
     (case data of
        [] \<Rightarrow> Inl (InvalidLength (length data))
      | blinding_prefix # blinded_data \<Rightarrow>
          rbind
            (if blinding_prefix = blinded_prefix params
             then (case blinded_data of
                 [] \<Rightarrow> Inl (InvalidLength (length data))
               | prefix # pubkey_and_hash \<Rightarrow>
                   if length pubkey_and_hash \<noteq> 53 then Inl (InvalidLength (length data))
                   else if \<not> b58_pubkey_ok C (take 33 pubkey_and_hash) then Inl InvalidBlindingPubKey
                   else Inr (prefix, Some (take 33 pubkey_and_hash), drop 33 pubkey_and_hash))
             else if length blinded_data \<noteq> 20 then Inl (InvalidLength (length data))
             else Inr (blinding_prefix, None, blinded_data))
            (\<lambda>(prefix, blinding_pubkey, hash).
             rbind (base58_payload params prefix hash) (\<lambda>payload.
             Inr \<lparr>ad_params = params, ad_payload = payload, ad_blinding_pubkey = blinding_pubkey\<rparr>)))"

definition find_prefix :: "string \<Rightarrow> string" where
  "find_prefix s = (if CHR ''1'' \<in> set s then rev (tl (dropWhile (\<lambda>c. c \<noteq> CHR ''1'') (rev s))) else s)"

definition match_prefix :: "string \<Rightarrow> string \<Rightarrow> bool" where
  "match_prefix prefix_mixed target \<longleftrightarrow>
     (if length target \<noteq> length prefix_mixed then False
      else list_all2 (\<lambda>lower mixed. to_ascii_lowercase lower = to_ascii_lowercase mixed) target prefix_mixed)"

definition parse_with_params :: "base58 \<Rightarrow> bech32 \<Rightarrow> string \<Rightarrow> AddressParams \<Rightarrow> AddressError + Address" where
  "parse_with_params C B s params =
     (let prefix = find_prefix s;
          b32_ex = match_prefix prefix (bech_hrp params);
          b32_bl = match_prefix prefix (blech_hrp params)
      in if b32_ex \<or> b32_bl then from_bech32 C B s b32_bl params
         else if 150 < length s then Inl (InvalidLength (length s * 11 div 15))
         else rbind (map_err Base58Error (b58_decode C s)) (\<lambda>data. from_base58 C data params))"

fun bech32_net :: "string \<Rightarrow> AddressParams list \<Rightarrow> (bool \<times> AddressParams) option" where
  "bech32_net prefix [] = None"
| "bech32_net prefix (net # nets) =
     (if match_prefix prefix (bech_hrp net) then Some (False, net)
      else if match_prefix prefix (blech_hrp net) then Some (True, net)
      else bech32_net prefix nets)"

fun base58_net :: "u8 \<Rightarrow> AddressParams list \<Rightarrow> AddressParams option" where
  "base58_net p [] = None"
| "base58_net p (net # nets) =
     (if p = p2pkh_prefix net \<or> p = p2sh_prefix net \<or> p = blinded_prefix net then Some net
      else base58_net p nets)"

text \<open>The networks in the order in which the parser tries them, Sequentia first.\<close>

definition net_arr :: "AddressParams list" where
  "net_arr = [SEQUENTIA_TESTNET, LIQUID, ELEMENTS, LIQUID_TESTNET]"

definition Address_from_str :: "base58 \<Rightarrow> bech32 \<Rightarrow> string \<Rightarrow> AddressError + Address" where
  "Address_from_str C B s =
     (case bech32_net (find_prefix s) net_arr of
        Some (blinded, net) \<Rightarrow> from_bech32 C B s blinded net
      | None \<Rightarrow>
          if 150 < length s then Inl (InvalidLength (length s * 11 div 15))
          else rbind (map_err Base58Error (b58_decode C s)) (\<lambda>data.
            if data = [] then Inl (InvalidLength (length data))
            else case base58_net (hd data) net_arr of
                Some net \<Rightarrow> from_base58 C data net
              | None \<Rightarrow> Inl (InvalidAddress s)))"

text \<open>The bytes that the text of a hash address encodes, and the text.\<close>

definition base58_data :: "AddressParams \<Rightarrow> u8 \<Rightarrow> bytes option \<Rightarrow> bytes \<Rightarrow> bytes" where
  "base58_data params prefix blinder hash =
     (case blinder of
        Some pk \<Rightarrow> [blinded_prefix params, prefix] @ pk @ hash
      | None \<Rightarrow> [prefix] @ hash)"

definition Address_display :: "base58 \<Rightarrow> bech32 \<Rightarrow> Address \<Rightarrow> string" where
  "Address_display C B a =
     (case ad_payload a of
        PubkeyHash hash \<Rightarrow>
          b58_encode C (base58_data (ad_params a) (p2pkh_prefix (ad_params a)) (ad_blinding_pubkey a) hash)
      | ScriptHash hash \<Rightarrow>
          b58_encode C (base58_data (ad_params a) (p2sh_prefix (ad_params a)) (ad_blinding_pubkey a) hash)
      | WitnessProgram witver witprog \<Rightarrow>
          (case ad_blinding_pubkey a of
             Some blinder \<Rightarrow>
               blech32_encode B (if witver = 0 then Blech32 else Blech32m) (blech_hrp (ad_params a)) witver
                 (blinder @ witprog)
           | None \<Rightarrow> segwit_encode C (bech_hrp (ad_params a)) witver witprog))"

section \<open>Scripts and addresses\<close>

fun wf_payload :: "Payload \<Rightarrow> bool" where
  "wf_payload (PubkeyHash h) \<longleftrightarrow> length h = 20"
| "wf_payload (ScriptHash h) \<longleftrightarrow> length h = 20"
| "wf_payload (WitnessProgram v p) \<longleftrightarrow>
     (if v = 0 then length p = 20 \<or> length p = 32 else v \<le> 16 \<and> length p \<le> 40)"

lemma push_int_version:
  assumes "v \<le> 16"
  shows "push_int (uint v) Builder_new =
     (Inr ([if v = 0 then 0 else v + 0x50], Some (if v = 0 then 0 else v + 0x50)) :: 'e fault + builder)"
proof (cases "v = 0")
  case False
  then have "uint v \<noteq> 0" by (simp add: word_uint_eq_iff)
  then have "1 \<le> uint v" "uint v \<le> 16" using assms uint_nonnegative [of v]
    by (linarith, simp add: word_le_def)
  moreover have "word_of_int (uint v - 1 + uint OP_PUSHNUM_1) = v + 0x50" by simp
  ultimately show ?thesis using False unfolding push_int_def by (simp add: push_opcode_def Builder_new_def)
qed (simp add: push_int_def push_opcode_def Builder_new_def)

lemma script_of_payload:
  "ad_payload a = PubkeyHash h \<Longrightarrow> length h = 20 \<Longrightarrow>
     Address_script_pubkey a = (Inr ([OP_DUP, OP_HASH160, 20] @ h @ [OP_EQUALVERIFY, OP_CHECKSIG]) :: 'e fault + bytes)"
  "ad_payload a = ScriptHash h \<Longrightarrow> length h = 20 \<Longrightarrow>
     Address_script_pubkey a = (Inr ([OP_HASH160, 20] @ h @ [OP_EQUAL]) :: 'e fault + bytes)"
  "ad_payload a = WitnessProgram v p \<Longrightarrow> v \<le> 16 \<Longrightarrow> length p \<le> 40 \<Longrightarrow>
     Address_script_pubkey a = (Inr (witness_script v p) :: 'e fault + bytes)"
  by (simp_all add: Address_script_pubkey_def push_slice_short push_opcode_def Builder_new_def into_script_def
      push_int_version [unfolded Builder_new_def] witness_script_def)

lemma witness_script_head: "v \<le> 16 \<Longrightarrow> witness_script v p ! 0 \<noteq> OP_DUP \<and> witness_script v p ! 0 \<noteq> OP_HASH160"
proof (cases "v = 0")
  case False
  assume "v \<le> 16"
  moreover have "1 \<le> v" using False by (simp add: word_le_nat_alt unat_gt_0 Suc_leI)
  ultimately have "v + 0x50 \<le> OP_PUSHNUM_16" by (intro version_op)
  with False show ?thesis by (auto simp: witness_script_def)
qed (simp add: witness_script_def)

lemma from_script_of_payload:
  assumes "wf_payload (ad_payload a)" "Address_script_pubkey a = (Inr s :: 'e fault + bytes)"
  shows "from_script s (ad_blinding_pubkey a) (ad_params a) = Some a"
proof (cases "ad_payload a")
  case (PubkeyHash h)
  with assms script_of_payload(1) [of a h, where ?'e = 'e] have h: "length h = 20"
    and s: "s = [OP_DUP, OP_HASH160, 20] @ h @ [OP_EQUALVERIFY, OP_CHECKSIG]" by simp_all
  then have "is_p2pkh s" unfolding is_p2pkh_iff by blast
  with h s PubkeyHash show ?thesis by (simp add: from_script_def)
next
  case (ScriptHash h)
  with assms script_of_payload(2) [of a h, where ?'e = 'e] have h: "length h = 20"
    and s: "s = [OP_HASH160, 20] @ h @ [OP_EQUAL]" by simp_all
  then have "is_p2sh s" unfolding is_p2sh_iff by blast
  moreover have "\<not> is_p2pkh s" using h s by (simp add: is_p2pkh_def)
  ultimately show ?thesis using h s ScriptHash by (simp add: from_script_def)
next
  case (WitnessProgram v p)
  with assms(1) have v: "v \<le> 16" and p: "length p \<le> 40" and w: "v = 0 \<Longrightarrow> length p = 20 \<or> length p = 32"
    by (auto split: if_splits)
  have s: "s = witness_script v p" using assms(2) script_of_payload(3) [OF WitnessProgram v p, where ?'e = 'e] by simp
  have no: "\<not> is_p2pkh s" "\<not> is_p2sh s"
    using witness_script_head [OF v, of p] s by (auto simp: is_p2pkh_def is_p2sh_def)
  show ?thesis
  proof (cases "v = 0")
    case True
    then have "s = [0, of_nat (length p)] @ p" using s by (simp add: witness_script_def)
    with w [OF True] no True WitnessProgram show ?thesis
      by (elim disjE) (simp_all add: from_script_def is_v0_p2wpkh_def is_v0_p2wsh_def)
  next
    case False
    then have one: "1 \<le> v" by (simp add: word_le_nat_alt unat_gt_0 Suc_leI)
    then have "is_v1plus_p2witprog s" using v p s unfolding is_v1plus_iff by blast
    moreover have "s ! 0 = v + 0x50" "drop 2 s = p" using s False by (simp_all add: witness_script_def)
    moreover have "v + 0x50 \<noteq> 0" using version_op(1) [OF one v] by auto
    ultimately show ?thesis using no WitnessProgram by (simp add: from_script_def is_v0_p2wpkh_def is_v0_p2wsh_def)
  qed
qed

lemma from_script_payload:
  assumes "from_script s blinder params = Some a"
  shows "ad_params a = params \<and> ad_blinding_pubkey a = blinder \<and> wf_payload (ad_payload a) \<and>
    Address_script_pubkey a = (Inr s :: 'e fault + bytes)"
proof -
  have *: "ad_params a = params" "ad_blinding_pubkey a = blinder"
    using assms by (auto simp: from_script_def split: if_splits)
  consider "is_p2pkh s" "ad_payload a = PubkeyHash (take 20 (drop 3 s))"
    | "is_p2sh s" "ad_payload a = ScriptHash (take 20 (drop 2 s))"
    | "is_v0_p2wpkh s" "ad_payload a = WitnessProgram 0 (take 20 (drop 2 s))"
    | "is_v0_p2wsh s" "ad_payload a = WitnessProgram 0 (take 32 (drop 2 s))"
    | "is_v1plus_p2witprog s" "ad_payload a = WitnessProgram (s ! 0 - 0x50) (drop 2 s)"
    using assms by (auto simp: from_script_def split: if_splits)
  then have "wf_payload (ad_payload a) \<and> Address_script_pubkey a = (Inr s :: 'e fault + bytes)"
  proof cases
    case 5
    then obtain v p where v: "1 \<le> v" "v \<le> 16" "length p \<le> 40" and s: "s = witness_script v p"
      unfolding is_v1plus_iff by blast
    have "s ! 0 - 0x50 = v" "drop 2 s = p" "v \<noteq> 0"
      using s version_op(3,4) [OF v(1,2)] by (simp_all add: witness_script_def)
    with 5 v s script_of_payload(3) [of a v p, where ?'e = 'e] show ?thesis by simp
  qed (auto simp: is_p2pkh_iff is_p2sh_iff is_v0_iff script_of_payload [where ?'e = 'e] witness_script_def)
  with * show ?thesis by blast
qed

text \<open>C34. An output script has an address exactly when it is the script of a well-formed payload, and then
  the address is the one with that script: the conversions are inverse to each other. The
  programs of versions 1 to 16 include those of fewer than two bytes.\<close>

theorem from_script_iff:
  "from_script s blinder params = Some a \<longleftrightarrow>
     ad_params a = params \<and> ad_blinding_pubkey a = blinder \<and> wf_payload (ad_payload a) \<and>
     Address_script_pubkey a = (Inr s :: 'e fault + bytes)"
  using from_script_payload [of s blinder params a, where ?'e = 'e] from_script_of_payload [of a s, where ?'e = 'e]
  by auto

section \<open>Parsed addresses are well formed\<close>

definition segwit_ok :: "base58 \<Rightarrow> bool" where
  "segwit_ok C \<longleftrightarrow> (\<forall>s v p. segwit_decode C s = Inr (v, p) \<longrightarrow>
     v \<le> 16 \<and> 2 \<le> length p \<and> length p \<le> 40 \<and> (v = 0 \<longrightarrow> length p = 20 \<or> length p = 32))"

lemma blech32_decode_bounds:
  "blech32_decode B s = Inr (hrp, v, bs) \<Longrightarrow>
     v \<le> 16 \<and> length bs \<le> 73 \<and> (v = 0 \<longrightarrow> length bs = 53 \<or> length bs = 65)"
  by (auto simp: blech32_decode_def validate_segwit_def validate_witness_program_length_def Let_def
      remove_checksum_def rbind_eq_Inr split: if_splits)

lemma from_bech32_wf:
  assumes "segwit_ok C" "from_bech32 C B s blinded params = Inr a"
  shows "wf_payload (ad_payload a) \<and> ad_params a = params \<and>
    pred_option (\<lambda>pk. length pk = 33 \<and> b58_pubkey_ok C pk) (ad_blinding_pubkey a)"
proof (cases blinded)
  case True
  with assms(2) obtain hrp v bs where d: "blech32_decode B s = Inr (hrp, v, bs)" and len: "33 \<le> length bs"
    and pk: "b58_pubkey_ok C (take 33 bs)"
    and a: "a = \<lparr>ad_params = params, ad_payload = WitnessProgram v (drop 33 bs), ad_blinding_pubkey = Some (take 33 bs)\<rparr>"
    by (auto simp: from_bech32_def rbind_eq_Inr split: if_splits)
  with blech32_decode_bounds [OF d] show ?thesis by auto
next
  case False
  with assms show ?thesis by (fastforce simp: from_bech32_def rbind_eq_Inr segwit_ok_def)
qed

lemma from_base58_wf:
  assumes "from_base58 C data params = Inr a"
  shows "wf_payload (ad_payload a) \<and> ad_params a = params \<and>
    pred_option (\<lambda>pk. length pk = 33 \<and> b58_pubkey_ok C pk) (ad_blinding_pubkey a)"
  using assms
  by (auto simp: from_base58_def base58_payload_def rbind_eq_Inr split: list.splits if_splits)

lemma bech32_net_in: "bech32_net prefix nets = Some (b, net) \<Longrightarrow> net \<in> set nets"
  by (induction nets) (auto split: if_splits)

lemma base58_net_in: "base58_net p nets = Some net \<Longrightarrow> net \<in> set nets"
  by (induction nets) (auto split: if_splits)

text \<open>C35. Whatever text parses as an address, the address is well formed: its network is one of the known
  ones, hashes have 20 bytes, programs have a version up to 16 and an admissible length, and a
  blinding key is a valid key of 33 bytes. Hence its output script exists and leads back to it.\<close>

theorem Address_from_str_wf:
  assumes "segwit_ok C" "Address_from_str C B s = Inr a"
  shows "wf_payload (ad_payload a) \<and> ad_params a \<in> set net_arr \<and>
    pred_option (\<lambda>pk. length pk = 33 \<and> b58_pubkey_ok C pk) (ad_blinding_pubkey a) \<and>
    (\<exists>script. Address_script_pubkey a = (Inr script :: 'e fault + bytes) \<and>
       from_script script (ad_blinding_pubkey a) (ad_params a) = Some a)"
proof -
  have wf: "wf_payload (ad_payload a) \<and> ad_params a \<in> set net_arr \<and>
    pred_option (\<lambda>pk. length pk = 33 \<and> b58_pubkey_ok C pk) (ad_blinding_pubkey a)"
  proof (cases "bech32_net (find_prefix s) net_arr")
    case None
    with assms(2) show ?thesis
      by (auto simp: Address_from_str_def rbind_eq_Inr dest!: from_base58_wf base58_net_in split: if_splits option.splits)
  next
    case (Some p)
    obtain b net where p: "p = (b, net)" by fastforce
    with Some assms show ?thesis
      using from_bech32_wf [OF assms(1), of B s b net a] bech32_net_in [of "find_prefix s" net_arr b net]
      by (simp add: Address_from_str_def)
  qed
  obtain script where "Address_script_pubkey a = (Inr script :: 'e fault + bytes)"
    using wf script_of_payload [of a, where ?'e = 'e] by (cases "ad_payload a") (auto split: if_splits)
  with wf from_script_of_payload [of a script, where ?'e = 'e] show ?thesis by blast
qed

section \<open>Text round trip\<close>

text \<open>What the crates document: the alphabet of field elements has 32 characters, all lower case or
  digits other than the separator; bytes convert to field elements and back with zero padding;
  the checksum has 12 elements and makes the residue valid; lower-case prefixes parse.\<close>

definition bech32_ok :: "bech32 \<Rightarrow> bool" where
  "bech32_ok B \<longleftrightarrow>
     (\<forall>f < 32. fe_from_char B (fe_to_char B f) = Some f \<and> fe_to_char B f \<noteq> CHR ''1'' \<and>
        \<not> is_ascii_uppercase (fe_to_char B f)) \<and>
     (\<forall>bs. fes_to_bytes B (bytes_to_fes B bs) = bs \<and> (\<forall>f \<in> set (bytes_to_fes B bs). f < 32) \<and>
        length (bytes_to_fes B bs) * 5 mod 8 \<le> 4 \<and>
        (bs \<noteq> [] \<longrightarrow> take_bit (length (bytes_to_fes B bs) * 5 mod 8) (last (bytes_to_fes B bs)) = 0)) \<and>
     (\<forall>ck hrp fes. length (checksum_fes B ck hrp fes) = CHECKSUM_LENGTH \<and>
        (\<forall>f \<in> set (checksum_fes B ck hrp fes). f < 32) \<and>
        valid_residue B ck hrp (fes @ checksum_fes B ck hrp fes)) \<and>
     (\<forall>net \<in> set net_arr. hrp_parse B (blech_hrp net) = Inr (blech_hrp net))"

definition base58_ok :: "base58 \<Rightarrow> bool" where
  "base58_ok C \<longleftrightarrow>
     (\<forall>d. b58_decode C (b58_encode C d) = Inr d \<and> (length d \<le> 55 \<longrightarrow> length (b58_encode C d) \<le> 150)) \<and>
     (\<forall>hrp v p. v \<le> 16 \<longrightarrow> 2 \<le> length p \<longrightarrow> length p \<le> 40 \<longrightarrow> (v = 0 \<longrightarrow> length p = 20 \<or> length p = 32) \<longrightarrow>
        segwit_decode C (segwit_encode C hrp v p) = Inr (v, p) \<and>
        find_prefix (segwit_encode C hrp v p) = hrp)"

lemma check_loop_data:
  assumes "\<forall>c \<in> set cs. fe_from_char B c \<noteq> None \<and> c \<noteq> CHR ''1'' \<and> \<not> is_ascii_uppercase c"
  shows "check_loop B (cs @ rest) n u l None =
    check_loop B rest (n - length cs) u (l \<or> (\<exists>c \<in> set cs. is_ascii_lowercase c)) None"
  using assms by (induction cs arbitrary: n l) (simp_all add: Let_def disj_assoc del: not_None_eq)

lemma check_loop_found:
  "\<exists>l'. check_loop B cs n u l (Some p) = Inr (u \<or> (\<exists>c \<in> set cs. is_ascii_uppercase c), l', Some p)"
proof (induction cs arbitrary: n u l)
  case (Cons c cs)
  from Cons [of "n - 1" "u \<or> is_ascii_uppercase c" "l \<or> \<not> is_ascii_uppercase c \<and> is_ascii_lowercase c"]
  show ?case by (auto simp: Let_def)
qed simp

lemma check_characters_layout:
  assumes "\<forall>c \<in> set data. fe_from_char B c \<noteq> None \<and> c \<noteq> CHR ''1'' \<and> \<not> is_ascii_uppercase c"
    "\<forall>c \<in> set hrp. \<not> is_ascii_uppercase c"
  shows "check_characters B (hrp @ ''1'' @ data) = Inr (length hrp)"
proof -
  let ?s = "hrp @ ''1'' @ data"
  obtain l where "check_loop B (rev ?s) (length ?s) False False None =
      check_loop B (CHR ''1'' # rev hrp) (length hrp + 1) False l None"
    using check_loop_data [of "rev data" B "CHR ''1'' # rev hrp" "length ?s" False False] assms(1) by simp
  moreover obtain l' where "check_loop B (CHR ''1'' # rev hrp) (length hrp + 1) False l None =
      Inr (False, l', Some (length hrp))"
    using check_loop_found [of B "rev hrp" "length hrp" "is_ascii_uppercase CHR ''1''"
        "l \<or> \<not> is_ascii_uppercase CHR ''1'' \<and> is_ascii_lowercase CHR ''1''" "length hrp"] assms(2)
    by (auto simp: Let_def is_ascii_uppercase_def)
  ultimately show ?thesis by (simp add: check_characters_def)
qed

lemma blech32_roundtrip:
  assumes B: "bech32_ok B" and hrp: "hrp_parse B hrp = Inr hrp" "\<forall>c \<in> set hrp. \<not> is_ascii_uppercase c"
    and v: "v \<le> 16" and bs: "2 \<le> length bs" "length bs \<le> 73" "v = 0 \<Longrightarrow> length bs = 53 \<or> length bs = 65"
  shows "blech32_decode B (blech32_encode B (if v = 0 then Blech32 else Blech32m) hrp v bs) = Inr (hrp, v, bs)"
proof -
  define ck where "ck = (if v = 0 then Blech32 else Blech32m)"
  define fes where "fes = bytes_to_fes B bs"
  define cks where "cks = checksum_fes B ck hrp (v # fes)"
  define data where "data = map (fe_to_char B) (v # fes @ cks)"
  have v32: "v < 32" using v by (simp add: word_le_nat_alt word_less_nat_alt)
  have "bs \<noteq> []" using bs(1) by auto
  with B have fes: "\<forall>f \<in> set fes. f < 32" "fes_to_bytes B fes = bs" "length fes * 5 mod 8 \<le> 4"
    "take_bit (length fes * 5 mod 8) (last fes) = 0"
    unfolding fes_def bech32_ok_def by blast+
  have cks: "length cks = CHECKSUM_LENGTH" "\<forall>f \<in> set cks. f < 32" "valid_residue B ck hrp ((v # fes) @ cks)"
    using B unfolding cks_def bech32_ok_def by blast+
  have chars: "fe_from_char B (fe_to_char B f) = Some f" "fe_to_char B f \<noteq> CHR ''1''"
    "\<not> is_ascii_uppercase (fe_to_char B f)" if "f < 32" for f
    using B that unfolding bech32_ok_def by blast+
  have cf: "char_fes B (map (fe_to_char B) xs) = xs" if "\<forall>f \<in> set xs. f < 32" for xs
    using that chars(1) by (induction xs) (auto simp: char_fes_def)
  have "\<forall>c \<in> set data. fe_from_char B c \<noteq> None \<and> c \<noteq> CHR ''1'' \<and> \<not> is_ascii_uppercase c"
    using v32 fes(1) cks(2) chars unfolding data_def by auto
  then have "unchecked_new B (hrp @ ''1'' @ data) = Inr (hrp, data)"
    using check_characters_layout [OF _ hrp(2)] hrp(1) by (simp add: unchecked_new_def)
  moreover have "validate_checksum B ck hrp data = Inr ()"
    using cf [of "v # fes @ cks"] v32 fes(1) cks unfolding data_def
    by (simp add: validate_checksum_def ball_Un)
  moreover have "remove_checksum data = map (fe_to_char B) (v # fes)"
    using cks(1) by (simp add: remove_checksum_def data_def)
  moreover have "validate_segwit B hrp (map (fe_to_char B) (v # fes)) = Inr (hrp, v, bs)"
  proof -
    have "validate_padding B (map (fe_to_char B) fes) = Inr ()"
      using cf [OF fes(1)] fes by (simp add: validate_padding_def)
    moreover have "validate_witness_program_length B v (map (fe_to_char B) fes) = Inr ()"
      using cf [OF fes(1)] fes(2) bs by (auto simp: validate_witness_program_length_def Let_def)
    ultimately show ?thesis using cf [OF fes(1)] fes(2) chars(1) [OF v32] by (simp add: validate_segwit_def)
  qed
  moreover have "blech32_encode B ck hrp v bs = hrp @ ''1'' @ data"
    by (simp add: blech32_encode_def data_def cks_def fes_def)
  moreover have "the (fe_from_char B (hd data)) = v" "data \<noteq> []" using chars(1) [OF v32] by (simp_all add: data_def)
  moreover have ck: "(if v = 0 then Blech32 else Blech32m) = ck" by (simp add: ck_def)
  ultimately have "blech32_decode B (blech32_encode B ck hrp v bs) = Inr (hrp, v, bs)"
    using v by (simp add: blech32_decode_def Let_def not_less del: if_split)
  then show ?thesis by (simp only: ck)
qed

lemma find_prefix_layout: "CHR ''1'' \<notin> set data \<Longrightarrow> find_prefix (hrp @ ''1'' @ data) = hrp"
  by (simp add: find_prefix_def dropWhile_append)

text \<open>The addresses whose text reads back: well formed, of a known network, with at least two bytes in a
  witness program and a valid blinding key, and the base58 text of a hash address not starting
  like segwit text.\<close>

definition address_ok :: "base58 \<Rightarrow> Address \<Rightarrow> bool" where
  "address_ok C a \<longleftrightarrow>
     wf_payload (ad_payload a) \<and> ad_params a \<in> set net_arr \<and>
     pred_option (\<lambda>pk. length pk = 33 \<and> b58_pubkey_ok C pk) (ad_blinding_pubkey a) \<and>
     (case ad_payload a of
        WitnessProgram v p \<Rightarrow> 2 \<le> length p
      | PubkeyHash h \<Rightarrow> (\<forall>net \<in> set net_arr. \<forall>hrp \<in> {bech_hrp net, blech_hrp net}. \<not> match_prefix
          (find_prefix (b58_encode C (base58_data (ad_params a) (p2pkh_prefix (ad_params a)) (ad_blinding_pubkey a) h))) hrp)
      | ScriptHash h \<Rightarrow> (\<forall>net \<in> set net_arr. \<forall>hrp \<in> {bech_hrp net, blech_hrp net}. \<not> match_prefix
          (find_prefix (b58_encode C (base58_data (ad_params a) (p2sh_prefix (ad_params a)) (ad_blinding_pubkey a) h))) hrp))"

lemmas net_defs = net_arr_def SEQUENTIA_TESTNET_def LIQUID_def ELEMENTS_def LIQUID_TESTNET_def

lemma hrp_lookup:
  assumes "net \<in> set net_arr"
  shows "bech32_net (bech_hrp net) net_arr = Some (False, net)" "bech32_net (blech_hrp net) net_arr = Some (True, net)"
    "match_prefix (bech_hrp net) (bech_hrp net)" "match_prefix (blech_hrp net) (blech_hrp net)"
    "\<not> match_prefix (bech_hrp net) (blech_hrp net)" "\<forall>c \<in> set (blech_hrp net). \<not> is_ascii_uppercase c"
proof -
  have "list_all (\<lambda>net. bech32_net (bech_hrp net) net_arr = Some (False, net) \<and>
      bech32_net (blech_hrp net) net_arr = Some (True, net) \<and>
      match_prefix (bech_hrp net) (bech_hrp net) \<and> match_prefix (blech_hrp net) (blech_hrp net) \<and>
      \<not> match_prefix (bech_hrp net) (blech_hrp net) \<and>
      (\<forall>c \<in> set (blech_hrp net). \<not> is_ascii_uppercase c)) net_arr" by code_simp
  with assms show "bech32_net (bech_hrp net) net_arr = Some (False, net)"
    "bech32_net (blech_hrp net) net_arr = Some (True, net)"
    "match_prefix (bech_hrp net) (bech_hrp net)" "match_prefix (blech_hrp net) (blech_hrp net)"
    "\<not> match_prefix (bech_hrp net) (blech_hrp net)" "\<forall>c \<in> set (blech_hrp net). \<not> is_ascii_uppercase c"
    by (auto simp: list_all_iff)
qed

lemma no_hrp:
  assumes "\<forall>net \<in> set nets. \<forall>hrp \<in> {bech_hrp net, blech_hrp net}. \<not> match_prefix prefix hrp"
  shows "bech32_net prefix nets = None"
  using assms by (induction nets) auto

lemma prefix_lookup:
  assumes "net \<in> set net_arr"
  shows "base58_net (p2pkh_prefix net) net_arr = Some net" "base58_net (p2sh_prefix net) net_arr = Some net"
    "base58_net (blinded_prefix net) net_arr = Some net"
    "p2pkh_prefix net \<noteq> blinded_prefix net" "p2sh_prefix net \<noteq> blinded_prefix net" "p2pkh_prefix net \<noteq> p2sh_prefix net"
proof -
  have "list_all (\<lambda>net. base58_net (p2pkh_prefix net) net_arr = Some net \<and>
      base58_net (p2sh_prefix net) net_arr = Some net \<and> base58_net (blinded_prefix net) net_arr = Some net \<and>
      p2pkh_prefix net \<noteq> blinded_prefix net \<and> p2sh_prefix net \<noteq> blinded_prefix net \<and>
      p2pkh_prefix net \<noteq> p2sh_prefix net) net_arr" by code_simp
  with assms show "base58_net (p2pkh_prefix net) net_arr = Some net" "base58_net (p2sh_prefix net) net_arr = Some net"
    "base58_net (blinded_prefix net) net_arr = Some net"
    "p2pkh_prefix net \<noteq> blinded_prefix net" "p2sh_prefix net \<noteq> blinded_prefix net" "p2pkh_prefix net \<noteq> p2sh_prefix net"
    by (auto simp: list_all_iff)
qed

lemma from_base58_data:
  assumes "net \<in> set net_arr" "length h = 20" "prefix = p2pkh_prefix net \<or> prefix = p2sh_prefix net"
    "pred_option (\<lambda>pk. length pk = 33 \<and> b58_pubkey_ok C pk) blinder"
  shows "from_base58 C (base58_data net prefix blinder h) net =
      Inr \<lparr>ad_params = net, ad_payload = (if prefix = p2pkh_prefix net then PubkeyHash h else ScriptHash h),
           ad_blinding_pubkey = blinder\<rparr>"
    "base58_net (hd (base58_data net prefix blinder h)) net_arr = Some net"
    "base58_data net prefix blinder h \<noteq> []" "length (base58_data net prefix blinder h) \<le> 55"
  using assms prefix_lookup [OF assms(1)]
  by (auto simp: from_base58_def base58_data_def base58_payload_def split: option.splits)

lemma find_prefix_encode:
  assumes "bech32_ok B" "v \<le> 16"
  shows "find_prefix (blech32_encode B ck hrp v bs) = hrp"
proof -
  have "fe_to_char B f \<noteq> CHR ''1''" if "f \<in> set ((v # bytes_to_fes B bs) @ checksum_fes B ck hrp (v # bytes_to_fes B bs))" for f
  proof -
    have "v < 32" using assms(2) by (simp add: word_le_nat_alt word_less_nat_alt)
    with assms(1) that have "f < 32" unfolding bech32_ok_def by (metis Un_iff set_append set_ConsD)
    with assms(1) show ?thesis unfolding bech32_ok_def by blast
  qed
  then have "CHR ''1'' \<notin> set (map (fe_to_char B) ((v # bytes_to_fes B bs) @ checksum_fes B ck hrp (v # bytes_to_fes B bs)))"
    by (metis (no_types, lifting) imageE set_map)
  then show ?thesis unfolding blech32_encode_def Let_def by (rule find_prefix_layout)
qed

lemma hash_text_roundtrip:
  assumes C: "base58_ok C" and net: "net \<in> set net_arr" and h: "length h = 20"
    and prefix: "prefix = p2pkh_prefix net \<or> prefix = p2sh_prefix net"
    and pk: "pred_option (\<lambda>pk. length pk = 33 \<and> b58_pubkey_ok C pk) blinder"
    and no: "\<forall>n \<in> set net_arr. \<forall>hrp \<in> {bech_hrp n, blech_hrp n}.
      \<not> match_prefix (find_prefix (b58_encode C (base58_data net prefix blinder h))) hrp"
  defines "a \<equiv> \<lparr>ad_params = net, ad_payload = (if prefix = p2pkh_prefix net then PubkeyHash h else ScriptHash h),
      ad_blinding_pubkey = blinder\<rparr>" and "s \<equiv> b58_encode C (base58_data net prefix blinder h)"
  shows "Address_from_str C B s = Inr a" "parse_with_params C B s net = Inr a"
proof -
  note d = from_base58_data [OF net h prefix pk]
  have s: "b58_decode C s = Inr (base58_data net prefix blinder h)" "length s \<le> 150"
    using C d(4) unfolding base58_ok_def s_def by blast+
  show "Address_from_str C B s = Inr a"
    using no_hrp [OF no] s d by (simp add: Address_from_str_def a_def flip: s_def)
  show "parse_with_params C B s net = Inr a"
    using no net s d by (simp add: parse_with_params_def a_def flip: s_def)
qed

lemma segwit_text_roundtrip:
  assumes C: "base58_ok C" and B: "bech32_ok B" and net: "net \<in> set net_arr"
    and pk: "pred_option (\<lambda>pk. length pk = 33 \<and> b58_pubkey_ok C pk) blinder"
    and wf: "wf_payload (WitnessProgram v p)" "2 \<le> length p"
  defines "a \<equiv> \<lparr>ad_params = net, ad_payload = WitnessProgram v p, ad_blinding_pubkey = blinder\<rparr>"
  shows "Address_from_str C B (Address_display C B a) = Inr a"
    "parse_with_params C B (Address_display C B a) net = Inr a"
proof -
  have v: "v \<le> 16" and len: "length p \<le> 40" "v = 0 \<Longrightarrow> length p = 20 \<or> length p = 32"
    using wf(1) by (auto split: if_splits)
  let ?s = "Address_display C B a"
  have "find_prefix ?s = (if blinder = None then bech_hrp net else blech_hrp net) \<and>
      from_bech32 C B ?s (blinder \<noteq> None) net = Inr a"
  proof (cases blinder)
    case None
    then have "?s = segwit_encode C (bech_hrp net) v p" by (simp add: Address_display_def a_def)
    moreover have "segwit_decode C (segwit_encode C (bech_hrp net) v p) = Inr (v, p) \<and>
        find_prefix (segwit_encode C (bech_hrp net) v p) = bech_hrp net"
      using C v wf(2) len unfolding base58_ok_def by blast
    ultimately show ?thesis using None by (simp add: from_bech32_def a_def)
  next
    case (Some k)
    with pk have k: "length k = 33" "b58_pubkey_ok C k" by simp_all
    have s: "?s = blech32_encode B (if v = 0 then Blech32 else Blech32m) (blech_hrp net) v (k @ p)"
      using Some by (simp add: Address_display_def a_def)
    have "hrp_parse B (blech_hrp net) = Inr (blech_hrp net)" using B net unfolding bech32_ok_def by blast
    from blech32_roundtrip [OF B this hrp_lookup(6) [OF net] v, of "k @ p"] k len
    have "blech32_decode B ?s = Inr (blech_hrp net, v, k @ p)" unfolding s by auto
    with Some k show ?thesis unfolding s find_prefix_encode [OF B v] by (simp add: from_bech32_def a_def)
  qed
  with hrp_lookup [OF net] show "Address_from_str C B ?s = Inr a" "parse_with_params C B ?s net = Inr a"
    by (auto simp: Address_from_str_def parse_with_params_def split: if_splits)
qed


section \<open>Instances of the crates\<close>

text \<open>An alphabet, a conversion and codecs with which the hypotheses can be evaluated: a byte is written
  as two letters, the halves of a byte as two field elements followed by six zeros, and the
  checksum is constant.\<close>

definition nibble_char :: "nat \<Rightarrow> char" where "nibble_char n = char_of (97 + n)"

fun text_of_bytes :: "bytes \<Rightarrow> string" where
  "text_of_bytes [] = []"
| "text_of_bytes (b # bs) = nibble_char (unat b div 16) # nibble_char (unat b mod 16) # text_of_bytes bs"

fun bytes_of_text :: "string \<Rightarrow> bytes" where
  "bytes_of_text (c # d # cs) = of_nat ((of_char c - 97) * 16 + (of_char d - 97)) # bytes_of_text cs"
| "bytes_of_text _ = []"

fun simple_fes :: "bytes \<Rightarrow> u8 list" where
  "simple_fes [] = []"
| "simple_fes (b # bs) = [of_nat (unat b div 16), of_nat (unat b mod 16), 0, 0, 0, 0, 0, 0] @ simple_fes bs"

fun simple_bytes :: "u8 list \<Rightarrow> bytes" where
  "simple_bytes (x # y # _ # _ # _ # _ # _ # _ # fes) = of_nat (unat x * 16 + unat y) # simple_bytes fes"
| "simple_bytes _ = []"

definition simple_bech32 :: bech32 where
  "simple_bech32 = \<lparr>fe_from_char = (\<lambda>c. if (of_char c :: nat) < 97
       then Some (of_nat (of_char c - 50 + 26)) else Some (of_nat (of_char c - 97))),
     fe_to_char = (\<lambda>f. if unat f < 26 then char_of (97 + unat f) else char_of (50 + (unat f - 26))),
     hrp_parse = Inr, fes_to_bytes = simple_bytes, bytes_to_fes = simple_fes,
     valid_residue = (\<lambda>_ _ _. True), checksum_fes = (\<lambda>_ _ _. replicate 12 0)\<rparr>"

definition simple_base58 :: base58 where
  "simple_base58 = \<lparr>b58_encode = text_of_bytes, b58_decode = (\<lambda>s. Inr (bytes_of_text s)),
     segwit_encode = (\<lambda>hrp v p. hrp @ ''1'' @ text_of_bytes (v # p)),
     segwit_decode = (\<lambda>s. case bytes_of_text (rev (takeWhile (\<lambda>c. c \<noteq> CHR ''1'') (rev s))) of
        v # p \<Rightarrow> if v \<le> 16 \<and> 2 \<le> length p \<and> length p \<le> 40 \<and> (v = 0 \<longrightarrow> length p = 20 \<or> length p = 32)
          then Inr (v, p) else Inl ''invalid witness program''
      | [] \<Rightarrow> Inl ''missing witness version''),
     b58_pubkey_ok = (\<lambda>k. hd k = 2 \<or> hd k = 3)\<rparr>"

lemma of_char_of_small: "n < 256 \<Longrightarrow> (of_char (char_of n :: char) :: nat) = n"
  by simp

lemma nibble_char_props: "n < 16 \<Longrightarrow> of_char (nibble_char n) = 97 + n" "n < 16 \<Longrightarrow> nibble_char n \<noteq> CHR ''1''"
  "n < 16 \<Longrightarrow> CHR ''1'' \<noteq> nibble_char n"
proof -
  assume n: "n < 16"
  then show *: "of_char (nibble_char n) = 97 + n" by (simp add: nibble_char_def)
  show "nibble_char n \<noteq> CHR ''1''"
  proof
    assume "nibble_char n = CHR ''1''"
    then have "of_char (nibble_char n) = (49 :: nat)" by simp
    with * show False by simp
  qed
  then show "CHR ''1'' \<noteq> nibble_char n" by metis
qed

lemma byte_halves: "unat b div 16 < 16" "unat b mod 16 < 16" "of_nat (unat b div 16 * 16 + unat b mod 16) = b"
  for b :: u8
proof -
  show "unat b div 16 < 16" using unat_bounds(1) [of b] by (intro less_mult_imp_div_less) simp
  show "of_nat (unat b div 16 * 16 + unat b mod 16) = b" by (simp only: div_mult_mod_eq unat_eq_nat_uint, simp)
qed simp

lemma text_of_bytes_props:
  "bytes_of_text (text_of_bytes bs) = bs" "CHR ''1'' \<notin> set (text_of_bytes bs)"
  "length (text_of_bytes bs) = 2 * length bs"
  by (induction bs) (auto simp: nibble_char_props byte_halves)

lemma simple_fes_props:
  "simple_bytes (simple_fes bs) = bs" "\<forall>f \<in> set (simple_fes bs). f < 32" "length (simple_fes bs) = 8 * length bs"
proof (induction bs)
  case (Cons b bs)
  have "unat (of_nat (unat b div 16) :: u8) = unat b div 16" "unat (of_nat (unat b mod 16) :: u8) = unat b mod 16"
    using byte_halves [of b] by (simp_all add: unat_of_nat)
  moreover have "(of_nat (unat b div 16) :: u8) < 32" "(of_nat (unat b mod 16) :: u8) < 32"
    using byte_halves [of b] calculation by (simp_all add: word_less_nat_alt)
  ultimately show "simple_bytes (simple_fes (b # bs)) = b # bs" "\<forall>f \<in> set (simple_fes (b # bs)). f < 32"
    "length (simple_fes (b # bs)) = 8 * length (b # bs)"
    using Cons byte_halves(3) [of b] by (simp_all del: of_nat_add of_nat_mult)
qed simp_all

lemma simple_base58_ok: "base58_ok simple_base58" "segwit_ok simple_base58"
proof -
  have "takeWhile (\<lambda>c. c \<noteq> CHR ''1'') (rev (hrp @ ''1'' @ text_of_bytes bs)) = rev (text_of_bytes bs)" for hrp bs
    using text_of_bytes_props(2) [of bs] by (simp add: takeWhile_append takeWhile_eq_all_conv)
  then show "base58_ok simple_base58"
    unfolding base58_ok_def simple_base58_def
    using find_prefix_layout [OF text_of_bytes_props(2)]
    by (simp add: text_of_bytes_props del: text_of_bytes.simps)
  show "segwit_ok simple_base58"
    by (auto simp: segwit_ok_def simple_base58_def split: list.splits if_splits)
qed

lemma simple_bech32_ok: "bech32_ok simple_bech32"
proof -
  have "fe_from_char simple_bech32 (fe_to_char simple_bech32 f) = Some f \<and> fe_to_char simple_bech32 f \<noteq> CHR ''1'' \<and>
      \<not> is_ascii_uppercase (fe_to_char simple_bech32 f)" if "f < 32" for f
  proof -
    define c where "c = fe_to_char simple_bech32 f"
    have "unat f < 32" using that by (simp add: word_less_nat_alt)
    then have c: "(of_char c :: nat) = (if unat f < 26 then 97 + unat f else 24 + unat f)" "unat f < 32"
      by (simp_all add: c_def simple_bech32_def)
    then have "c \<noteq> CHR ''1''" by (auto split: if_splits)
    moreover have "\<not> is_ascii_uppercase c" using c by (simp add: is_ascii_uppercase_def)
    moreover have "fe_from_char simple_bech32 c = Some f" using c by (simp add: simple_bech32_def)
    ultimately show ?thesis by (simp add: c_def)
  qed
  moreover have "length (simple_fes bs) * 5 mod 8 = 0" for bs
    by (simp add: simple_fes_props(3) mult.assoc)
  ultimately show ?thesis
    unfolding bech32_ok_def
    by (simp add: simple_bech32_def simple_fes_props CHECKSUM_LENGTH_def)
qed

definition sample_address :: Address where
  "sample_address = \<lparr>ad_params = SEQUENTIA_TESTNET, ad_payload = WitnessProgram 0 (replicate 20 7),
     ad_blinding_pubkey = Some (2 # replicate 32 5)\<rparr>"

lemma sample_address_ok: "address_ok simple_base58 sample_address"
  by (simp add: address_ok_def sample_address_def net_arr_def simple_base58_def)


theorem Address_from_str_wf_witness:
  "wf_payload (ad_payload sample_address) \<and> ad_params sample_address \<in> set net_arr"
proof -
  have "Address_from_str simple_base58 simple_bech32 (Address_display simple_base58 simple_bech32 sample_address) =
     Inr sample_address"
    by (simp only: sample_address_def)
      (rule segwit_text_roundtrip(1) [OF simple_base58_ok(1) simple_bech32_ok],
        simp_all add: net_arr_def simple_base58_def)
  from Address_from_str_wf [OF simple_base58_ok(2) this, where ?'e = unit] show ?thesis by simp
qed

end
