(* ===== verification/Hex.thy ===== *)
theory Hex
  imports Prelude
begin

text \<open>
  Hexadecimal text (\<^verbatim>\<open>rust-elements/src/hex.rs\<close>): the decoding iterator with its errors, the fixed length
  arrays, and the formatting in direct and reversed order with the width and precision of the
  formatter. Decoding accepts exactly the spellings, in either case, of the text that is printed.
\<close>

section \<open>Decoding\<close>

datatype hex_error = HexInvalidChar u8 | OddLengthString nat | HexInvalidLength nat nat

text \<open>\<open>char::to_digit\<close> in base 16 of the character of a byte.\<close>

definition to_digit :: "char \<Rightarrow> nat option" where
  "to_digit c = (let n = (of_char c :: nat) in
     if 48 \<le> n \<and> n \<le> 57 then Some (n - 48)
     else if 97 \<le> n \<and> n \<le> 102 then Some (n - 87)
     else if 65 \<le> n \<and> n \<le> 70 then Some (n - 55)
     else None)"

definition byte_of_char :: "char \<Rightarrow> u8" where
  "byte_of_char c = of_nat (of_char c)"

definition chars_to_hex :: "char \<Rightarrow> char \<Rightarrow> hex_error + u8" where
  "chars_to_hex hi lo =
     (case to_digit hi of
        None \<Rightarrow> Inl (HexInvalidChar (byte_of_char hi))
      | Some hih \<Rightarrow>
          (case to_digit lo of
             None \<Rightarrow> Inl (HexInvalidChar (byte_of_char lo))
           | Some loh \<Rightarrow> Inr (of_nat (hih * 16 + loh))))"

text \<open>The iterator yields one item for two characters; it is only built on text of even length, where
  the second character is there.\<close>

fun hex_items :: "string \<Rightarrow> (hex_error + u8) list" where
  "hex_items (hi # lo # cs) = chars_to_hex hi lo # hex_items cs"
| "hex_items _ = []"

definition HexIterator_new :: "string \<Rightarrow> hex_error + (hex_error + u8) list" where
  "HexIterator_new s = (if length s mod 2 \<noteq> 0 then Inl (OddLengthString (length s)) else Inr (hex_items s))"

text \<open>Collecting the items stops at the first error.\<close>

fun collect_items :: "(hex_error + u8) list \<Rightarrow> hex_error + bytes" where
  "collect_items [] = Inr []"
| "collect_items (r # rs) = rbind r (\<lambda>b. rbind (collect_items rs) (\<lambda>bs. Inr (b # bs)))"

definition from_hex :: "string \<Rightarrow> hex_error + bytes" where
  "from_hex s = rbind (HexIterator_new s) collect_items"

definition from_hex_array :: "nat \<Rightarrow> string \<Rightarrow> hex_error + bytes" where
  "from_hex_array len s =
     rbind (HexIterator_new s) (\<lambda>iter.
     if length iter = len then collect_items iter
     else Inl (HexInvalidLength (2 * len) (2 * length iter)))"

text \<open>Reading into a buffer of \<open>n\<close> bytes takes items until an error or the end of either.\<close>

fun hex_read :: "nat \<Rightarrow> (hex_error + u8) list \<Rightarrow> bytes" where
  "hex_read (Suc n) (Inr b # items) = b # hex_read n items"
| "hex_read _ _ = []"

section \<open>Printing\<close>

definition hex_digit :: "nat \<Rightarrow> char" where
  "hex_digit n = (if n < 10 then char_of (48 + n) else char_of (87 + n))"

fun to_lower_hex :: "bytes \<Rightarrow> string" where
  "to_lower_hex [] = []"
| "to_lower_hex (b # bs) = hex_digit (unat b div 16) # hex_digit (unat b mod 16) # to_lower_hex bs"

text \<open>The formatter pads with zeros on the left to \<open>width\<close> and cuts the text at \<open>prec\<close> digits.\<close>

definition format_hex :: "nat option \<Rightarrow> nat option \<Rightarrow> bytes \<Rightarrow> string" where
  "format_hex precision width data =
     (let prec = (case precision of Some p \<Rightarrow> p | None \<Rightarrow> 2 * length data);
          width = (case width of Some w \<Rightarrow> w | None \<Rightarrow> 2 * length data)
      in replicate (width - 2 * length data) (CHR ''0'') @ to_lower_hex (take (prec div 2) data) @
         (if prec < 2 * length data \<and> prec mod 2 = 1
          then [hex_digit (unat (data ! (prec div 2)) div 16)] else []))"

definition format_hex_reverse :: "nat option \<Rightarrow> nat option \<Rightarrow> bytes \<Rightarrow> string" where
  "format_hex_reverse precision width data =
     (let prec = (case precision of Some p \<Rightarrow> p | None \<Rightarrow> 2 * length data);
          width = (case width of Some w \<Rightarrow> w | None \<Rightarrow> 2 * length data)
      in replicate (width - 2 * length data) (CHR ''0'') @ to_lower_hex (take (prec div 2) (rev data)) @
         (if prec < 2 * length data \<and> prec mod 2 = 1
          then [hex_digit (unat (data ! (length data - 1 - prec div 2)) div 16)] else []))"

section \<open>Digits\<close>

lemma of_char_hex_digit: "k < 16 \<Longrightarrow> (of_char (hex_digit k) :: nat) = (if k < 10 then 48 + k else 87 + k)"
  by (simp add: hex_digit_def)

lemma hex_digit_inj: "m < 16 \<Longrightarrow> n < 16 \<Longrightarrow> hex_digit m = hex_digit n \<Longrightarrow> m = n"
proof -
  assume a: "m < 16" "n < 16" "hex_digit m = hex_digit n"
  have v: "of_char (hex_digit k) = (if k < 10 then 48 + k else 87 + k)" if "k < 16" for k :: nat
    using that by (simp add: hex_digit_def)
  from a have "(if m < 10 then 48 + m else 87 + m) = (if n < 10 then 48 + n else 87 + n)"
    using v [of m] v [of n] by metis
  with a show "m = n" by (auto split: if_splits)
qed

lemma to_lower_hex_inj: "to_lower_hex a = to_lower_hex b \<longleftrightarrow> a = b"
proof
  show "to_lower_hex a = to_lower_hex b \<Longrightarrow> a = b"
  proof (induction a arbitrary: b)
    case Nil
    then show ?case by (cases b) auto
  next
    case (Cons x a)
    then obtain y c where b: "b = y # c" by (cases b) auto
    have "unat x < 256" "unat y < 256" by (simp_all add: unat_bounds)
    with Cons.prems b have "unat x div 16 = unat y div 16" "unat x mod 16 = unat y mod 16"
      by (auto intro!: hex_digit_inj)
    then have "unat x = unat y" by (metis div_mult_mod_eq)
    then have "x = y" by (simp add: word_eq_iff_unsigned [where 'a = nat])
    with Cons b show ?case by simp
  qed
qed simp

lemma length_to_lower_hex [simp]: "length (to_lower_hex b) = 2 * length b"
  by (induction b) auto

lemma to_digit_hex_digit [simp]: "k < 16 \<Longrightarrow> to_digit (hex_digit k) = Some k"
  by (simp add: to_digit_def of_char_hex_digit)

lemma byte_digits: "unat b div 16 < 16" "unat b mod 16 < 16" "of_nat (unat b div 16 * 16 + unat b mod 16) = b"
  for b :: u8
proof -
  show "unat b div 16 < 16" using unat_bounds(1) [of b] by (intro less_mult_imp_div_less) simp
  show "of_nat (unat b div 16 * 16 + unat b mod 16) = b" by (simp only: div_mult_mod_eq unat_eq_nat_uint, simp)
qed simp

lemma char_eq_iff_code: "(c :: char) = d \<longleftrightarrow> (of_char c :: nat) = of_char d"
  by simp

lemma to_digit_Some:
  assumes "to_digit c = Some k" shows "k < 16" "hex_digit k = to_ascii_lowercase c"
proof -
  show k: "k < 16" using assms by (auto simp: to_digit_def Let_def split: if_splits)
  have "(of_char (hex_digit k) :: nat) = of_char (to_ascii_lowercase c)"
    unfolding of_char_hex_digit [OF k]
    using assms by (auto simp: to_digit_def Let_def to_ascii_lowercase_def is_ascii_uppercase_def split: if_splits)
  then show "hex_digit k = to_ascii_lowercase c" by simp
qed

lemma to_digit_lower: "to_digit (to_ascii_lowercase c) = to_digit c"
  by (auto simp: to_digit_def Let_def to_ascii_lowercase_def is_ascii_uppercase_def)

lemma lower_hex_digit: "k < 16 \<Longrightarrow> to_ascii_lowercase (hex_digit k) = hex_digit k"
  by (metis to_digit_Some(2) to_digit_hex_digit)

lemma chars_to_hex_Inr:
  "chars_to_hex hi lo = Inr b \<longleftrightarrow>
     to_ascii_lowercase hi = hex_digit (unat b div 16) \<and> to_ascii_lowercase lo = hex_digit (unat b mod 16)"
proof
  assume "chars_to_hex hi lo = Inr b"
  then obtain h l where d: "to_digit hi = Some h" "to_digit lo = Some l" and b: "b = of_nat (h * 16 + l)"
    by (auto simp: chars_to_hex_def split: option.splits)
  have hl: "h < 16" "l < 16" using d by (simp_all add: to_digit_Some)
  then have "unat b = h * 16 + l" unfolding b by (simp only: unat_of_nat) simp
  with hl have "unat b div 16 = h" "unat b mod 16 = l" by simp_all
  with d show "to_ascii_lowercase hi = hex_digit (unat b div 16) \<and> to_ascii_lowercase lo = hex_digit (unat b mod 16)"
    by (simp add: to_digit_Some)
next
  assume "to_ascii_lowercase hi = hex_digit (unat b div 16) \<and> to_ascii_lowercase lo = hex_digit (unat b mod 16)"
  then have "to_digit hi = Some (unat b div 16)" "to_digit lo = Some (unat b mod 16)"
    using byte_digits [of b] by (metis to_digit_hex_digit to_digit_lower)+
  then show "chars_to_hex hi lo = Inr b" using byte_digits(3) [of b] by (simp only: chars_to_hex_def option.case)
qed

section \<open>Properties\<close>

lemma collect_hex_items:
  "even (length s) \<Longrightarrow> collect_items (hex_items s) = Inr bs \<longleftrightarrow> map to_ascii_lowercase s = to_lower_hex bs"
proof (induction s arbitrary: bs rule: hex_items.induct)
  case (1 hi lo cs)
  then show ?case
    by (cases bs) (auto simp: rbind_eq_Inr chars_to_hex_Inr)
next
  case "2_1"
  then show ?case by (cases bs) auto
qed simp

lemma from_hex_Inr: "from_hex s = Inr bs \<longleftrightarrow> map to_ascii_lowercase s = to_lower_hex bs"
proof (cases "even (length s)")
  case False
  moreover have "map to_ascii_lowercase s \<noteq> to_lower_hex bs"
    using False by (auto dest: arg_cong [where f = length])
  ultimately show ?thesis by (simp add: from_hex_def HexIterator_new_def odd_iff_mod_2_eq_one)
next
  case True
  then show ?thesis by (simp add: from_hex_def HexIterator_new_def even_iff_mod_2_eq_zero collect_hex_items)
qed

lemma from_hex_printed [simp]: "from_hex (to_lower_hex bs) = Inr bs"
proof -
  have "map to_ascii_lowercase (to_lower_hex bs) = to_lower_hex bs"
    by (induction bs) (use byte_digits in \<open>simp_all add: lower_hex_digit\<close>)
  then show ?thesis by (simp add: from_hex_Inr)
qed

text \<open>Hexadecimal decoding accepts exactly the texts that spell, in either case, the printed form of the
  bytes it returns; in particular it inverts printing. A fixed-length array is read exactly when
  the bytes have that length.\<close>

lemma from_hex_iff:
  "(from_hex s = Inr bs \<longleftrightarrow> map to_ascii_lowercase s = to_lower_hex bs) \<and>
   (from_hex_array n s = Inr bs \<longleftrightarrow> from_hex s = Inr bs \<and> length bs = n) \<and>
   from_hex (format_hex None None bs) = Inr bs \<and>
   from_hex (format_hex_reverse None None bs) = Inr (rev bs)"
proof -
  have coll: "collect_items rs = Inr bs \<Longrightarrow> length bs = length rs" for rs bs
    by (induction rs arbitrary: bs) (auto simp: rbind_eq_Inr)
  have "from_hex_array n s = Inr bs \<longleftrightarrow> from_hex s = Inr bs \<and> length bs = n"
    using coll by (auto simp: from_hex_array_def from_hex_def HexIterator_new_def)
  then show ?thesis by (simp add: from_hex_Inr [symmetric] format_hex_def format_hex_reverse_def)
qed

end
