(* ===== verification/Descriptor.thy ===== *)
theory Descriptor
  imports UpdateCodec Address Hex
begin

text \<open>
  Wallet descriptors (\<^verbatim>\<open>lwk_wollet/src/descriptor.rs\<close>): a confidential output descriptor, or a list of
  output scripts with their blinding keys. The descriptors of the miniscript crate are the type
  variables \<open>'k\<close> (blinding keys), \<open>'d\<close> (descriptors) and \<open>'x\<close> (descriptors at an index), and its
  operations the fields of the record \<open>miniscript\<close>; the predicate \<open>ms_ok\<close> states what the wallet
  relies on. Text is ASCII.
\<close>

section \<open>Errors of the wallet\<close>

text \<open>An error of another crate is carried as its message; the variants of the wrapped errors that no
  modelled operation returns are left out.\<close>

datatype wollet_error =
    Generic string
  | Aes string
  | BlindingBareUnsupported
  | BlindingViewWildcardUnsupported
  | BlindingViewMultiUnsupported
  | BitcoinBIP32Error string
  | JsonFrom string
  | ClientError string
  | ElementsEncode encode_error
  | ElementsHex hex_error
  | ElementsPset string
  | Secp256k1 string
  | ElementsMiniscript string
  | DescConversion string
  | Unblind string
  | NotExplicitAddress
  | NotConfidentialAddress
  | NotConfidentialInput
  | InsufficientFunds u64 AssetId bool
  | MissingIssuance
  | MissingTransaction
  | MissingVin
  | MissingVout
  | InvalidAmount
  | ScriptNotMine
  | InvalidDomain
  | InvalidVersion
  | InvalidPrecision
  | InvalidName
  | InvalidTicker
  | InvalidIssuerPubkey
  | UnsupportedMultipathDescriptor
  | UnsupportedDescriptorPreSegwit
  | UnsupportedDescriptorSegwitUnknownVersion
  | MissingPset
  | MissingPrivateBlindingKey
  | ContractDoesNotCommitToAssetId
  | UpdateHeightTooOld u32 u32
  | UpdateOnDifferentStatus u64 u64
  | IssuanceAlreadySet
  | WaterfallsUnimplemented
  | UsingWaterfallsWithElip151
  | ManualCoinSelectionOnlyLbtc
  | MissingWalletUtxo OutPoint
  | EmptyWitness
  | StoreError string
  | TooManyInputs nat
  | IndexWithoutWildcard
  | InvalidContractForAsset string
  | InvalidIssuanceTxtForAsset string
  | Amp0AddressError
  | UnsupportedWithoutDescriptor
  | InvalidSpkFormat
  | IndexOutOfRange
  | UtxoOnlyIncompatible

section \<open>The miniscript crate\<close>

datatype wildcard = WildcardNone | WildcardUnhardened | WildcardHardened

datatype key_form = XPub | MultiXPub | SinglePub

record DescriptorPublicKey =
  key_form :: key_form
  key_is_main :: bool
  key_wildcard :: wildcard
  key_derivation_path :: "ChildNumber list"
  key_origin :: "(string \<times> ChildNumber list) option"
  full_derivation_path :: "ChildNumber list option"

datatype blinding_kind = Slip77 | Bare | ViewMultiXPrv | ViewXPrv wildcard | ViewSingle

text \<open>\<open>ms_wsh_multi\<close> gives the keys of a descriptor of the shape \<open>elsh(wsh(multi(2, ...)))\<close>.\<close>

record ('k, 'd, 'x) miniscript =
  ms_parse :: "string \<Rightarrow> string + 'k \<times> 'd"
  ms_text :: "'k \<Rightarrow> 'd \<Rightarrow> string"
  ms_desc_text :: "'d \<Rightarrow> string"
  ms_blinding_kind :: "'k \<Rightarrow> blinding_kind"
  ms_is_multipath :: "'d \<Rightarrow> bool"
  ms_into_single :: "'d \<Rightarrow> string + 'd list"
  ms_keys :: "'d \<Rightarrow> DescriptorPublicKey list"
  ms_has_wildcard :: "'d \<Rightarrow> bool"
  ms_is_sh :: "'d \<Rightarrow> bool"
  ms_segwit_version :: "'d \<Rightarrow> nat option"
  ms_wsh_multi :: "'d \<Rightarrow> DescriptorPublicKey list option"
  ms_at_derivation_index :: "'d \<Rightarrow> u32 \<Rightarrow> string + 'x"
  ms_address :: "'k \<Rightarrow> 'x \<Rightarrow> AddressParams \<Rightarrow> string + Address"
  ms_script_pubkey :: "'x \<Rightarrow> Script"
  ms_from_elip151 :: "'d \<Rightarrow> string + 'k"
  ms_blinding_private_key :: "'k \<Rightarrow> Script \<Rightarrow> bytes"
  ms_desc_checksum :: "string \<Rightarrow> string option"

text \<open>Secret keys of the curve library: their text and their public keys.\<close>

record secp =
  sk_from_str :: "string \<Rightarrow> string + bytes"
  sk_display :: "bytes \<Rightarrow> string"
  sk_public_key :: "bytes \<Rightarrow> BlindingPublicKey"

section \<open>Text\<close>

definition split_once :: "char \<Rightarrow> string \<Rightarrow> (string \<times> string) option" where
  "split_once c s =
     (if c \<in> set s then Some (takeWhile (\<lambda>d. d \<noteq> c) s, tl (dropWhile (\<lambda>d. d \<noteq> c) s)) else None)"

fun split_on :: "char \<Rightarrow> string \<Rightarrow> string list" where
  "split_on c [] = [[]]"
| "split_on c (d # s) =
     (if d = c then [] # split_on c s
      else case split_on c s of part # parts \<Rightarrow> (d # part) # parts | [] \<Rightarrow> [[d]])"

fun join :: "string \<Rightarrow> string list \<Rightarrow> string" where
  "join sep [] = []"
| "join sep [p] = p"
| "join sep (p # q # ps) = p @ sep @ join sep (q # ps)"

definition is_whitespace :: "char \<Rightarrow> bool" where
  "is_whitespace c \<longleftrightarrow> (let n = (of_char c :: nat) in 9 \<le> n \<and> n \<le> 13 \<or> n = 32)"

definition trim :: "string \<Rightarrow> string" where
  "trim s = rev (dropWhile is_whitespace (rev (dropWhile is_whitespace s)))"

definition starts_with :: "string \<Rightarrow> string \<Rightarrow> bool" where
  "starts_with p s \<longleftrightarrow> take (length p) s = p"

text \<open>Replacement of the occurrences of a non-empty pattern, from left to right.\<close>

function replace_all :: "string \<Rightarrow> string \<Rightarrow> string \<Rightarrow> string" where
  "replace_all p q [] = []"
| "replace_all p q (c # s) =
     (if p \<noteq> [] \<and> starts_with p (c # s) then q @ replace_all p q (drop (length p) (c # s))
      else c # replace_all p q s)"
  by pat_completeness auto
termination
  by (relation "measure (\<lambda>(p, q, s). length s)") auto

section \<open>Scripts with blinding keys\<close>

record Spk =
  spk_blinding_key :: "bytes option"
  spk_script :: Script

definition Spk_display :: "secp \<Rightarrow> Spk \<Rightarrow> string" where
  "Spk_display S spk =
     (case spk_blinding_key spk of
        Some key \<Rightarrow> sk_display S key @ '':'' @ to_lower_hex (spk_script spk)
      | None \<Rightarrow> '':'' @ to_lower_hex (spk_script spk))"

definition Spk_from_str :: "secp \<Rightarrow> string \<Rightarrow> wollet_error + Spk" where
  "Spk_from_str S s =
     (case split_once (CHR '':'') s of
        None \<Rightarrow> Inl InvalidSpkFormat
      | Some (key_hex, spk_hex) \<Rightarrow>
          rbind (if key_hex = [] then Inr None
                 else rbind (map_err Secp256k1 (sk_from_str S key_hex)) (\<lambda>k. Inr (Some k))) (\<lambda>blinding_key.
          rbind (map_err ElementsHex (from_hex spk_hex)) (\<lambda>script.
          Inr \<lparr>spk_blinding_key = blinding_key, spk_script = script\<rparr>)))"

fun collect_results :: "('e + 'a) list \<Rightarrow> 'e + 'a list" where
  "collect_results [] = Inr []"
| "collect_results (r # rs) = rbind r (\<lambda>x. rbind (collect_results rs) (\<lambda>xs. Inr (x # xs)))"

section \<open>Descriptors\<close>

datatype ('k, 'd) DescOrSpks = Desc 'k 'd | Spks "Spk list"

record ('k, 'd) WolletDescriptor =
  wd_inner :: "('k, 'd) DescOrSpks"
  wd_is_amp0 :: bool

definition WolletDescriptor_display ::
    "('k, 'd, 'x) miniscript \<Rightarrow> secp \<Rightarrow> ('k, 'd) WolletDescriptor \<Rightarrow> string" where
  "WolletDescriptor_display M S w =
     (case wd_inner w of
        Desc k d \<Rightarrow> ms_text M k d
      | Spks spks \<Rightarrow> join '','' (map (Spk_display S) spks))"

definition wd_eq ::
    "('k, 'd, 'x) miniscript \<Rightarrow> secp \<Rightarrow> ('k, 'd) WolletDescriptor \<Rightarrow> ('k, 'd) WolletDescriptor \<Rightarrow> bool" where
  "wd_eq M S a b \<longleftrightarrow> WolletDescriptor_display M S a = WolletDescriptor_display M S b"

definition AMP0_FINGERPRINTS :: "string list" where
  "AMP0_FINGERPRINTS = [''0557d83a'', ''98c379b9'', ''b5281696'']"

definition desc_is_amp0 :: "('k, 'd, 'x) miniscript \<Rightarrow> 'k \<Rightarrow> 'd \<Rightarrow> bool" where
  "desc_is_amp0 M k d \<longleftrightarrow>
     (if ms_blinding_kind M k = Slip77
      then case ms_wsh_multi M d of
          Some [xkey, _] \<Rightarrow>
            if key_form xkey = XPub \<and> key_wildcard xkey = WildcardUnhardened \<and> key_derivation_path xkey = []
            then case key_origin xkey of
                Some (fp, server_path) \<Rightarrow>
                  length server_path = 34 \<and> server_path ! 0 = 3 \<and> fp \<in> set AMP0_FINGERPRINTS
              | None \<Rightarrow> False
            else False
        | _ \<Rightarrow> False
      else False)"

text \<open>The keys of the \<open>i\<close>-th single descriptor must all end in the step \<open>i\<close>.\<close>

definition multipath_step_ok :: "('k, 'd, 'x) miniscript \<Rightarrow> nat \<Rightarrow> 'd \<Rightarrow> bool" where
  "multipath_step_ok M i d \<longleftrightarrow>
     list_all (\<lambda>key. case full_derivation_path key of
         Some path \<Rightarrow> (if path = [] then False else last path = of_nat i)
       | None \<Rightarrow> False) (ms_keys M d)"

definition check_multipath :: "('k, 'd, 'x) miniscript \<Rightarrow> 'd \<Rightarrow> wollet_error + unit" where
  "check_multipath M d =
     (if ms_is_multipath M d
      then rbind (map_err ElementsMiniscript (ms_into_single M d)) (\<lambda>ds.
        if 2 < length ds then Inl UnsupportedMultipathDescriptor
        else if list_all (\<lambda>(i, d). multipath_step_ok M i d) (List.enumerate 0 ds) then Inr ()
        else Inl UnsupportedMultipathDescriptor)
      else Inr ())"

definition WolletDescriptor_try_from ::
    "('k, 'd, 'x) miniscript \<Rightarrow> 'k \<Rightarrow> 'd \<Rightarrow> wollet_error + ('k, 'd) WolletDescriptor" where
  "WolletDescriptor_try_from M k d =
     (case ms_blinding_kind M k of
        Bare \<Rightarrow> Inl BlindingBareUnsupported
      | ViewMultiXPrv \<Rightarrow> Inl BlindingViewMultiUnsupported
      | kind \<Rightarrow>
          if (case kind of ViewXPrv w \<Rightarrow> w \<noteq> WildcardNone | _ \<Rightarrow> False) then Inl BlindingViewWildcardUnsupported
          else rbind (check_multipath M d) (\<lambda>_.
            let w = \<lparr>wd_inner = Desc k d, wd_is_amp0 = desc_is_amp0 M k d\<rparr>
            in if ms_is_sh M d \<and> starts_with ''elsh(multi('' (ms_desc_text M d) then Inr w
               else case ms_segwit_version M d of
                   None \<Rightarrow> Inl UnsupportedDescriptorPreSegwit
                 | Some v \<Rightarrow> if v = 0 \<or> v = 1 then Inr w else Inl UnsupportedDescriptorSegwitUnknownVersion))"

definition WolletDescriptor_from_str ::
    "('k, 'd, 'x) miniscript \<Rightarrow> secp \<Rightarrow> string \<Rightarrow> wollet_error + ('k, 'd) WolletDescriptor" where
  "WolletDescriptor_from_str M S s =
     (case ms_parse M s of
        Inr (k, d) \<Rightarrow> WolletDescriptor_try_from M k d
      | Inl first_err \<Rightarrow>
          (case collect_results (map (Spk_from_str S) (split_on (CHR '','') s)) of
             Inr spks \<Rightarrow> if spks \<noteq> [] then Inr \<lparr>wd_inner = Spks spks, wd_is_amp0 = False\<rparr>
                         else Inl (ElementsMiniscript first_err)
           | Inl _ \<Rightarrow> Inl (ElementsMiniscript first_err)))"

text \<open>The JSON values that the deserializer distinguishes.\<close>

datatype json = JString string | JArray "json list" | JOther

definition WolletDescriptor_serialize ::
    "('k, 'd, 'x) miniscript \<Rightarrow> secp \<Rightarrow> ('k, 'd) WolletDescriptor \<Rightarrow> json" where
  "WolletDescriptor_serialize M S w =
     (case wd_inner w of
        Desc _ _ \<Rightarrow> JString (WolletDescriptor_display M S w)
      | Spks spks \<Rightarrow> JArray (map (\<lambda>s. JString (Spk_display S s)) spks))"

datatype json_error = Custom wollet_error | NotString | EmptyArray | NotStringOrArray

definition WolletDescriptor_deserialize ::
    "('k, 'd, 'x) miniscript \<Rightarrow> secp \<Rightarrow> json \<Rightarrow> json_error + ('k, 'd) WolletDescriptor" where
  "WolletDescriptor_deserialize M S j =
     (case j of
        JString s \<Rightarrow> map_err Custom (WolletDescriptor_from_str M S s)
      | JArray arr \<Rightarrow>
          rbind (collect_results (map (\<lambda>v. case v of JString s \<Rightarrow> map_err Custom (Spk_from_str S s)
                                                   | _ \<Rightarrow> Inl NotString) arr)) (\<lambda>spks.
          if spks = [] then Inl EmptyArray else Inr \<lparr>wd_inner = Spks spks, wd_is_amp0 = False\<rparr>)
      | JOther \<Rightarrow> Inl NotStringOrArray)"

section \<open>The chain of a descriptor\<close>

definition Chain_of_child :: "ChildNumber \<Rightarrow> Chain option" where
  "Chain_of_child c = (if c = 0 then Some External else if c = 1 then Some Internal else None)"

text \<open>The closure returns false, so only the first key is visited.\<close>

definition Chain_of_desc :: "('k, 'd, 'x) miniscript \<Rightarrow> 'd \<Rightarrow> Chain option" where
  "Chain_of_desc M d =
     (case ms_keys M d of
        [] \<Rightarrow> None
      | key # _ \<Rightarrow>
          (case full_derivation_path key of
             None \<Rightarrow> None
           | Some path \<Rightarrow>
               (case (if ms_has_wildcard M d then rev path else tl (rev path)) of
                  [] \<Rightarrow> None
                | step # _ \<Rightarrow> Chain_of_child step)))"

definition Chain_of_WolletDescriptor :: "('k, 'd, 'x) miniscript \<Rightarrow> ('k, 'd) WolletDescriptor \<Rightarrow> Chain option" where
  "Chain_of_WolletDescriptor M w =
     (case wd_inner w of Desc _ d \<Rightarrow> Chain_of_desc M d | Spks _ \<Rightarrow> Some External)"

section \<open>Operations\<close>

definition wd_descriptor :: "('k, 'd) WolletDescriptor \<Rightarrow> wollet_error + 'd" where
  "wd_descriptor w = (case wd_inner w of Desc _ d \<Rightarrow> Inr d | Spks _ \<Rightarrow> Inl UnsupportedWithoutDescriptor)"

definition wd_ct_descriptor :: "('k, 'd) WolletDescriptor \<Rightarrow> wollet_error + 'k \<times> 'd" where
  "wd_ct_descriptor w = (case wd_inner w of Desc k d \<Rightarrow> Inr (k, d) | Spks _ \<Rightarrow> Inl UnsupportedWithoutDescriptor)"

definition url_table :: "(char \<times> string) list" where
  "url_table =
     [(CHR ''('', ''%28''), (CHR '')'', ''%29''), (CHR ''['', ''%5B''), (CHR '']'', ''%5D''),
      (CHR ''{'', ''%7B''), (CHR ''}'', ''%7D''), (CHR ''/'', ''%2F''), (CHR ''*'', ''%2A''),
      (CHR '','', ''%2C''), (CHR ''%'', ''%25''), (CHR ''&'', ''%26''), (CHR ''#'', ''%23''),
      (CHR ''+'', ''%2B''), (CHR 0x27, ''%27''), (CHR ''<'', ''%3C''), (CHR ''>'', ''%3E''),
      (CHR '';'', ''%3B''), (CHR '' '', ''%20'')]"

definition url_encode_char :: "char \<Rightarrow> string" where
  "url_encode_char c = (case map_of url_table c of Some t \<Rightarrow> t | None \<Rightarrow> [c])"

definition url_encode_descriptor :: "string \<Rightarrow> string" where
  "url_encode_descriptor s = concat (map url_encode_char s)"

definition url_encoded_descriptor ::
    "('k, 'd, 'x) miniscript \<Rightarrow> ('k, 'd) WolletDescriptor \<Rightarrow> wollet_error + string" where
  "url_encoded_descriptor M w =
     (case wd_inner w of
        Desc k d \<Rightarrow> Inr (url_encode_descriptor (ms_text M k d))
      | Spks _ \<Rightarrow> Inl UnsupportedWithoutDescriptor)"

definition is_elip151 :: "('k, 'd, 'x) miniscript \<Rightarrow> ('k, 'd) WolletDescriptor \<Rightarrow> bool" where
  "is_elip151 M w =
     (case wd_inner w of
        Desc k d \<Rightarrow> (case ms_from_elip151 M d of Inr k' \<Rightarrow> k' = k | Inl _ \<Rightarrow> False)
      | Spks _ \<Rightarrow> False)"

text \<open>Key origins in brackets are skipped, and so is everything from a checksum on.\<close>

fun strip_origin :: "bool \<Rightarrow> string \<Rightarrow> string" where
  "strip_origin skip [] = []"
| "strip_origin skip (c # s) =
     (if skip then strip_origin (c \<noteq> CHR '']'') s
      else if c = CHR ''['' \<or> c = CHR ''#'' then strip_origin True s
      else c # strip_origin False s)"

definition bitcoin_descriptor_without_key_origin ::
    "('k, 'd, 'x) miniscript \<Rightarrow> ('k, 'd) WolletDescriptor \<Rightarrow> wollet_error + string" where
  "bitcoin_descriptor_without_key_origin M w =
     (case wd_inner w of
        Desc _ d \<Rightarrow> Inr (strip_origin False (ms_desc_text M d))
      | Spks _ \<Rightarrow> Inl UnsupportedWithoutDescriptor)"

definition inner_descriptor_if_available ::
    "('k, 'd, 'x) miniscript \<Rightarrow> ('k, 'd) WolletDescriptor \<Rightarrow> Chain \<Rightarrow>
      wollet_error fault + ('k, 'd) WolletDescriptor" where
  "inner_descriptor_if_available M w ext_int =
     (case wd_inner w of
        Desc k d \<Rightarrow>
          (case ms_into_single M d of
             Inl _ \<Rightarrow> Inl (Panic ''already done in TryFrom'')
           | Inr [] \<Rightarrow> Inl (Panic ''assertion `left != right` failed'')
           | Inr [d'] \<Rightarrow> Inr \<lparr>wd_inner = Desc k d', wd_is_amp0 = wd_is_amp0 w\<rparr>
           | Inr (d0 # d1 # _) \<Rightarrow>
               Inr \<lparr>wd_inner = Desc k (case ext_int of External \<Rightarrow> d0 | Internal \<Rightarrow> d1),
                    wd_is_amp0 = wd_is_amp0 w\<rparr>)
      | Spks _ \<Rightarrow> Inl (Err UnsupportedWithoutDescriptor))"

definition wd_is_multipath :: "('k, 'd, 'x) miniscript \<Rightarrow> ('k, 'd) WolletDescriptor \<Rightarrow> bool" where
  "wd_is_multipath M w = (case wd_inner w of Desc _ d \<Rightarrow> ms_is_multipath M d | Spks _ \<Rightarrow> False)"

definition remove_checksum_if_any :: "string \<Rightarrow> string" where
  "remove_checksum_if_any s = hd (split_on (CHR ''#'') s)"

definition to_bitcoin_descriptor :: "('k, 'd, 'x) miniscript \<Rightarrow> string \<Rightarrow> wollet_error fault + string" where
  "to_bitcoin_descriptor M s =
     (if length s < 2 then Inl (Panic ''byte index 2 is out of bounds'')
      else let s = remove_checksum_if_any (drop 2 s)
           in Inr (s @ ''#'' @ (case ms_desc_checksum M s of Some c \<Rightarrow> c | None \<Rightarrow> [])))"

definition single_bitcoin_descriptor ::
    "('k, 'd, 'x) miniscript \<Rightarrow> ('k, 'd) WolletDescriptor \<Rightarrow> Chain \<Rightarrow> wollet_error fault + string" where
  "single_bitcoin_descriptor M w c =
     rbind (inner_descriptor_if_available M w c) (\<lambda>w'.
     rbind (map_err Err (wd_descriptor w')) (\<lambda>d. to_bitcoin_descriptor M (ms_desc_text M d)))"

definition single_bitcoin_descriptors ::
    "('k, 'd, 'x) miniscript \<Rightarrow> ('k, 'd) WolletDescriptor \<Rightarrow> wollet_error fault + string list" where
  "single_bitcoin_descriptors M w =
     rbind (single_bitcoin_descriptor M w External) (\<lambda>d.
     if wd_is_multipath M w
     then rbind (single_bitcoin_descriptor M w Internal) (\<lambda>d'. Inr [d, d'])
     else Inr [d])"

definition at_derivation_index ::
    "('k, 'd, 'x) miniscript \<Rightarrow> ('k, 'd) WolletDescriptor \<Rightarrow> u32 \<Rightarrow> wollet_error + 'k \<times> 'x" where
  "at_derivation_index M w index =
     (case wd_inner w of
        Desc k d \<Rightarrow> rbind (map_err DescConversion (ms_at_derivation_index M d index)) (\<lambda>x. Inr (k, x))
      | Spks _ \<Rightarrow> Inl UnsupportedWithoutDescriptor)"

definition spk_at :: "Spk list \<Rightarrow> u32 \<Rightarrow> wollet_error + Spk" where
  "spk_at spks index = (if unat index < length spks then Inr (spks ! unat index) else Inl IndexOutOfRange)"

definition wd_inner_address ::
    "('k, 'd, 'x) miniscript \<Rightarrow> secp \<Rightarrow> ('k, 'd) WolletDescriptor \<Rightarrow> u32 \<Rightarrow> AddressParams \<Rightarrow> Chain \<Rightarrow>
      wollet_error fault + Address" where
  "wd_inner_address M S w index params ext_int =
     (if wd_is_amp0 w then Inl (Err Amp0AddressError)
      else case wd_inner w of
          Spks spks \<Rightarrow>
            rbind (map_err Err (spk_at spks index)) (\<lambda>spk.
            case from_script (spk_script spk) (map_option (sk_public_key S) (spk_blinding_key spk)) params of
              Some a \<Rightarrow> Inr a
            | None \<Rightarrow> Inl (Err UnsupportedWithoutDescriptor))
        | Desc _ _ \<Rightarrow>
            rbind (inner_descriptor_if_available M w ext_int) (\<lambda>w'.
            rbind (map_err Err (at_derivation_index M w' index)) (\<lambda>(k, x).
            map_err (\<lambda>e. Err (ElementsMiniscript e)) (ms_address M k x params))))"

definition wd_address ::
    "('k, 'd, 'x) miniscript \<Rightarrow> secp \<Rightarrow> ('k, 'd) WolletDescriptor \<Rightarrow> u32 \<Rightarrow> AddressParams \<Rightarrow>
      wollet_error fault + Address" where
  "wd_address M S w index params = wd_inner_address M S w index params External"

definition wd_change ::
    "('k, 'd, 'x) miniscript \<Rightarrow> secp \<Rightarrow> ('k, 'd) WolletDescriptor \<Rightarrow> u32 \<Rightarrow> AddressParams \<Rightarrow>
      wollet_error fault + Address" where
  "wd_change M S w index params = wd_inner_address M S w index params Internal"

definition wd_script_pubkey ::
    "('k, 'd, 'x) miniscript \<Rightarrow> ('k, 'd) WolletDescriptor \<Rightarrow> Chain \<Rightarrow> u32 \<Rightarrow> wollet_error fault + Script" where
  "wd_script_pubkey M w ext_int index =
     (case wd_inner w of
        Spks spks \<Rightarrow> rbind (map_err Err (spk_at spks index)) (\<lambda>spk. Inr (spk_script spk))
      | Desc _ _ \<Rightarrow>
          rbind (inner_descriptor_if_available M w ext_int) (\<lambda>w'.
          rbind (map_err Err (at_derivation_index M w' index)) (\<lambda>(k, x). Inr (ms_script_pubkey M x))))"

definition definite_descriptor ::
    "('k, 'd, 'x) miniscript \<Rightarrow> ('k, 'd) WolletDescriptor \<Rightarrow> Chain \<Rightarrow> u32 \<Rightarrow> wollet_error fault + 'x" where
  "definite_descriptor M w ext_int index =
     rbind (inner_descriptor_if_available M w ext_int) (\<lambda>w'.
     rbind (map_err Err (wd_descriptor w')) (\<lambda>d.
     map_err (\<lambda>e. Err (DescConversion e)) (ms_at_derivation_index M d index)))"

definition ct_definite_descriptor ::
    "('k, 'd, 'x) miniscript \<Rightarrow> ('k, 'd) WolletDescriptor \<Rightarrow> Chain \<Rightarrow> u32 \<Rightarrow> wollet_error fault + 'k \<times> 'x" where
  "ct_definite_descriptor M w ext_int index =
     rbind (inner_descriptor_if_available M w ext_int) (\<lambda>w'. map_err Err (at_derivation_index M w' index))"

definition as_single_descriptors ::
    "('k, 'd, 'x) miniscript \<Rightarrow> ('k, 'd) WolletDescriptor \<Rightarrow> wollet_error + ('k, 'd) WolletDescriptor list" where
  "as_single_descriptors M w =
     (case wd_inner w of
        Desc k d \<Rightarrow>
          rbind (map_err ElementsMiniscript (ms_into_single M d)) (\<lambda>ds.
          Inr (map (\<lambda>d. \<lparr>wd_inner = Desc k d, wd_is_amp0 = wd_is_amp0 w\<rparr>) ds))
      | Spks _ \<Rightarrow> Inr [w])"

definition derive_script_and_blinding_key ::
    "('k, 'd, 'x) miniscript \<Rightarrow> secp \<Rightarrow> ('k, 'd) WolletDescriptor \<Rightarrow> Chain \<Rightarrow> ChildNumber \<Rightarrow>
      wollet_error fault + Script \<times> BlindingPublicKey option" where
  "derive_script_and_blinding_key M S w ext_int child =
     (case wd_inner w of
        Desc _ _ \<Rightarrow>
          rbind (inner_descriptor_if_available M w ext_int) (\<lambda>w'.
          rbind (map_err Err (wd_ct_descriptor w')) (\<lambda>(k, d).
          rbind (map_err (\<lambda>e. Err (DescConversion e)) (ms_at_derivation_index M d child)) (\<lambda>x.
          case ms_address M k x ELEMENTS of
            Inl _ \<Rightarrow> Inl (Panic ''all supported descriptors can generate an address'')
          | Inr address \<Rightarrow>
              rbind (Address_script_pubkey address) (\<lambda>script.
              case ad_blinding_pubkey address of
                Some pk \<Rightarrow> Inr (script, Some pk)
              | None \<Rightarrow> Inl (Panic ''descriptor used include blinding key'')))))
      | Spks spks \<Rightarrow>
          rbind (map_err Err (spk_at spks child)) (\<lambda>spk.
          Inr (spk_script spk, map_option (sk_public_key S) (spk_blinding_key spk))))"

text \<open>\<^verbatim>\<open>lwk_common::derive_blinding_key\<close>: extended keys and single keys of the view kind, and \<open>slip77\<close>.\<close>

definition derive_blinding_key :: "('k, 'd, 'x) miniscript \<Rightarrow> 'k \<Rightarrow> Script \<Rightarrow> bytes option" where
  "derive_blinding_key M k script =
     (case ms_blinding_kind M k of
        Slip77 \<Rightarrow> Some (ms_blinding_private_key M k script)
      | ViewXPrv _ \<Rightarrow> Some (ms_blinding_private_key M k script)
      | ViewSingle \<Rightarrow> Some (ms_blinding_private_key M k script)
      | _ \<Rightarrow> None)"

definition blinding_key_for_script ::
    "('k, 'd, 'x) miniscript \<Rightarrow> ('k, 'd) WolletDescriptor \<Rightarrow> Script \<Rightarrow> bytes option" where
  "blinding_key_for_script M w script =
     (case wd_inner w of
        Desc k _ \<Rightarrow> derive_blinding_key M k script
      | Spks spks \<Rightarrow> Option.bind (List.find (\<lambda>s. spk_script s = script) spks) spk_blinding_key)"

definition spk_count :: "('k, 'd) WolletDescriptor \<Rightarrow> nat option" where
  "spk_count w = (case wd_inner w of Spks spks \<Rightarrow> Some (length spks) | Desc _ _ \<Rightarrow> None)"

definition wd_has_wildcard :: "('k, 'd, 'x) miniscript \<Rightarrow> ('k, 'd) WolletDescriptor \<Rightarrow> bool" where
  "wd_has_wildcard M w = (case wd_inner w of Desc _ d \<Rightarrow> ms_has_wildcard M d | Spks _ \<Rightarrow> False)"

definition is_mainnet :: "('k, 'd, 'x) miniscript \<Rightarrow> ('k, 'd) WolletDescriptor \<Rightarrow> bool" where
  "is_mainnet M w =
     (case wd_inner w of
        Desc _ d \<Rightarrow> list_all (\<lambda>key. case key_form key of SinglePub \<Rightarrow> True | _ \<Rightarrow> key_is_main key) (ms_keys M d)
      | Spks _ \<Rightarrow> False)"

definition parse_multiline ::
    "('k, 'd, 'x) miniscript \<Rightarrow> secp \<Rightarrow> string \<Rightarrow> ('k, 'd) WolletDescriptor option" where
  "parse_multiline M S desc =
     (case split_on (CHR 0x0A) (trim desc) of
        [l0, l1] \<Rightarrow>
          (let first_str = trim l0; second_str = trim l1
           in if isl (ms_parse M first_str) \<or> isl (ms_parse M second_str) then None
              else let first_no_chk = remove_checksum_if_any first_str;
                       second_no_chk = remove_checksum_if_any second_str
                   in if replace_all ''/0/*'' ''/1/*'' first_no_chk \<noteq> second_no_chk then None
                      else case WolletDescriptor_from_str M S (replace_all ''/0/*'' ''/<0;1>/*'' first_no_chk) of
                          Inr w \<Rightarrow> Some w
                        | Inl _ \<Rightarrow> None)
      | _ \<Rightarrow> None)"

definition from_str_relaxed ::
    "('k, 'd, 'x) miniscript \<Rightarrow> secp \<Rightarrow> string \<Rightarrow> wollet_error + ('k, 'd) WolletDescriptor" where
  "from_str_relaxed M S desc =
     (case WolletDescriptor_from_str M S desc of
        Inr w \<Rightarrow> Inr w
      | Inl e \<Rightarrow> (case parse_multiline M S desc of Some w \<Rightarrow> Inr w | None \<Rightarrow> Inl e))"

fun chunks :: "nat \<Rightarrow> string \<Rightarrow> string list" where
  "chunks 0 s = []"
| "chunks (Suc n) [] = []"
| "chunks (Suc n) (c # s) = take (Suc n) (c # s) # chunks (Suc n) (drop n s)"

text \<open>The deterministic wallet identifier: half of the digest of the last address of the external chain.\<close>

definition dwid ::
    "('k, 'd, 'x) miniscript \<Rightarrow> secp \<Rightarrow> base58 \<Rightarrow> bech32 \<Rightarrow> (string \<Rightarrow> bytes) \<Rightarrow> ('k, 'd) WolletDescriptor \<Rightarrow>
      AddressParams \<Rightarrow> wollet_error fault + string" where
  "dwid M S C B sha256_text w params =
     rbind (wd_address M S w 0x7fffffff params) (\<lambda>address.
     let hash_hex = to_lower_hex (sha256_text (Address_display C B address))
     in Inr (join ''-'' (chunks 4 (take 32 hash_hex))))"

fun scripts_upto ::
    "('k, 'd, 'x) miniscript \<Rightarrow> ('k, 'd) WolletDescriptor \<Rightarrow> Chain \<Rightarrow> u32 list \<Rightarrow> wollet_error fault + Script list" where
  "scripts_upto M w chain [] = Inr []"
| "scripts_upto M w chain (i # is) =
     rbind (wd_script_pubkey M w chain i) (\<lambda>s. rbind (scripts_upto M w chain is) (\<lambda>ss. Inr (s # ss)))"

fun scripts_of_singles ::
    "('k, 'd, 'x) miniscript \<Rightarrow> u32 \<Rightarrow> ('k, 'd) WolletDescriptor list \<Rightarrow> wollet_error fault + Script list" where
  "scripts_of_singles M gap_limit [] = Inr []"
| "scripts_of_singles M gap_limit (w # ws) =
     (case Chain_of_WolletDescriptor M w of
        None \<Rightarrow> Inl (Err (Generic ''Descriptor to Chain conversion failed''))
      | Some chain \<Rightarrow>
          rbind (scripts_upto M w chain (map of_nat [0..<unat gap_limit])) (\<lambda>s.
          rbind (scripts_of_singles M gap_limit ws) (\<lambda>ss. Inr (s @ ss))))"

definition derive_scripts_to_gap_limit ::
    "('k, 'd, 'x) miniscript \<Rightarrow> ('k, 'd) WolletDescriptor \<Rightarrow> u32 \<Rightarrow> wollet_error fault + Script list" where
  "derive_scripts_to_gap_limit M w gap_limit =
     rbind (map_err Err (as_single_descriptors M w)) (scripts_of_singles M gap_limit)"

section \<open>Splitting and joining text\<close>

lemma split_on_not_Nil [simp]: "split_on c s \<noteq> []"
  by (induction s) (auto split: list.splits)

lemma split_on_fresh: "c \<notin> set s \<Longrightarrow> split_on c s = [s]"
  by (induction s) auto

lemma split_on_append: "c \<notin> set p \<Longrightarrow> split_on c (p @ c # s) = p # split_on c s"
  by (induction p) auto

lemma split_on_join: "ps \<noteq> [] \<Longrightarrow> \<forall>p \<in> set ps. c \<notin> set p \<Longrightarrow> split_on c (join [c] ps) = ps"
  by (induction "[c]" ps rule: join.induct) (auto simp: split_on_append split_on_fresh)

lemma split_once_append: "c \<notin> set p \<Longrightarrow> split_once c (p @ c # s) = Some (p, s)"
  by (simp add: split_once_def takeWhile_append dropWhile_append takeWhile_eq_all_conv)

lemma collect_results_map: "\<forall>x \<in> set xs. f (g x) = Inr x \<Longrightarrow> collect_results (map (\<lambda>x. f (g x)) xs) = Inr xs"
  by (induction xs) auto

section \<open>The text of a list of scripts\<close>

definition hex_alphabet :: string where "hex_alphabet = ''0123456789abcdef''"

text \<open>A secret key that the curve library prints in hexadecimal and reads back.\<close>

definition sk_ok :: "secp \<Rightarrow> bytes \<Rightarrow> bool" where
  "sk_ok S k \<longleftrightarrow> sk_from_str S (sk_display S k) = Inr k \<and> sk_display S k \<noteq> [] \<and> set (sk_display S k) \<subseteq> set hex_alphabet"

definition spk_ok :: "secp \<Rightarrow> Spk \<Rightarrow> bool" where
  "spk_ok S spk \<longleftrightarrow> pred_option (sk_ok S) (spk_blinding_key spk)"

text \<open>The parser of the crate rejects what does not start like a confidential descriptor.\<close>

definition ms_rejects :: "('k, 'd, 'x) miniscript \<Rightarrow> bool" where
  "ms_rejects M \<longleftrightarrow> (\<forall>s. \<not> starts_with ''ct('' s \<longrightarrow> isl (ms_parse M s))"

lemma hex_digit_alphabet: "n < 16 \<Longrightarrow> hex_digit n \<in> set hex_alphabet"
proof -
  assume "n < 16"
  moreover have "list_all (\<lambda>n. hex_digit n \<in> set hex_alphabet) [0..<16]" by code_simp
  ultimately show ?thesis by (simp add: list_all_iff)
qed

lemma to_lower_hex_alphabet: "set (to_lower_hex bs) \<subseteq> set hex_alphabet"
  by (induction bs) (use byte_digits in \<open>auto intro: hex_digit_alphabet\<close>)

lemma hex_alphabet_fresh: "CHR '':'' \<notin> set hex_alphabet" "CHR '','' \<notin> set hex_alphabet" "CHR ''t'' \<notin> set hex_alphabet"
  by (simp_all add: hex_alphabet_def)

lemma Spk_display_chars: "spk_ok S spk \<Longrightarrow> set (Spk_display S spk) \<subseteq> insert (CHR '':'') (set hex_alphabet)"
  using to_lower_hex_alphabet [of "spk_script spk"]
  by (auto simp: Spk_display_def spk_ok_def sk_ok_def split: option.splits)




lemma Spk_text_roundtrip: "spk_ok S spk \<Longrightarrow> Spk_from_str S (Spk_display S spk) = Inr spk"
proof (cases "spk_blinding_key spk")
  case None
  then show ?thesis
    using split_once_append [of "CHR '':''" "[]"]
    by (simp add: Spk_from_str_def Spk_display_def)
next
  case (Some k)
  assume ok: "spk_ok S spk"
  with Some have "CHR '':'' \<notin> set (sk_display S k)"
    using hex_alphabet_fresh by (auto simp: spk_ok_def sk_ok_def)
  with Some ok show ?thesis
    by (simp add: Spk_from_str_def Spk_display_def split_once_append spk_ok_def sk_ok_def)
qed

lemma spks_text_chars:
  assumes "\<forall>spk \<in> set spks. spk_ok S spk"
  shows "CHR ''t'' \<notin> set (join '','' (map (Spk_display S) spks))"
proof -
  have "set (join '','' ps) \<subseteq> insert (CHR '','') (\<Union> (set ` set ps))" for ps
    by (induction "'',''" ps rule: join.induct) auto
  then show ?thesis using assms Spk_display_chars hex_alphabet_fresh(3) by fastforce
qed

lemma not_ct: "CHR ''t'' \<notin> set s \<Longrightarrow> \<not> starts_with ''ct('' s"
  by (cases s; cases "tl s") (auto simp: starts_with_def)

text \<open>C40. A wallet made of a list of scripts is read back from its text and from its JSON form, with the
  scripts in their order and with their blinding keys.\<close>

theorem spks_roundtrip:
  assumes "ms_rejects M" "spks \<noteq> []" "\<forall>spk \<in> set spks. spk_ok S spk"
  defines "w \<equiv> \<lparr>wd_inner = Spks spks, wd_is_amp0 = False\<rparr>"
  shows "WolletDescriptor_from_str M S (WolletDescriptor_display M S w) = Inr w \<and>
    WolletDescriptor_deserialize M S (WolletDescriptor_serialize M S w) = Inr w"
proof -
  let ?t = "join '','' (map (Spk_display S) spks)"
  have "isl (ms_parse M ?t)"
    using assms not_ct [OF spks_text_chars] unfolding ms_rejects_def by blast
  moreover have "split_on (CHR '','') ?t = map (Spk_display S) spks"
    using assms(2,3) Spk_display_chars hex_alphabet_fresh(2) by (intro split_on_join) fastforce+
  moreover have "collect_results (map (\<lambda>x. Spk_from_str S (Spk_display S x)) spks) = Inr spks"
    using assms(3) by (intro collect_results_map) (simp add: Spk_text_roundtrip)
  moreover have "collect_results (map (\<lambda>x. map_err Custom (Spk_from_str S (Spk_display S x))) spks) = Inr spks"
    using assms(3) by (intro collect_results_map [of _ "\<lambda>t. map_err Custom (Spk_from_str S t)"])
      (simp add: Spk_text_roundtrip)
  ultimately show ?thesis using assms(2)
    by (auto simp: WolletDescriptor_from_str_def WolletDescriptor_display_def WolletDescriptor_deserialize_def
        WolletDescriptor_serialize_def w_def comp_def isl_def)
qed

section \<open>Percent encoding\<close>

text \<open>The decoding of a percent-encoded text.\<close>

fun percent_decode :: "string \<Rightarrow> string" where
  "percent_decode (c # h # l # s) =
     (if c = CHR ''%''
      then (case chars_to_hex h l of Inr b \<Rightarrow> char_of (unat b) # percent_decode s | Inl _ \<Rightarrow> c # percent_decode (h # l # s))
      else c # percent_decode (h # l # s))"
| "percent_decode s = s"

lemma percent_decode_plain: "c \<noteq> CHR ''%'' \<Longrightarrow> percent_decode (c # s) = c # percent_decode s"
  by (cases s; cases "tl s") auto

lemma url_table_codes:
  "list_all (\<lambda>(c, t). case t of [p, h, l] \<Rightarrow> p = CHR ''%'' \<and> chars_to_hex h l = Inr (byte_of_char c) | _ \<Rightarrow> False) url_table"
  by code_simp

lemma percent_decode_char: "percent_decode (url_encode_char c @ s) = c # percent_decode s"
proof (cases "map_of url_table c")
  case None
  then have "c \<noteq> CHR ''%''" by (auto simp: url_table_def)
  with None show ?thesis by (simp add: url_encode_char_def percent_decode_plain)
next
  case (Some t)
  then have "(c, t) \<in> set url_table" by (rule map_of_SomeD)
  then obtain h l where "t = [CHR ''%'', h, l]" "chars_to_hex h l = Inr (byte_of_char c)"
    using url_table_codes by (fastforce simp: list_all_iff split: list.splits)
  with Some show ?thesis by (simp add: url_encode_char_def byte_of_char_def unat_of_nat)
qed

text \<open>Percent decoding inverts the encoding of a descriptor in a URL, so distinct descriptors give
  distinct texts.\<close>

lemma url_encode_roundtrip:
  "percent_decode (url_encode_descriptor s) = s \<and> inj url_encode_descriptor"
proof -
  have "percent_decode (url_encode_descriptor s) = s" for s
    by (induction s) (simp_all add: url_encode_descriptor_def percent_decode_char)
  then show ?thesis by (metis injI)
qed

section \<open>Accepted descriptors\<close>

text \<open>What the wallet relies on of the crate: a descriptor with one path is its own only single
  descriptor; single descriptors have the type of the descriptor they come from and one path; and
  a descriptor of a type that the wallet accepts has an address, blinded, of its script.\<close>

definition ms_supported :: "('k, 'd, 'x) miniscript \<Rightarrow> 'd \<Rightarrow> bool" where
  "ms_supported M d \<longleftrightarrow> ms_is_sh M d \<or> ms_segwit_version M d = Some 0 \<or> ms_segwit_version M d = Some 1"

definition ms_ok :: "('k, 'd, 'x) miniscript \<Rightarrow> bool" where
  "ms_ok M \<longleftrightarrow>
     (\<forall>d. \<not> ms_is_multipath M d \<longrightarrow> ms_into_single M d = Inr [d]) \<and>
     (\<forall>d ds. ms_into_single M d = Inr ds \<longrightarrow> ds \<noteq> [] \<and>
        (\<forall>d' \<in> set ds. \<not> ms_is_multipath M d' \<and> (ms_supported M d \<longrightarrow> ms_supported M d'))) \<and>
     (\<forall>k d i x params. ms_blinding_kind M k \<noteq> Bare \<longrightarrow> ms_supported M d \<longrightarrow>
        ms_at_derivation_index M d i = Inr x \<longrightarrow>
        (\<exists>a pk. ms_address M k x params = Inr a \<and> ad_blinding_pubkey a = Some pk \<and>
           wf_payload (ad_payload a) \<and>
           Address_script_pubkey a = (Inr (ms_script_pubkey M x) :: wollet_error fault + Script)))"

lemma try_from_accepts:
  assumes "WolletDescriptor_try_from M k d = Inr w"
  shows "wd_inner w = Desc k d" "ms_blinding_kind M k \<noteq> Bare" "ms_supported M d" "check_multipath M d = Inr ()"
  using assms
  by (auto simp: WolletDescriptor_try_from_def Let_def ms_supported_def rbind_eq_Inr
      split: blinding_kind.splits if_splits option.splits)

lemma accepted_singles:
  assumes M: "ms_ok M" and w: "WolletDescriptor_try_from M k d = Inr w"
  obtains ds where "ms_into_single M d = Inr ds" "ds \<noteq> []" "length ds \<le> 2"
    "\<And>d'. d' \<in> set ds \<Longrightarrow> ms_supported M d'"
proof -
  have "\<exists>ds. ms_into_single M d = Inr ds \<and> length ds \<le> 2"
    using M try_from_accepts(4) [OF w]
    by (auto simp: ms_ok_def check_multipath_def rbind_eq_Inr map_err_eq_Inr split: if_splits)
  then obtain ds where ds: "ms_into_single M d = Inr ds" "length ds \<le> 2" by blast
  with M try_from_accepts(3) [OF w] show thesis by (intro that [of ds]) (auto simp: ms_ok_def)
qed

lemma accepted_inner:
  assumes M: "ms_ok M" and w: "WolletDescriptor_try_from M k d = Inr w"
  obtains d' where "inner_descriptor_if_available M w c = Inr \<lparr>wd_inner = Desc k d', wd_is_amp0 = wd_is_amp0 w\<rparr>"
    "ms_supported M d'"
proof -
  obtain ds where ds: "ms_into_single M d = Inr ds" "ds \<noteq> []" "\<And>d'. d' \<in> set ds \<Longrightarrow> ms_supported M d'"
    using accepted_singles [OF assms] by metis
  obtain d0 ds' where d0: "ds = d0 # ds'" using ds(2) by (cases ds) auto
  show thesis
  proof (cases ds')
    case Nil
    with ds d0 show ?thesis
      by (intro that [of d0]) (simp_all add: inner_descriptor_if_available_def try_from_accepts(1) [OF w])
  next
    case (Cons d1 ds'')
    with ds d0 show ?thesis
      by (intro that [of "case c of External \<Rightarrow> d0 | Internal \<Rightarrow> d1"])
        (simp_all add: inner_descriptor_if_available_def try_from_accepts(1) [OF w] split: Chain.split)
  qed
qed


section \<open>Instances of the crates\<close>

text \<open>A crate with one descriptor of two paths, version 0, whose programs carry the chain and the index,
  and a curve library whose secret keys are any bytes in hexadecimal.\<close>

definition sample_program :: "nat \<times> u32 \<Rightarrow> bytes" where
  "sample_program x = of_nat (fst x) # ucast (snd x) # replicate 18 0"

definition sample_key :: "ChildNumber \<Rightarrow> DescriptorPublicKey" where
  "sample_key step = \<lparr>key_form = XPub, key_is_main = False, key_wildcard = WildcardUnhardened,
     key_derivation_path = [step], key_origin = None, full_derivation_path = Some [step]\<rparr>"

definition sample_ms :: "(unit, nat, nat \<times> u32) miniscript" where
  "sample_ms = \<lparr>ms_parse = (\<lambda>s. if starts_with ''ct('' s then Inr ((), 0) else Inl ''not a descriptor''),
     ms_text = (\<lambda>_ _. ''ct(slip77(00),elwpkh(xpub/<0;1>/*))''), ms_desc_text = (\<lambda>_. ''elwpkh(xpub/<0;1>/*)''),
     ms_blinding_kind = (\<lambda>_. Slip77), ms_is_multipath = (\<lambda>d. d = 0),
     ms_into_single = (\<lambda>d. Inr (if d = 0 then [1, 2] else [d])),
     ms_keys = (\<lambda>d. [sample_key (if d = 2 then 1 else 0)]), ms_has_wildcard = (\<lambda>_. True), ms_is_sh = (\<lambda>_. False),
     ms_segwit_version = (\<lambda>_. Some 0), ms_wsh_multi = (\<lambda>_. None),
     ms_at_derivation_index = (\<lambda>d i. if i < 0x80000000 then Inr (d, i) else Inl ''hardened index''),
     ms_address = (\<lambda>_ x params. Inr \<lparr>ad_params = params, ad_payload = WitnessProgram 0 (sample_program x),
        ad_blinding_pubkey = Some (2 # replicate 32 7)\<rparr>),
     ms_script_pubkey = (\<lambda>x. witness_script 0 (sample_program x)), ms_from_elip151 = (\<lambda>_. Inl ''unsupported''),
     ms_blinding_private_key = (\<lambda>_ s. take 32 (s @ replicate 32 1)), ms_desc_checksum = (\<lambda>_. Some ''8w7cjcha'')\<rparr>"

definition sample_secp :: secp where
  "sample_secp = \<lparr>sk_from_str = (\<lambda>s. map_err (\<lambda>_. ''malformed key'') (from_hex s)), sk_display = to_lower_hex,
     sk_public_key = (\<lambda>k. 2 # k)\<rparr>"

lemma sample_ms_ok: "ms_ok sample_ms" "ms_rejects sample_ms"
proof -
  have "length (sample_program x) = 20" for x by (simp add: sample_program_def)
  then show "ms_ok sample_ms"
    unfolding ms_ok_def by (auto simp: sample_ms_def ms_supported_def script_of_payload)
  show "ms_rejects sample_ms" by (simp add: ms_rejects_def sample_ms_def)
qed

definition sample_wd :: "(unit, nat) WolletDescriptor" where
  "sample_wd = \<lparr>wd_inner = Desc () 0, wd_is_amp0 = False\<rparr>"

lemma sample_wd_accepted: "WolletDescriptor_try_from sample_ms () 0 = Inr sample_wd"
  by (simp add: WolletDescriptor_try_from_def check_multipath_def multipath_step_ok_def desc_is_amp0_def
      sample_ms_def sample_key_def sample_wd_def)


theorem spks_roundtrip_witness:
  "let w = \<lparr>wd_inner = Spks [\<lparr>spk_blinding_key = Some [1, 0xab], spk_script = [0, 2, 5, 6]\<rparr>,
       \<lparr>spk_blinding_key = None, spk_script = [0x51]\<rparr>], wd_is_amp0 = False\<rparr>
   in WolletDescriptor_from_str sample_ms sample_secp (WolletDescriptor_display sample_ms sample_secp w) = Inr w"
proof -
  have "sk_ok sample_secp [1, 0xab]"
    using to_lower_hex_alphabet [of "[1, 0xab]"] by (simp add: sk_ok_def sample_secp_def del: to_lower_hex.simps) simp
  then show ?thesis
    using spks_roundtrip [OF sample_ms_ok(2), of "[\<lparr>spk_blinding_key = Some [1, 0xab], spk_script = [0, 2, 5, 6]\<rparr>,
       \<lparr>spk_blinding_key = None, spk_script = [0x51]\<rparr>]" sample_secp]
    by (simp add: spk_ok_def)
qed

end
