(* ===== verification/Store.thy ===== *)
theory Store
  imports Hex
begin

text \<open>
  Key-value stores (\<^verbatim>\<open>lwk_common/src/store.rs\<close>) and the encryption helpers (\<^verbatim>\<open>encrypt.rs\<close>). A trait
  object \<open>dyn DynStore\<close> is a record of operations over a state; the in-memory store, the store that
  discards everything, the directory of files and the encrypting wrapper are values of that
  record. What clients rely on is the locale \<open>dyn_store\<close>. Keys are strings of bytes.
  The AEAD cipher, the tagged hash of the deterministic nonce and the random source are
  parameters. Input/output errors of the operating system are not modelled.
\<close>

section \<open>The interface\<close>

record 's DynStore =
  dyn_get :: "'s \<Rightarrow> string \<Rightarrow> string + bytes option"
  dyn_put :: "'s \<Rightarrow> string \<Rightarrow> bytes \<Rightarrow> string + 's"
  dyn_remove :: "'s \<Rightarrow> string \<Rightarrow> string + 's"
  dyn_is_persisted :: bool

text \<open>On the keys it accepts, a store returns what was last put and not removed.\<close>

locale dyn_store =
  fixes D :: "'s DynStore"
    and inv :: "'s \<Rightarrow> bool"
    and good :: "string \<Rightarrow> bool"
  assumes get_total: "inv s \<Longrightarrow> good k \<Longrightarrow> \<exists>v. dyn_get D s k = Inr v"
    and put_get: "inv s \<Longrightarrow> good k \<Longrightarrow> \<exists>s'. dyn_put D s k v = Inr s' \<and> inv s' \<and>
      (\<forall>j. good j \<longrightarrow> dyn_get D s' j = (if j = k then Inr (Some v) else dyn_get D s j))"
    and remove_get: "inv s \<Longrightarrow> good k \<Longrightarrow> \<exists>s'. dyn_remove D s k = Inr s' \<and> inv s' \<and>
      (\<forall>j. good j \<longrightarrow> dyn_get D s' j = (if j = k then Inr None else dyn_get D s j))"
begin

text \<open>The contents on the accepted keys, as a map.\<close>

definition contents :: "'s \<Rightarrow> string \<Rightarrow> bytes option" where
  "contents s k = (if good k then (case dyn_get D s k of Inr v \<Rightarrow> v | Inl _ \<Rightarrow> None) else None)"

lemma get_contents: "inv s \<Longrightarrow> good k \<Longrightarrow> dyn_get D s k = Inr (contents s k)"
  using get_total [of s k] by (auto simp: contents_def)

lemma put_contents:
  assumes "inv s" and "good k"
  shows "\<exists>s'. dyn_put D s k v = Inr s' \<and> inv s' \<and> contents s' = (contents s)(k \<mapsto> v)"
  using put_get [OF assms, of v] assms by (auto simp: contents_def fun_eq_iff)

lemma remove_contents:
  assumes "inv s" and "good k"
  shows "\<exists>s'. dyn_remove D s k = Inr s' \<and> inv s' \<and> contents s' = (contents s)(k := None)"
  using remove_get [OF assms] assms by (auto simp: contents_def fun_eq_iff)

end

section \<open>The in-memory store and the store that keeps nothing\<close>

definition memory_get :: "(string \<rightharpoonup> bytes) \<Rightarrow> string \<Rightarrow> string + bytes option" where
  "memory_get data key = Inr (data key)"

definition memory_put :: "(string \<rightharpoonup> bytes) \<Rightarrow> string \<Rightarrow> bytes \<Rightarrow> string + (string \<rightharpoonup> bytes)" where
  "memory_put data key val = Inr (data(key \<mapsto> val))"

definition memory_remove :: "(string \<rightharpoonup> bytes) \<Rightarrow> string \<Rightarrow> string + (string \<rightharpoonup> bytes)" where
  "memory_remove data key = Inr (data(key := None))"

definition MemoryStore :: "(string \<rightharpoonup> bytes) DynStore" where
  "MemoryStore = \<lparr>dyn_get = memory_get, dyn_put = memory_put, dyn_remove = memory_remove,
     dyn_is_persisted = False\<rparr>"

definition FakeStore :: "bool \<Rightarrow> unit DynStore" where
  "FakeStore persisted = \<lparr>dyn_get = (\<lambda>_ _. Inr None), dyn_put = (\<lambda>_ _ _. Inr ()),
     dyn_remove = (\<lambda>_ _. Inr ()), dyn_is_persisted = persisted\<rparr>"

interpretation memory_store: dyn_store MemoryStore "\<lambda>_. True" "\<lambda>_. True"
  by unfold_locales (auto simp: MemoryStore_def memory_get_def memory_put_def memory_remove_def)

section \<open>The directory of files\<close>

text \<open>The file name of a key; the directory maps file names to contents.\<close>

definition forbidden_chars :: "char list" where
  "forbidden_chars = [CHR ''/'', CHR 0x5c, CHR 0x00, CHR '':'', CHR ''*'', CHR ''?'', CHR ''<'',
     CHR ''>'', CHR ''|'']"

definition file_path :: "string \<Rightarrow> string + string" where
  "file_path name =
     (if name = [] then Inl ''store key is empty''
      else if 255 < length name
      then Inl ''store key exceeds maximum file name length (255 bytes)''
      else if name = ''.'' \<or> name = ''..'' \<or> (\<exists>c \<in> set forbidden_chars. c \<in> set name)
      then Inl ''store key contains invalid file name characters''
      else Inr name)"

definition file_get :: "(string \<rightharpoonup> bytes) \<Rightarrow> string \<Rightarrow> string + bytes option" where
  "file_get dir key = rbind (file_path key) (\<lambda>path. Inr (dir path))"

definition file_put :: "(string \<rightharpoonup> bytes) \<Rightarrow> string \<Rightarrow> bytes \<Rightarrow> string + (string \<rightharpoonup> bytes)" where
  "file_put dir key val = rbind (file_path key) (\<lambda>path. Inr (dir(path \<mapsto> val)))"

definition file_remove :: "(string \<rightharpoonup> bytes) \<Rightarrow> string \<Rightarrow> string + (string \<rightharpoonup> bytes)" where
  "file_remove dir key = rbind (file_path key) (\<lambda>path. Inr (dir(path := None)))"

definition FileStore :: "(string \<rightharpoonup> bytes) DynStore" where
  "FileStore = \<lparr>dyn_get = file_get, dyn_put = file_put, dyn_remove = file_remove,
     dyn_is_persisted = True\<rparr>"

definition valid_name :: "string \<Rightarrow> bool" where
  "valid_name name \<longleftrightarrow> file_path name = Inr name"

lemma file_path_cases: "file_path name = Inr p \<longleftrightarrow> valid_name name \<and> p = name"
  by (auto simp: valid_name_def file_path_def)

interpretation file_store: dyn_store FileStore "\<lambda>_. True" valid_name
  by unfold_locales
    (auto simp: FileStore_def file_get_def file_put_def file_remove_def valid_name_def)

section \<open>Encryption\<close>

datatype encrypt_error = MissingNonce | Aead string

record cipher =
  aead_encrypt :: "bytes \<Rightarrow> bytes \<Rightarrow> string + bytes"
  aead_decrypt :: "bytes \<Rightarrow> bytes \<Rightarrow> string + bytes"

definition NONCE_LEN :: nat where "NONCE_LEN = 12"

definition encrypt_with_nonce :: "cipher \<Rightarrow> bytes \<Rightarrow> bytes \<Rightarrow> encrypt_error + bytes" where
  "encrypt_with_nonce C plaintext nonce =
     rbind (map_err Aead (aead_encrypt C nonce plaintext)) (\<lambda>buffer. Inr (nonce @ buffer))"

definition encrypt_with_random_nonce :: "cipher \<Rightarrow> bytes \<Rightarrow> bytes \<Rightarrow> encrypt_error + bytes" where
  "encrypt_with_random_nonce C random plaintext = encrypt_with_nonce C plaintext random"

definition encrypt_with_deterministic_nonce ::
    "cipher \<Rightarrow> (bytes \<Rightarrow> bytes) \<Rightarrow> bytes \<Rightarrow> encrypt_error + bytes" where
  "encrypt_with_deterministic_nonce C tagged_hash plaintext =
     encrypt_with_nonce C plaintext (take NONCE_LEN (tagged_hash plaintext))"

definition decrypt_with_nonce_prefix :: "cipher \<Rightarrow> bytes \<Rightarrow> encrypt_error + bytes" where
  "decrypt_with_nonce_prefix C ciphertext =
     (if length ciphertext < NONCE_LEN then Inl MissingNonce
      else map_err Aead
        (aead_decrypt C (take NONCE_LEN ciphertext) (drop NONCE_LEN ciphertext)))"

section \<open>The encrypting wrapper\<close>

definition key_bytes :: "string \<Rightarrow> bytes" where
  "key_bytes = map (\<lambda>c. of_nat (of_char c))"

text \<open>The wrapper's state is the inner store and the number of random nonces drawn so far; the source
  of nonces is \<open>rng\<close>.\<close>

definition effective_key ::
    "cipher \<Rightarrow> (bytes \<Rightarrow> bytes) \<Rightarrow> bool \<Rightarrow> string \<Rightarrow> encrypt_error + string" where
  "effective_key C tagged_hash encrypt_keys key =
     (if encrypt_keys
      then rbind (encrypt_with_deterministic_nonce C tagged_hash (key_bytes key)) (\<lambda>encrypted.
        Inr (to_lower_hex encrypted))
      else Inr key)"

definition encrypt_message :: "encrypt_error \<Rightarrow> string" where
  "encrypt_message e = ''encryption error: '' @ (case e of
     MissingNonce \<Rightarrow> ''Encrypted data too short - missing nonce'' | Aead m \<Rightarrow> ''Aead error: '' @ m)"

definition store_message :: "string \<Rightarrow> string" where
  "store_message e = ''store error: '' @ e"

definition encrypted_get ::
    "cipher \<Rightarrow> (bytes \<Rightarrow> bytes) \<Rightarrow> bool \<Rightarrow> 's DynStore \<Rightarrow> 's \<times> nat \<Rightarrow> string \<Rightarrow> string + bytes option" where
  "encrypted_get C th ek D s key =
     rbind (map_err encrypt_message (effective_key C th ek key)) (\<lambda>key.
     rbind (map_err store_message (dyn_get D (fst s) key)) (\<lambda>v. case v of
       Some ciphertext \<Rightarrow>
         rbind (map_err encrypt_message (decrypt_with_nonce_prefix C ciphertext)) (\<lambda>p. Inr (Some p))
     | None \<Rightarrow> Inr None))"

definition encrypted_put ::
    "cipher \<Rightarrow> (bytes \<Rightarrow> bytes) \<Rightarrow> (nat \<Rightarrow> bytes) \<Rightarrow> bool \<Rightarrow> 's DynStore \<Rightarrow> 's \<times> nat \<Rightarrow> string \<Rightarrow> bytes \<Rightarrow>
      string + ('s \<times> nat)" where
  "encrypted_put C th rng ek D s key val =
     rbind (map_err encrypt_message (effective_key C th ek key)) (\<lambda>key.
     rbind (map_err encrypt_message (encrypt_with_random_nonce C (rng (snd s)) val)) (\<lambda>ciphertext.
     rbind (map_err store_message (dyn_put D (fst s) key ciphertext)) (\<lambda>s'. Inr (s', Suc (snd s)))))"

definition encrypted_remove ::
    "cipher \<Rightarrow> (bytes \<Rightarrow> bytes) \<Rightarrow> bool \<Rightarrow> 's DynStore \<Rightarrow> 's \<times> nat \<Rightarrow> string \<Rightarrow> string + ('s \<times> nat)" where
  "encrypted_remove C th ek D s key =
     rbind (map_err encrypt_message (effective_key C th ek key)) (\<lambda>key.
     rbind (map_err store_message (dyn_remove D (fst s) key)) (\<lambda>s'. Inr (s', snd s)))"

definition EncryptedStore ::
    "cipher \<Rightarrow> (bytes \<Rightarrow> bytes) \<Rightarrow> (nat \<Rightarrow> bytes) \<Rightarrow> bool \<Rightarrow> 's DynStore \<Rightarrow> ('s \<times> nat) DynStore" where
  "EncryptedStore C th rng ek D = \<lparr>dyn_get = encrypted_get C th ek D, dyn_put = encrypted_put C th rng ek D,
     dyn_remove = encrypted_remove C th ek D, dyn_is_persisted = dyn_is_persisted D\<rparr>"

section \<open>Hexadecimal text and keys\<close>

lemma hex_digit_chars:
  assumes "n < 16" shows "hex_digit n \<notin> set forbidden_chars" "hex_digit n \<noteq> CHR ''.''"
proof -
  have "n \<in> set [0..<16]" using assms by simp
  then have "hex_digit n \<in> set (map hex_digit [0..<16])" by simp
  moreover have "\<forall>c \<in> set (map hex_digit [0..<16]). c \<notin> set forbidden_chars \<and> c \<noteq> CHR ''.''"
    by code_simp
  ultimately show "hex_digit n \<notin> set forbidden_chars" "hex_digit n \<noteq> CHR ''.''" by blast+
qed

lemma hex_chars: "c \<in> set (to_lower_hex b) \<Longrightarrow> c \<notin> set forbidden_chars \<and> c \<noteq> CHR ''.''"
proof (induction b)
  case (Cons x b)
  have "unat x div 16 < 16" using unat_bounds(1) [of x] by simp
  with Cons hex_digit_chars show ?case by auto
qed simp

lemma valid_hex_name: "b \<noteq> [] \<Longrightarrow> length b \<le> 127 \<Longrightarrow> valid_name (to_lower_hex b)"
proof -
  assume a: "b \<noteq> []" "length b \<le> 127"
  then have "to_lower_hex b \<noteq> []" by (cases b) auto
  moreover have "CHR ''.'' \<notin> set (to_lower_hex b)" using hex_chars by blast
  then have "to_lower_hex b \<noteq> ''.''" "to_lower_hex b \<noteq> ''..''" by auto
  moreover have "\<not> (\<exists>c \<in> set forbidden_chars. c \<in> set (to_lower_hex b))" using hex_chars by blast
  ultimately show ?thesis using a(2) by (simp add: valid_name_def file_path_def)
qed

lemma key_bytes_inj: "key_bytes a = key_bytes b \<longleftrightarrow> a = b"
proof -
  have "inj (\<lambda>c. of_nat (of_char c) :: u8)"
  proof (rule injI)
    fix c d :: char
    assume "(of_nat (of_char c) :: u8) = of_nat (of_char d)"
    then have "unat (of_nat (of_char c) :: u8) = unat (of_nat (of_char d) :: u8)" by simp
    then have "of_char c = (of_char d :: nat)" by (simp add: unat_of_nat)
    then show "c = d" by simp
  qed
  then show ?thesis by (simp add: key_bytes_def inj_map_eq_map)
qed

section \<open>The wrapper keeps the contract\<close>

text \<open>What the AEAD cipher promises: decrypting with the same nonce gives the plaintext back, and the
  ciphertext is the plaintext and a tag of 16 bytes.\<close>

definition cipher_ok :: "cipher \<Rightarrow> bool" where
  "cipher_ok C \<longleftrightarrow> (\<forall>n p. length n = NONCE_LEN \<longrightarrow>
     (\<exists>c. aead_encrypt C n p = Inr c \<and> aead_decrypt C n c = Inr p \<and> length c = length p + 16))"

lemma encrypt_decrypt:
  assumes "cipher_ok C" and "length n = NONCE_LEN"
  shows "\<exists>c. encrypt_with_nonce C p n = Inr c \<and> decrypt_with_nonce_prefix C c = Inr p \<and>
    length c = length p + 28"
proof -
  obtain c where "aead_encrypt C n p = Inr c" "aead_decrypt C n c = Inr p" "length c = length p + 16"
    using assms by (auto simp: cipher_ok_def)
  with assms(2) show ?thesis
    by (auto simp: encrypt_with_nonce_def decrypt_with_nonce_prefix_def map_err_def NONCE_LEN_def)
qed

lemma effective_key_inj:
  assumes C: "cipher_ok C" and th: "\<forall>x. NONCE_LEN \<le> length (th x)"
    and "effective_key C th ek j = Inr x" and "effective_key C th ek k = Inr x"
  shows "j = k"
proof (cases ek)
  case True
  have enc: "\<exists>c. encrypt_with_deterministic_nonce C th q = Inr c \<and> decrypt_with_nonce_prefix C c = Inr q"
    for q using encrypt_decrypt [OF C, of "take NONCE_LEN (th q)" q] th
    by (auto simp: encrypt_with_deterministic_nonce_def)
  from assms(3,4) True enc [of "key_bytes j"] enc [of "key_bytes k"] show ?thesis
    by (auto simp: effective_key_def to_lower_hex_inj key_bytes_inj)
next
  case False
  with assms(3,4) show ?thesis by (simp add: effective_key_def)
qed

lemma effective_key_valid:
  assumes "cipher_ok C" and "\<forall>x. NONCE_LEN \<le> length (th x)" and "length k \<le> 99"
  shows "\<exists>k'. effective_key C th True k = Inr k' \<and> valid_name k'"
proof -
  obtain c where "encrypt_with_deterministic_nonce C th (key_bytes k) = Inr c"
    and len: "length c = length k + 28"
    using encrypt_decrypt [OF assms(1), of "take NONCE_LEN (th (key_bytes k))" "key_bytes k"] assms(2)
    by (auto simp: encrypt_with_deterministic_nonce_def key_bytes_def)
  moreover have "valid_name (to_lower_hex c)" using assms(3) len by (intro valid_hex_name) auto
  ultimately show ?thesis by (simp add: effective_key_def)
qed

definition readable ::
    "cipher \<Rightarrow> (bytes \<Rightarrow> bytes) \<Rightarrow> bool \<Rightarrow> 's DynStore \<Rightarrow> ('s \<Rightarrow> bool) \<Rightarrow> (string \<Rightarrow> bool) \<Rightarrow> 's \<times> nat \<Rightarrow> bool" where
  "readable C th ek D ok good s \<longleftrightarrow> ok (fst s) \<and> (\<forall>k k' c. good k \<longrightarrow> effective_key C th ek k = Inr k' \<longrightarrow>
     dyn_get D (fst s) k' = Inr (Some c) \<longrightarrow> (\<exists>p. decrypt_with_nonce_prefix C c = Inr p))"

lemma encrypted_dyn_store:
  assumes D: "dyn_store D ok good" and C: "cipher_ok C" and th: "\<forall>x. NONCE_LEN \<le> length (th x)"
    and rng: "\<forall>i. length (rng i) = NONCE_LEN"
    and keys: "\<forall>k. good' k \<longrightarrow> (\<exists>k'. effective_key C th ek k = Inr k' \<and> good k')"
  shows "dyn_store (EncryptedStore C th rng ek D) (readable C th ek D ok good') good'"
proof
  fix s k
  assume s: "readable C th ek D ok good' s" and k: "good' k"
  obtain k' where k': "effective_key C th ek k = Inr k'" "good k'" using keys k by blast
  obtain v where "dyn_get D (fst s) k' = Inr v"
    using dyn_store.get_total [OF D, of "fst s" k'] s k'(2) by (auto simp: readable_def)
  then show "\<exists>v. dyn_get (EncryptedStore C th rng ek D) s k = Inr v"
    using s k k'(1)
    by (cases v) (auto simp: EncryptedStore_def encrypted_get_def readable_def map_err_def split: sum.splits)
next
  fix s k v
  assume s: "readable C th ek D ok good' s" and k: "good' k"
  obtain k' where k': "effective_key C th ek k = Inr k'" "good k'" using keys k by blast
  obtain c where c: "encrypt_with_nonce C v (rng (snd s)) = Inr c" "decrypt_with_nonce_prefix C c = Inr v"
    using encrypt_decrypt [OF C, of "rng (snd s)" v] rng by auto
  obtain t where t: "dyn_put D (fst s) k' c = Inr t" "ok t"
    and get: "\<forall>j. good j \<longrightarrow> dyn_get D t j = (if j = k' then Inr (Some c) else dyn_get D (fst s) j)"
    using dyn_store.put_get [OF D, of "fst s" k' c] s k'(2) by (auto simp: readable_def)
  have same: "effective_key C th ek j = Inr k' \<longleftrightarrow> j = k" for j
    using effective_key_inj [OF C th, of ek j k' k] k'(1) by auto
  have "readable C th ek D ok good' (t, Suc (snd s))"
    using s t(2) get keys c(2) unfolding readable_def by (metis fst_conv sum.inject(2) option.inject)
  moreover have "encrypted_get C th ek D (t, Suc (snd s)) j =
      (if j = k then Inr (Some v) else encrypted_get C th ek D s j)" if j: "good' j" for j
  proof -
    obtain j' where j': "effective_key C th ek j = Inr j'" "good j'" using keys j by blast
    with get same [of j] c(2) k' show ?thesis by (auto simp: encrypted_get_def map_err_def)
  qed
  ultimately show "\<exists>s'. dyn_put (EncryptedStore C th rng ek D) s k v = Inr s' \<and>
      readable C th ek D ok good' s' \<and> (\<forall>j. good' j \<longrightarrow> dyn_get (EncryptedStore C th rng ek D) s' j =
        (if j = k then Inr (Some v) else dyn_get (EncryptedStore C th rng ek D) s j))"
    using k'(1) c(1) t(1)
    by (simp add: EncryptedStore_def encrypted_put_def encrypt_with_random_nonce_def map_err_def)
next
  fix s k
  assume s: "readable C th ek D ok good' s" and k: "good' k"
  obtain k' where k': "effective_key C th ek k = Inr k'" "good k'" using keys k by blast
  obtain t where t: "dyn_remove D (fst s) k' = Inr t" "ok t"
    and get: "\<forall>j. good j \<longrightarrow> dyn_get D t j = (if j = k' then Inr None else dyn_get D (fst s) j)"
    using dyn_store.remove_get [OF D, of "fst s" k'] s k'(2) by (auto simp: readable_def)
  have same: "effective_key C th ek j = Inr k' \<longleftrightarrow> j = k" for j
    using effective_key_inj [OF C th, of ek j k' k] k'(1) by auto
  have "readable C th ek D ok good' (t, snd s)"
    using s t(2) get keys unfolding readable_def
    by (metis fst_conv sum.inject(2) option.distinct(1))
  moreover have "encrypted_get C th ek D (t, snd s) j =
      (if j = k then Inr None else encrypted_get C th ek D s j)" if j: "good' j" for j
  proof -
    obtain j' where j': "effective_key C th ek j = Inr j'" "good j'" using keys j by blast
    with get same [of j] k' show ?thesis by (auto simp: encrypted_get_def map_err_def)
  qed
  ultimately show "\<exists>s'. dyn_remove (EncryptedStore C th rng ek D) s k = Inr s' \<and>
      readable C th ek D ok good' s' \<and> (\<forall>j. good' j \<longrightarrow> dyn_get (EncryptedStore C th rng ek D) s' j =
        (if j = k then Inr None else dyn_get (EncryptedStore C th rng ek D) s j))"
    using k'(1) t(1) by (simp add: EncryptedStore_def encrypted_remove_def map_err_def)
qed

section \<open>Properties\<close>

text \<open>A cipher for the witnesses: the tag is sixteen zeros.\<close>

definition tag_cipher :: cipher where
  "tag_cipher = \<lparr>aead_encrypt = (\<lambda>n p. Inr (p @ replicate 16 0)),
     aead_decrypt = (\<lambda>n c. Inr (take (length c - 16) c))\<rparr>"

lemma tag_cipher_ok: "cipher_ok tag_cipher"
  by (simp add: cipher_ok_def tag_cipher_def)



end
