(* ===== verification/HashMap.thy ===== *)
theory HashMap
  imports Prelude "HOL-Library.AList"
begin

text \<open>
  Hash maps of the Rust code as association lists with distinct keys, in some iteration order.
  Every client result that is stated about a map is stated through \<open>map_of\<close>, so it does not
  depend on that order.
\<close>

type_synonym ('k, 'v) hashmap = "('k \<times> 'v) list"

definition hm_ok :: "('k, 'v) hashmap \<Rightarrow> bool" where
  "hm_ok m \<longleftrightarrow> distinct (map fst m)"

definition hm_insert :: "'k \<Rightarrow> 'v \<Rightarrow> ('k, 'v) hashmap \<Rightarrow> ('k, 'v) hashmap" where
  "hm_insert k v m = AList.update k v m"

definition hm_extend :: "('k, 'v) hashmap \<Rightarrow> ('k \<times> 'v) list \<Rightarrow> ('k, 'v) hashmap" where
  "hm_extend m kvs = fold (\<lambda>(k, v). hm_insert k v) kvs m"

definition hm_retain :: "('k \<Rightarrow> 'v \<Rightarrow> bool) \<Rightarrow> ('k, 'v) hashmap \<Rightarrow> ('k, 'v) hashmap" where
  "hm_retain P m = filter (\<lambda>(k, v). P k v) m"

definition hm_contains :: "('k, 'v) hashmap \<Rightarrow> 'k \<Rightarrow> bool" where
  "hm_contains m k \<longleftrightarrow> map_of m k \<noteq> None"

definition hm_keys :: "('k, 'v) hashmap \<Rightarrow> 'k list" where
  "hm_keys m = map fst m"

lemma hm_ok_Nil [simp]: "hm_ok []"
  by (simp add: hm_ok_def)

lemma hm_ok_insert [simp]: "hm_ok m \<Longrightarrow> hm_ok (hm_insert k v m)"
  by (simp add: hm_ok_def hm_insert_def distinct_update)

lemma hm_ok_extend [simp]: "hm_ok m \<Longrightarrow> hm_ok (hm_extend m kvs)"
  by (induction kvs arbitrary: m) (auto simp: hm_extend_def)

lemma hm_ok_retain [simp]: "hm_ok m \<Longrightarrow> hm_ok (hm_retain P m)"
  by (auto simp: hm_ok_def hm_retain_def intro: distinct_map_filter)

lemma map_of_insert [simp]: "map_of (hm_insert k v m) = (map_of m)(k \<mapsto> v)"
  by (simp add: hm_insert_def update_conv')

lemma hm_extend_simps [simp]:
  "hm_extend m [] = m" "hm_extend m (kv # kvs) = hm_extend (hm_insert (fst kv) (snd kv) m) kvs"
  by (simp_all add: hm_extend_def case_prod_beta)

lemma hm_extend_append: "hm_extend m (xs @ ys) = hm_extend (hm_extend m xs) ys"
  by (simp add: hm_extend_def)

lemma map_of_extend: "map_of (hm_extend m kvs) = map_of m ++ map_of (rev kvs)"
proof (induction kvs arbitrary: m)
  case (Cons kv kvs)
  show ?case
    by (simp add: Cons map_add_assoc [symmetric]) (simp add: map_add_def fun_eq_iff split: option.splits)
qed simp

lemma map_of_extend_fun:
  assumes "\<And>k v. (k, v) \<in> set kvs \<longleftrightarrow> f k = Some v"
  shows "map_of (hm_extend m kvs) = map_of m ++ f"
proof -
  have "map_of (rev kvs) k = f k" for k
  proof (cases "f k")
    case None
    then show ?thesis using assms by (auto simp: map_of_eq_None_iff)
  next
    case (Some v)
    then have "(k, v) \<in> set (rev kvs)" using assms by simp
    then obtain w where w: "map_of (rev kvs) k = Some w" by (metis weak_map_of_SomeI)
    then have "(k, w) \<in> set kvs" by (auto dest: map_of_SomeD)
    with assms Some w show ?thesis by simp
  qed
  then show ?thesis by (simp add: map_of_extend fun_eq_iff map_add_def)
qed

lemma map_of_retain:
  "hm_ok m \<Longrightarrow> map_of (hm_retain P m) k = (case map_of m k of Some v \<Rightarrow> if P k v then Some v else None | None \<Rightarrow> None)"
proof (induction m)
  case (Cons kv m)
  obtain k' v where kv: "kv = (k', v)" by fastforce
  have "map_of m k' = None" using Cons.prems kv by (simp add: hm_ok_def map_of_eq_None_iff)
  with Cons kv show ?case by (auto simp: hm_ok_def hm_retain_def split: option.splits)
qed (simp add: hm_retain_def)

lemma map_of_retain_key:
  "map_of (hm_retain (\<lambda>k _. P k) m) k = (if P k then map_of m k else None)"
  by (induction m) (auto simp: hm_retain_def)

lemma set_hm_keys [simp]: "set (hm_keys m) = dom (map_of m)"
  by (simp add: hm_keys_def dom_map_of_conv_image_fst)

lemma distinct_hm_keys: "hm_ok m \<Longrightarrow> distinct (hm_keys m)"
  by (simp add: hm_ok_def hm_keys_def)

lemma set_map_filter: "y \<in> set (List.map_filter f xs) \<longleftrightarrow> (\<exists>x \<in> set xs. f x = Some y)"
  by (force simp: List.map_filter_def image_iff)

end
