(* ===== verification/Cache.thy ===== *)
theory Cache
  imports Descriptor Store HashMap "HOL-Library.List_Lexorder" "HOL-Library.Product_Lexorder" "HOL-Library.Option_ord"
begin

text \<open>
  The wallet cache (\<^verbatim>\<open>lwk_wollet/src/cache.rs\<close>): the transactions in their store, the scripts of the
  wallet, the heights, the sorted list of transaction ids and the unspent outputs. The store is a
  \<open>DynStore\<close> and its state. Operations on \<open>&mut self\<close> return the outcome and the state they leave,
  also when they fail. The JSON text of a list of strings is a parameter.
\<close>

section \<open>The state\<close>

record 's Cache =
  txs_store :: 's
  cache_txids :: "Txid list"
  paths :: "(Script, Chain \<times> ChildNumber) hashmap"
  scripts :: "(Chain \<times> ChildNumber, Script \<times> BlindingPublicKey option) hashmap"
  heights :: "(Txid, Height option) hashmap"
  sorted_txids :: "Txid list"
  unspent :: "(OutPoint, Script) hashmap"
  unblinded :: "(OutPoint, TxOutSecrets) hashmap"
  cache_tip :: "Height \<times> BlockHash"
  timestamps :: "(Height, Timestamp) hashmap"
  last_unused_external :: u32
  last_unused_internal :: u32

text \<open>The set of transaction ids is a list without duplicates, in some iteration order.\<close>

definition Cache_new :: "'s \<Rightarrow> 's Cache" where
  "Cache_new store = \<lparr>txs_store = store, cache_txids = [], paths = [], scripts = [], heights = [],
     sorted_txids = [], unspent = [], unblinded = [], cache_tip = (0, replicate 32 0),
     timestamps = [], last_unused_external = 0, last_unused_internal = 0\<rparr>"

definition BATCH_SIZE :: u32 where "BATCH_SIZE = 20"

definition TXIDS_KEY :: string where "TXIDS_KEY = ''wollet:txids''"

text \<open>A transaction id is displayed in reverse byte order.\<close>

definition txid_display :: "Txid \<Rightarrow> string" where
  "txid_display t = to_lower_hex (rev t)"

definition txid_parse :: "string \<Rightarrow> Txid option" where
  "txid_parse s = (case from_hex_array 32 s of Inr b \<Rightarrow> Some (rev b) | Inl _ \<Rightarrow> None)"

definition tx_key :: "Txid \<Rightarrow> string" where
  "tx_key t = ''wollet:tx:'' @ txid_display t"

record json_strings =
  js_to_vec :: "string list \<Rightarrow> bytes"
  js_from_slice :: "bytes \<Rightarrow> string list option"

section \<open>What the hash of a cache covers\<close>

instantiation Chain :: linorder
begin

definition less_eq_Chain :: "Chain \<Rightarrow> Chain \<Rightarrow> bool" where
  "less_eq_Chain a b \<longleftrightarrow> a = External \<or> b = Internal"

definition less_Chain :: "Chain \<Rightarrow> Chain \<Rightarrow> bool" where
  "less_Chain a b \<longleftrightarrow> a = External \<and> b = Internal"

instance
  by standard (auto simp: less_eq_Chain_def less_Chain_def intro: Chain.exhaust)

end

text \<open>The maps are hashed as sorted lists, the scripts without their blinding keys; the unspent
  outputs and the sorted ids are not hashed.\<close>

record cache_view =
  view_txids :: "Txid list"
  view_paths :: "(Script \<times> Chain \<times> ChildNumber) list"
  view_scripts :: "((Chain \<times> ChildNumber) \<times> Script) list"
  view_heights :: "(Txid \<times> Height option) list"
  view_unblinded :: "(OutPoint \<times> TxOutSecrets) list"
  view_tip :: "Height \<times> BlockHash"
  view_timestamps :: "(Height \<times> Timestamp) list"
  view_last_unused :: "u32 \<times> u32"

definition outpoint_key :: "OutPoint \<Rightarrow> Txid \<times> u32" where
  "outpoint_key op = (op_txid op, op_vout op)"

definition Cache_hash :: "'s Cache \<Rightarrow> cache_view" where
  "Cache_hash c = \<lparr>view_txids = sort (cache_txids c), view_paths = sort (paths c),
     view_scripts = sort (map (\<lambda>(k, v). (k, fst v)) (scripts c)), view_heights = sort (heights c),
     view_unblinded = sort_key (\<lambda>kv. outpoint_key (fst kv)) (unblinded c), view_tip = cache_tip c,
     view_timestamps = sort (timestamps c),
     view_last_unused = (last_unused_external c, last_unused_internal c)\<rparr>"

section \<open>Scripts\<close>

definition from_normal_idx :: "u32 \<Rightarrow> wollet_error fault + ChildNumber" where
  "from_normal_idx j =
     (if j < 0x80000000 then Inr j else Inl (Err (BitcoinBIP32Error ''invalid child number'')))"

definition get_or_derive ::
    "('k, 'd, 'x) miniscript \<Rightarrow> secp \<Rightarrow> 's Cache \<Rightarrow> Chain \<Rightarrow> ChildNumber \<Rightarrow> ('k, 'd) WolletDescriptor \<Rightarrow>
      wollet_error fault + (Script \<times> BlindingPublicKey option \<times> bool)" where
  "get_or_derive M S c ext_int child w =
     (case map_of (scripts c) (ext_int, child) of
        Some (script, pk) \<Rightarrow> Inr (script, pk, True)
      | None \<Rightarrow> rbind (derive_script_and_blinding_key M S w ext_int child) (\<lambda>(script, pk).
          Inr (script, pk, False)))"

record ScriptBatch =
  sb_cached :: bool
  sb_value :: "(Script \<times> Chain \<times> ChildNumber \<times> BlindingPublicKey option) list"

fun batch_loop ::
    "(Chain \<Rightarrow> ChildNumber \<Rightarrow> wollet_error fault + (Script \<times> BlindingPublicKey option \<times> bool)) \<Rightarrow> Chain \<Rightarrow>
      u32 list \<Rightarrow> ScriptBatch \<Rightarrow> wollet_error fault + ScriptBatch" where
  "batch_loop get ext_int [] result = Inr result"
| "batch_loop get ext_int (j # js) result =
     rbind (from_normal_idx j) (\<lambda>child.
     rbind (get ext_int child) (\<lambda>(script, pk, cached).
     batch_loop get ext_int js
       \<lparr>sb_cached = cached, sb_value = sb_value result @ [(script, ext_int, child, pk)]\<rparr>))"

text \<open>\<open>batch * BATCH_SIZE\<close> and \<open>start + BATCH_SIZE\<close> are checked for overflow; \<open>count as u32\<close> is not.\<close>

definition get_script_batch ::
    "('k, 'd, 'x) miniscript \<Rightarrow> secp \<Rightarrow> 's Cache \<Rightarrow> u32 \<Rightarrow> ('k, 'd) WolletDescriptor \<Rightarrow> Chain \<Rightarrow>
      wollet_error fault + ScriptBatch" where
  "get_script_batch M S c batch w ext_int =
     (let get = (\<lambda>e i. get_or_derive M S c e i w); result = \<lparr>sb_cached = True, sb_value = []\<rparr>
      in case spk_count w of
          Some n \<Rightarrow>
            if 0 < batch then Inr result
            else batch_loop get External (map of_nat [0..<unat (of_nat n :: u32)]) result
        | None \<Rightarrow>
            if 2 ^ 32 \<le> unat batch * unat BATCH_SIZE
            then Inl (Panic ''attempt to multiply with overflow'')
            else if 2 ^ 32 \<le> unat batch * unat BATCH_SIZE + unat BATCH_SIZE
            then Inl (Panic ''attempt to add with overflow'')
            else let start = unat batch * unat BATCH_SIZE in
              batch_loop get ext_int (map of_nat [start..<start + unat BATCH_SIZE]) result)"

section \<open>Transactions\<close>

definition cache_tx :: "env \<Rightarrow> 's DynStore \<Rightarrow> 's Cache \<Rightarrow> Txid \<Rightarrow> Transaction option" where
  "cache_tx E D c t =
     (case dyn_get D (txs_store c) (tx_key t) of
        Inr (Some bytes) \<Rightarrow>
          (case deserialize (decode_Transaction E) bytes of Inr tx \<Rightarrow> Some tx | Inl _ \<Rightarrow> None)
      | _ \<Rightarrow> None)"

definition tx_as_fallback ::
    "env \<Rightarrow> 's DynStore \<Rightarrow> 's Cache \<Rightarrow> Txid \<Rightarrow> (Txid \<times> Transaction) list \<Rightarrow> Transaction option" where
  "tx_as_fallback E D c t txs =
     (case map_of txs t of Some tx \<Rightarrow> Some tx | None \<Rightarrow> cache_tx E D c t)"

definition tx_output_script :: "Transaction \<Rightarrow> u32 \<Rightarrow> Script option" where
  "tx_output_script tx vout =
     (if unat vout < length (tx_output tx) then Some (script_pubkey (tx_output tx ! unat vout)) else None)"

definition outpoint_script ::
    "env \<Rightarrow> 's DynStore \<Rightarrow> 's Cache \<Rightarrow> OutPoint \<Rightarrow> (Txid \<times> Transaction) list \<Rightarrow> Script option" where
  "outpoint_script E D c op txs =
     Option.bind (tx_as_fallback E D c (op_txid op) txs) (\<lambda>tx. tx_output_script tx (op_vout op))"

definition all_txs :: "env \<Rightarrow> 's DynStore \<Rightarrow> 's Cache \<Rightarrow> (Txid \<times> Transaction) list" where
  "all_txs E D c = List.map_filter (\<lambda>t. map_option (Pair t) (cache_tx E D c t)) (cache_txids c)"

definition store_put :: "'s DynStore \<Rightarrow> string \<Rightarrow> bytes \<Rightarrow> ('s Cache, wollet_error, unit) mut_fn" where
  "store_put D key value c =
     (case dyn_put D (txs_store c) key value of
        Inr s \<Rightarrow> (Inr (), c\<lparr>txs_store := s\<rparr>)
      | Inl e \<Rightarrow> (Inl (Err (StoreError e)), c))"

fun store_txs :: "'s DynStore \<Rightarrow> (Txid \<times> Transaction) list \<Rightarrow> ('s Cache, wollet_error, unit) mut_fn" where
  "store_txs D [] c = (Inr (), c)"
| "store_txs D ((t, tx) # txs) c =
     mbind (store_put D (tx_key t) (encode_Transaction tx) c) (\<lambda>_ c.
     store_txs D txs (c\<lparr>cache_txids := List.insert t (cache_txids c)\<rparr>))"

definition extend_all_txs ::
    "'s DynStore \<Rightarrow> json_strings \<Rightarrow> (Txid \<times> Transaction) list \<Rightarrow> ('s Cache, wollet_error, unit) mut_fn" where
  "extend_all_txs D J txs c =
     mbind (store_txs D txs c) (\<lambda>_ c.
     if txs = [] then (Inr (), c)
     else store_put D TXIDS_KEY (js_to_vec J (map txid_display (cache_txids c))) c)"

definition add_txids_from_txs_store :: "'s DynStore \<Rightarrow> json_strings \<Rightarrow> 's Cache \<Rightarrow> 's Cache" where
  "add_txids_from_txs_store D J c =
     (let strings = (case dyn_get D (txs_store c) TXIDS_KEY of
            Inr (Some b) \<Rightarrow> (case js_from_slice J b of Some ss \<Rightarrow> ss | None \<Rightarrow> [])
          | _ \<Rightarrow> [])
      in c\<lparr>cache_txids := fold List.insert (List.map_filter txid_parse strings) (cache_txids c)\<rparr>)"

section \<open>Heights and the order of transactions\<close>

definition update_heights :: "(Txid \<times> Height option) list \<Rightarrow> Txid list \<Rightarrow> 's Cache \<Rightarrow> 's Cache" where
  "update_heights new to_delete c =
     c\<lparr>heights := hm_extend (hm_retain (\<lambda>k _. k \<notin> set to_delete) (heights c)) new\<rparr>"

definition height_key :: "(Txid, Height option) hashmap \<Rightarrow> Txid \<Rightarrow> u32" where
  "height_key hs t = (case map_of hs t of Some (Some h) \<Rightarrow> h | _ \<Rightarrow> 0xffffffff)"

text \<open>The comparator: descending height, unconfirmed transactions first, then descending id.\<close>

definition txid_before :: "(Txid, Height option) hashmap \<Rightarrow> Txid \<Rightarrow> Txid \<Rightarrow> bool" where
  "txid_before hs a b \<longleftrightarrow>
     height_key hs b < height_key hs a \<or> height_key hs b = height_key hs a \<and> b \<le> a"

fun insert_by :: "('a \<Rightarrow> 'a \<Rightarrow> bool) \<Rightarrow> 'a \<Rightarrow> 'a list \<Rightarrow> 'a list" where
  "insert_by le x [] = [x]"
| "insert_by le x (y # ys) = (if le x y then x # y # ys else y # insert_by le x ys)"

definition sort_by :: "('a \<Rightarrow> 'a \<Rightarrow> bool) \<Rightarrow> 'a list \<Rightarrow> 'a list" where
  "sort_by le xs = foldr (insert_by le) xs []"

definition rebuild_sorted_txids :: "'s Cache \<Rightarrow> 's Cache" where
  "rebuild_sorted_txids c =
     c\<lparr>sorted_txids := sort_by (txid_before (heights c)) (hm_keys (heights c))\<rparr>"

definition cache_sorted_txids :: "'s Cache \<Rightarrow> (Txid \<times> Height option) list" where
  "cache_sorted_txids c = map (\<lambda>t. (t, case map_of (heights c) t of Some h \<Rightarrow> h | None \<Rightarrow> None)) (sorted_txids c)"

section \<open>Unspent outputs\<close>

definition inputs_of :: "Transaction \<Rightarrow> OutPoint list" where
  "inputs_of tx = map previous_output (tx_input tx)"

definition owned_script ::
    "env \<Rightarrow> 's DynStore \<Rightarrow> 's Cache \<Rightarrow> (Txid \<times> Transaction) list \<Rightarrow> OutPoint \<Rightarrow> (OutPoint \<times> Script) option" where
  "owned_script E D c txs op =
     (case outpoint_script E D c op txs of
        Some script \<Rightarrow> if hm_contains (paths c) script then Some (op, script) else None
      | None \<Rightarrow> None)"

definition outputs_new ::
    "env \<Rightarrow> 's DynStore \<Rightarrow> 's Cache \<Rightarrow> Txid list \<Rightarrow> (Txid \<times> Transaction) list \<Rightarrow> (OutPoint \<times> Script) list" where
  "outputs_new E D c txids_new txs =
     List.map_filter (owned_script E D c txs)
       (filter (\<lambda>op. op_txid op \<in> set txids_new) (hm_keys (unblinded c)))"

definition inputs_new ::
    "env \<Rightarrow> 's DynStore \<Rightarrow> 's Cache \<Rightarrow> Txid list \<Rightarrow> (Txid \<times> Transaction) list \<Rightarrow> OutPoint list" where
  "inputs_new E D c txids_new txs =
     concat (map inputs_of (List.map_filter (\<lambda>t. tx_as_fallback E D c t txs) txids_new))"

definition inputs_to_restore ::
    "env \<Rightarrow> 's DynStore \<Rightarrow> 's Cache \<Rightarrow> Txid list \<Rightarrow> (Txid \<times> Transaction) list \<Rightarrow> (OutPoint \<times> Script) list" where
  "inputs_to_restore E D c deleted txs =
     List.map_filter (owned_script E D c txs)
       (filter (hm_contains (unblinded c)) (inputs_new E D c deleted txs))"

definition update_unspent ::
    "env \<Rightarrow> 's DynStore \<Rightarrow> (Txid \<times> Height option) list \<Rightarrow> Txid list \<Rightarrow> (Txid \<times> Transaction) list \<Rightarrow>
      's Cache \<Rightarrow> 's Cache" where
  "update_unspent E D new_heights deleted txs c =
     (let txids_new = map fst new_heights;
          spent = inputs_new E D c txids_new txs;
          u = hm_extend (unspent c) (outputs_new E D c txids_new txs);
          u = hm_extend u (inputs_to_restore E D c deleted txs);
          u = hm_retain (\<lambda>op _. op \<notin> set spent) u;
          u = hm_retain (\<lambda>op _. \<forall>t \<in> set deleted. t \<noteq> op_txid op) u
      in c\<lparr>unspent := u\<rparr>)"

definition update_unspent_utxos_only ::
    "env \<Rightarrow> 's DynStore \<Rightarrow> OutPoint list \<Rightarrow> (Txid \<times> Transaction) list \<Rightarrow> 's Cache \<Rightarrow> 's Cache" where
  "update_unspent_utxos_only E D ops txs c =
     c\<lparr>unspent := hm_extend [] (List.map_filter (\<lambda>op.
         map_option (Pair op) (case map_of (unspent c) op of
           Some script \<Rightarrow> Some script | None \<Rightarrow> outpoint_script E D c op txs)) ops)\<rparr>"

definition cache_update ::
    "env \<Rightarrow> 's DynStore \<Rightarrow> json_strings \<Rightarrow> (Txid \<times> Height option) list \<Rightarrow> Txid list \<Rightarrow>
      (Txid \<times> Transaction) list \<Rightarrow> bool \<Rightarrow> OutPoint list \<Rightarrow> ('s Cache, wollet_error, unit) mut_fn" where
  "cache_update E D J new_heights deleted txs utxo_only ops c =
     mbind (extend_all_txs D J txs c) (\<lambda>_ c.
     let c = rebuild_sorted_txids (update_heights new_heights deleted c)
     in (Inr (), if utxo_only then update_unspent_utxos_only E D ops txs c
                 else update_unspent E D new_heights deleted txs c))"

definition extend_unblinded :: "(OutPoint \<times> TxOutSecrets) list \<Rightarrow> 's Cache \<Rightarrow> 's Cache" where
  "extend_unblinded us c = c\<lparr>unblinded := hm_extend (unblinded c) us\<rparr>"

section \<open>The sorted transaction ids\<close>

lemma insert_by_props:
  assumes "\<And>a b. le a b \<or> le b a" "\<And>a b c. le a b \<Longrightarrow> le b c \<Longrightarrow> le a c"
  shows "mset (insert_by le x xs) = add_mset x (mset xs)" "sorted_wrt le xs \<Longrightarrow> sorted_wrt le (insert_by le x xs)"
proof -
  show *: "mset (insert_by le x xs) = add_mset x (mset xs)" for xs by (induction xs) auto
  have set: "set (insert_by le x xs) = insert x (set xs)" for xs
    using * [of xs] by (metis set_mset_add_mset_insert set_mset_mset)
  show "sorted_wrt le xs \<Longrightarrow> sorted_wrt le (insert_by le x xs)"
  proof (induction xs)
    case (Cons y ys)
    have "le x y \<Longrightarrow> z \<in> set ys \<Longrightarrow> le x z" for z using Cons.prems assms(2) by auto
    moreover have "\<not> le x y \<Longrightarrow> le y x" using assms(1) by blast
    ultimately show ?case using Cons by (simp add: set)
  qed simp
qed

lemma sort_by_props:
  assumes "\<And>a b. le a b \<or> le b a" "\<And>a b c. le a b \<Longrightarrow> le b c \<Longrightarrow> le a c"
  shows "mset (sort_by le xs) = mset xs" "sorted_wrt le (sort_by le xs)"
  unfolding sort_by_def by (induction xs) (simp_all add: insert_by_props [OF assms])

lemma txid_before_order:
  "txid_before hs a b \<or> txid_before hs b a" "txid_before hs a b \<Longrightarrow> txid_before hs b c \<Longrightarrow> txid_before hs a c"
  "txid_before hs a b \<Longrightarrow> txid_before hs b a \<Longrightarrow> a = b"
  by (auto simp: txid_before_def not_less)

text \<open>The maps have distinct keys and the list of ids lists the wallet's transactions in order.\<close>

definition cache_ok :: "'s Cache \<Rightarrow> bool" where
  "cache_ok c \<longleftrightarrow> hm_ok (paths c) \<and> hm_ok (scripts c) \<and> hm_ok (heights c) \<and> hm_ok (unspent c) \<and>
     hm_ok (unblinded c) \<and> hm_ok (timestamps c) \<and> distinct (cache_txids c) \<and>
     mset (sorted_txids c) = mset (hm_keys (heights c)) \<and>
     sorted_wrt (txid_before (heights c)) (sorted_txids c)"

lemma Cache_new_ok: "cache_ok (Cache_new store)"
  by (simp add: cache_ok_def Cache_new_def hm_keys_def)

lemma rebuild_sorted_txids_ok:
  "mset (sorted_txids (rebuild_sorted_txids c)) = mset (hm_keys (heights c))"
  "sorted_wrt (txid_before (heights c)) (sorted_txids (rebuild_sorted_txids c))"
  using sort_by_props [of "txid_before (heights c)", OF txid_before_order(1) txid_before_order(2)]
  by (simp_all add: rebuild_sorted_txids_def)

section \<open>Storing transactions\<close>

text \<open>Everything but the store and the known ids is left alone by the operations on the store.\<close>

definition same_but_store :: "'s Cache \<Rightarrow> 's Cache \<Rightarrow> bool" where
  "same_but_store c d \<longleftrightarrow> paths d = paths c \<and> scripts d = scripts c \<and> heights d = heights c \<and>
     sorted_txids d = sorted_txids c \<and> unspent d = unspent c \<and> unblinded d = unblinded c \<and>
     cache_tip d = cache_tip c \<and> timestamps d = timestamps c \<and>
     last_unused_external d = last_unused_external c \<and> last_unused_internal d = last_unused_internal c"

lemma store_put_frame: "store_put D k v c = (r, d) \<Longrightarrow> same_but_store c d \<and> cache_txids d = cache_txids c"
  by (auto simp: store_put_def same_but_store_def split: sum.splits)

lemma same_but_store_trans: "same_but_store a b \<Longrightarrow> same_but_store b c \<Longrightarrow> same_but_store a c"
  by (simp add: same_but_store_def)

lemma store_txs_frame: "store_txs D txs c = (r, d) \<Longrightarrow> same_but_store c d"
proof (induction txs arbitrary: c)
  case (Cons p txs)
  obtain t tx where p: "p = (t, tx)" by fastforce
  obtain r1 c1 where c1: "store_put D (tx_key t) (encode_Transaction tx) c = (r1, c1)" by fastforce
  note c1' = store_put_frame [OF c1]
  show ?case
  proof (cases r1)
    case (Inr u)
    then have "same_but_store (c1\<lparr>cache_txids := List.insert t (cache_txids c1)\<rparr>) d"
      using Cons.prems p c1 by (intro Cons.IH) simp
    with c1' show ?thesis by (simp add: same_but_store_def)
  qed (use Cons.prems p c1 c1' in simp)
qed (simp add: same_but_store_def)

lemma extend_all_txs_frame: "extend_all_txs D J txs c = (r, d) \<Longrightarrow> same_but_store c d"
proof -
  assume a: "extend_all_txs D J txs c = (r, d)"
  obtain r1 c1 where c1: "store_txs D txs c = (r1, c1)" by fastforce
  with a show ?thesis
    using store_txs_frame [OF c1] store_put_frame [of D TXIDS_KEY _ c1]
    by (cases r1) (auto simp: extend_all_txs_def same_but_store_def split: if_splits)
qed

lemma store_txs_distinct: "distinct (cache_txids c) \<Longrightarrow> store_txs D txs c = (r, d) \<Longrightarrow> distinct (cache_txids d)"
proof (induction txs arbitrary: c)
  case (Cons p txs)
  obtain t tx where p: "p = (t, tx)" by fastforce
  obtain r1 c1 where c1: "store_put D (tx_key t) (encode_Transaction tx) c = (r1, c1)" by fastforce
  then have "distinct (cache_txids c1)" using store_put_frame Cons.prems(1) by metis
  then show ?case using Cons.prems(2) p c1 Cons.IH [of "c1\<lparr>cache_txids := List.insert t (cache_txids c1)\<rparr>"]
    by (cases r1) auto
qed simp

lemma extend_all_txs_distinct:
  "distinct (cache_txids c) \<Longrightarrow> extend_all_txs D J txs c = (r, d) \<Longrightarrow> distinct (cache_txids d)"
proof -
  assume a: "distinct (cache_txids c)" "extend_all_txs D J txs c = (r, d)"
  obtain r1 c1 where c1: "store_txs D txs c = (r1, c1)" by fastforce
  with a show ?thesis
    using store_txs_distinct [OF a(1) c1] store_put_frame [of D TXIDS_KEY _ c1]
    by (cases r1) (auto simp: extend_all_txs_def split: if_splits)
qed

lemma txid_display_inj [simp]: "txid_display a = txid_display b \<longleftrightarrow> a = b"
  by (simp add: txid_display_def to_lower_hex_inj)

lemma tx_key_inj [simp]: "tx_key a = tx_key b \<longleftrightarrow> a = b"
  by (simp add: tx_key_def)

lemma tx_key_not_txids [simp]: "tx_key a \<noteq> TXIDS_KEY" "TXIDS_KEY \<noteq> tx_key a"
  by (simp_all add: tx_key_def TXIDS_KEY_def)

section \<open>The unspent outputs\<close>

text \<open>The reference definition: with the transactions \<open>tx_of\<close>, the outputs \<open>own\<close> that belong to the
  wallet with their scripts, and the wallet's transactions \<open>H\<close>, the unspent outputs are those of
  \<open>H\<close> that belong to the wallet and that no transaction of \<open>H\<close> spends.\<close>

definition spends :: "(Txid \<Rightarrow> Transaction option) \<Rightarrow> Txid \<Rightarrow> OutPoint \<Rightarrow> bool" where
  "spends tx_of t op \<longleftrightarrow> (\<exists>tx. tx_of t = Some tx \<and> op \<in> set (inputs_of tx))"

definition utxo_spec ::
    "(Txid \<Rightarrow> Transaction option) \<Rightarrow> (OutPoint \<Rightarrow> Script option) \<Rightarrow> Txid set \<Rightarrow> OutPoint \<Rightarrow> Script option" where
  "utxo_spec tx_of own H op = (if op_txid op \<in> H \<and> (\<forall>t \<in> H. \<not> spends tx_of t op) then own op else None)"

definition owned ::
    "(Txid \<Rightarrow> Transaction option) \<Rightarrow> 's Cache \<Rightarrow> OutPoint \<Rightarrow> Script option" where
  "owned tx_of c op =
     (if hm_contains (unblinded c) op
      then Option.bind (Option.bind (tx_of (op_txid op)) (\<lambda>tx. tx_output_script tx (op_vout op)))
        (\<lambda>script. if hm_contains (paths c) script then Some script else None)
      else None)"

lemma set_inputs_new:
  "op \<in> set (inputs_new E D c ts txs) \<longleftrightarrow> (\<exists>t \<in> set ts. spends (\<lambda>t. tx_as_fallback E D c t txs) t op)"
proof -
  have "op \<in> set (inputs_new E D c ts txs) \<longleftrightarrow>
      (\<exists>tx \<in> set (List.map_filter (\<lambda>t. tx_as_fallback E D c t txs) ts). op \<in> set (inputs_of tx))"
    by (simp add: inputs_new_def)
  then show ?thesis unfolding Bex_def set_map_filter spends_def by blast
qed

lemma owned_script_iff:
  "hm_contains (unblinded c) op \<Longrightarrow>
     owned_script E D c txs op = Some (op', script) \<longleftrightarrow>
       op' = op \<and> owned (\<lambda>t. tx_as_fallback E D c t txs) c op = Some script"
  by (auto simp: owned_script_def owned_def outpoint_script_def split: option.splits Option.bind_splits)

text \<open>What the update of the unspent outputs computes, output by output.\<close>

lemma update_unspent_at:
  fixes E D c txs
  defines "tx_of \<equiv> \<lambda>t. tx_as_fallback E D c t txs"
  shows "map_of (unspent (update_unspent E D new_heights deleted txs c)) op =
    (if op_txid op \<in> set deleted \<or> (\<exists>t \<in> set (map fst new_heights). spends tx_of t op) then None
     else if (op_txid op \<in> set (map fst new_heights) \<or> (\<exists>t \<in> set deleted. spends tx_of t op)) \<and>
       owned tx_of c op \<noteq> None then owned tx_of c op
     else map_of (unspent c) op)"
proof -
  define N where "N = map fst new_heights"
  define f where "f op = (if op_txid op \<in> set N then owned tx_of c op else None)" for op
  define g where "g op = (if \<exists>t \<in> set deleted. spends tx_of t op then owned tx_of c op else None)" for op
  have unb: "owned tx_of c op = Some s \<Longrightarrow> hm_contains (unblinded c) op" for op s
    by (simp add: owned_def split: if_splits)
  have f: "(op, s) \<in> set (outputs_new E D c N txs) \<longleftrightarrow> f op = Some s" for op s
    using unb [of op s] owned_script_iff [of c _ E D txs op s]
    by (auto simp: outputs_new_def f_def set_map_filter tx_of_def hm_contains_def)
  have g: "(op, s) \<in> set (inputs_to_restore E D c deleted txs) \<longleftrightarrow> g op = Some s" for op s
    using unb [of op s] owned_script_iff [of c _ E D txs op s]
    by (auto simp: inputs_to_restore_def g_def set_map_filter tx_of_def set_inputs_new)
  have "map_of (unspent (update_unspent E D new_heights deleted txs c)) op =
    (if op_txid op \<in> set deleted \<or> op \<in> set (inputs_new E D c N txs) then None else (map_of (unspent c) ++ f ++ g) op)"
    unfolding N_def
    by (auto simp: update_unspent_def Let_def map_of_retain_key map_of_extend_fun [OF f, unfolded N_def]
        map_of_extend_fun [OF g])
  then show ?thesis
    by (auto simp: set_inputs_new tx_of_def [symmetric] N_def f_def g_def map_add_def split: option.splits)
qed

text \<open>The conditions under which the incremental update is exact: no transaction is both listed and
  deleted; no transaction that stays unlisted spends an output of a listed one or an output that
  a deleted one spent; and the wallet's outputs that a deleted transaction spent are of
  transactions of the wallet.\<close>

definition unspent_inputs_ok ::
    "(Txid \<Rightarrow> Transaction option) \<Rightarrow> (OutPoint \<Rightarrow> Script option) \<Rightarrow> Txid set \<Rightarrow> Txid set \<Rightarrow> Txid set \<Rightarrow> bool" where
  "unspent_inputs_ok tx_of own H N D \<longleftrightarrow> N \<inter> D = {} \<and>
     (\<forall>op. own op \<noteq> None \<longrightarrow> op_txid op \<in> N \<or> (\<exists>t \<in> D. spends tx_of t op) \<longrightarrow>
        (\<forall>t \<in> H - D - N. \<not> spends tx_of t op)) \<and>
     (\<forall>op. own op \<noteq> None \<longrightarrow> (\<exists>t \<in> D. spends tx_of t op) \<longrightarrow> op_txid op \<in> H \<union> N \<union> D)"

lemma update_unspent_exact:
  fixes E D c txs
  defines "tx_of \<equiv> \<lambda>t. tx_as_fallback E D c t txs"
  assumes ok: "unspent_inputs_ok tx_of (owned tx_of c) H (set (map fst new_heights)) (set deleted)"
    and before: "map_of (unspent c) = utxo_spec tx_of (owned tx_of c) H"
  shows "map_of (unspent (update_unspent E D new_heights deleted txs c)) =
    utxo_spec tx_of (owned tx_of c) (H - set deleted \<union> set (map fst new_heights))"
proof
  fix op
  define N where "N = set (map fst new_heights)"
  define R where "R = set deleted"
  define own where "own = owned tx_of c"
  note at = update_unspent_at [of E D new_heights deleted txs c op, folded tx_of_def, folded N_def R_def own_def]
  have disj: "N \<inter> R = {}"
    and b: "\<And>t. own op \<noteq> None \<Longrightarrow> op_txid op \<in> N \<or> (\<exists>t \<in> R. spends tx_of t op) \<Longrightarrow> t \<in> H - R - N \<Longrightarrow> \<not> spends tx_of t op"
    and d: "own op \<noteq> None \<Longrightarrow> \<exists>t \<in> R. spends tx_of t op \<Longrightarrow> op_txid op \<in> H \<union> N \<union> R"
    using ok unfolding unspent_inputs_ok_def N_def [symmetric] R_def [symmetric] own_def [symmetric] by blast+
  have "map_of (unspent (update_unspent E D new_heights deleted txs c)) op = utxo_spec tx_of own (H - R \<union> N) op"
  proof (cases "op_txid op \<in> R \<or> (\<exists>t \<in> N. spends tx_of t op)")
    case True
    then have "\<not> (op_txid op \<in> H - R \<union> N \<and> (\<forall>t \<in> H - R \<union> N. \<not> spends tx_of t op))" using disj by blast
    then show ?thesis unfolding at utxo_spec_def if_P [OF True] by (simp only: if_False)
  next
    case no: False
    show ?thesis
    proof (cases "(op_txid op \<in> N \<or> (\<exists>t \<in> R. spends tx_of t op)) \<and> own op \<noteq> None")
      case True
      then have "\<forall>t \<in> H - R \<union> N. \<not> spends tx_of t op" "op_txid op \<in> H - R \<union> N"
        using b d no by blast+
      with True no show ?thesis unfolding at utxo_spec_def by simp
    next
      case False
      have "own op \<noteq> None \<Longrightarrow> (op_txid op \<in> H - R \<union> N \<and> (\<forall>t \<in> H - R \<union> N. \<not> spends tx_of t op)) \<longleftrightarrow>
          op_txid op \<in> H \<and> (\<forall>t \<in> H. \<not> spends tx_of t op)" using False no by blast
      then have "utxo_spec tx_of own (H - R \<union> N) op = utxo_spec tx_of own H op"
        unfolding utxo_spec_def by (cases "own op") simp_all
      then show ?thesis unfolding at if_not_P [OF no] if_not_P [OF False] by (simp add: before own_def)
    qed
  qed
  then show "map_of (unspent (update_unspent E D new_heights deleted txs c)) op =
    utxo_spec tx_of (owned tx_of c) (H - set deleted \<union> set (map fst new_heights)) op"
    by (simp only: N_def R_def own_def)
qed

section \<open>Reading back what was stored\<close>

context dyn_store
begin

lemma store_put_contents:
  assumes "inv (txs_store c)" "good k"
  shows "\<exists>d. store_put D k v c = (Inr (), d) \<and> inv (txs_store d) \<and> contents (txs_store d) = (contents (txs_store c))(k \<mapsto> v)"
  using put_contents [OF assms, of v] by (auto simp: store_put_def)

lemma store_txs_contents:
  assumes "inv (txs_store c)" "\<And>t. good (tx_key t)"
  shows "\<exists>d. store_txs D txs c = (Inr (), d) \<and> inv (txs_store d) \<and>
    cache_txids d = fold List.insert (map fst txs) (cache_txids c) \<and>
    (\<forall>t. contents (txs_store d) (tx_key t) =
       (case map_of (rev txs) t of Some tx \<Rightarrow> Some (encode_Transaction tx) | None \<Rightarrow> contents (txs_store c) (tx_key t)))"
  using assms(1)
proof (induction txs arbitrary: c)
  case (Cons p txs)
  obtain t tx where p: "p = (t, tx)" by fastforce
  obtain c1 where c1: "store_put D (tx_key t) (encode_Transaction tx) c = (Inr (), c1)" "inv (txs_store c1)"
    "contents (txs_store c1) = (contents (txs_store c))(tx_key t \<mapsto> encode_Transaction tx)"
    using store_put_contents [OF Cons.prems assms(2), of t "encode_Transaction tx"] by blast
  let ?c = "c1\<lparr>cache_txids := List.insert t (cache_txids c1)\<rparr>"
  from c1(2) have "inv (txs_store ?c)" by simp
  from Cons.IH [OF this] obtain d where d: "store_txs D txs ?c = (Inr (), d)" "inv (txs_store d)"
    "cache_txids d = fold List.insert (map fst txs) (cache_txids ?c)"
    "\<And>u. contents (txs_store d) (tx_key u) =
       (case map_of (rev txs) u of Some tx \<Rightarrow> Some (encode_Transaction tx) | None \<Rightarrow> contents (txs_store ?c) (tx_key u))"
    by blast
  have "contents (txs_store d) (tx_key u) = (case map_of (rev (p # txs)) u of
      Some tx \<Rightarrow> Some (encode_Transaction tx) | None \<Rightarrow> contents (txs_store c) (tx_key u))" for u
    unfolding d(4) by (cases "map_of (rev txs) u") (auto simp: c1(3) p map_add_def)
  with d c1(1) store_put_frame [OF c1(1)] show ?case by (intro exI [of _ d]) (simp add: p)
qed simp

lemma extend_all_txs_contents:
  assumes "inv (txs_store c)" "\<And>t. good (tx_key t)" "good TXIDS_KEY"
  shows "\<exists>d. extend_all_txs D J txs c = (Inr (), d) \<and> inv (txs_store d) \<and>
    cache_txids d = fold List.insert (map fst txs) (cache_txids c) \<and>
    (\<forall>t. contents (txs_store d) (tx_key t) =
       (case map_of (rev txs) t of Some tx \<Rightarrow> Some (encode_Transaction tx) | None \<Rightarrow> contents (txs_store c) (tx_key t))) \<and>
    (txs \<noteq> [] \<longrightarrow> contents (txs_store d) TXIDS_KEY = Some (js_to_vec J (map txid_display (cache_txids d))))"
proof -
  obtain c1 where c1: "store_txs D txs c = (Inr (), c1)" "inv (txs_store c1)"
    "cache_txids c1 = fold List.insert (map fst txs) (cache_txids c)"
    "\<And>t. contents (txs_store c1) (tx_key t) =
       (case map_of (rev txs) t of Some tx \<Rightarrow> Some (encode_Transaction tx) | None \<Rightarrow> contents (txs_store c) (tx_key t))"
    using store_txs_contents [OF assms(1,2), of txs] by blast
  let ?v = "js_to_vec J (map txid_display (cache_txids c1))"
  obtain d where d: "store_put D TXIDS_KEY ?v c1 = (Inr (), d)" "inv (txs_store d)"
    "contents (txs_store d) = (contents (txs_store c1))(TXIDS_KEY \<mapsto> ?v)"
    using store_put_contents [OF c1(2) assms(3), of ?v] by blast
  show ?thesis
    using c1 d store_put_frame [OF d(1)] by (cases "txs = []") (simp_all add: extend_all_txs_def)
qed

lemma cache_tx_contents:
  assumes "inv (txs_store c)" "good (tx_key t)"
  shows "cache_tx E D c t = Option.bind (contents (txs_store c) (tx_key t))
    (\<lambda>b. case deserialize (decode_Transaction E) b of Inr tx \<Rightarrow> Some tx | Inl _ \<Rightarrow> None)"
  using get_contents [OF assms] by (auto simp: cache_tx_def split: option.splits)

lemma extend_all_txs_tx:
  assumes "inv (txs_store c)" "\<And>t. good (tx_key t)" "good TXIDS_KEY"
    and wf: "\<forall>(t, tx) \<in> set txs. wf_Transaction E tx"
  shows "\<exists>d. extend_all_txs D J txs c = (Inr (), d) \<and> inv (txs_store d) \<and>
    cache_txids d = fold List.insert (map fst txs) (cache_txids c) \<and>
    (\<forall>t. cache_tx E D d t = (case map_of (rev txs) t of Some tx \<Rightarrow> Some tx | None \<Rightarrow> cache_tx E D c t))"
proof -
  obtain d where d: "extend_all_txs D J txs c = (Inr (), d)" "inv (txs_store d)"
    "cache_txids d = fold List.insert (map fst txs) (cache_txids c)"
    "\<And>t. contents (txs_store d) (tx_key t) =
       (case map_of (rev txs) t of Some tx \<Rightarrow> Some (encode_Transaction tx) | None \<Rightarrow> contents (txs_store c) (tx_key t))"
    using extend_all_txs_contents [OF assms(1-3), of J txs] by blast
  have "cache_tx E D d t = (case map_of (rev txs) t of Some tx \<Rightarrow> Some tx | None \<Rightarrow> cache_tx E D c t)" for t
  proof (cases "map_of (rev txs) t")
    case None
    then show ?thesis using d(2,4) assms(1,2) by (simp add: cache_tx_contents)
  next
    case (Some tx)
    then have "wf_Transaction E tx" using wf by (auto dest!: map_of_SomeD)
    then have "deserialize (decode_Transaction E) (encode_Transaction tx) = Inr tx"
      using txc.deserialize_serialize by blast
    then show ?thesis using Some d(2,4) assms(2) by (simp add: cache_tx_contents)
  qed
  with d show ?thesis by blast
qed

end

section \<open>The update of the cache\<close>

definition wallet_txids :: "'s Cache \<Rightarrow> Txid set" where
  "wallet_txids c = dom (map_of (heights c))"

definition unspent_exact :: "env \<Rightarrow> 's DynStore \<Rightarrow> 's Cache \<Rightarrow> bool" where
  "unspent_exact E D c \<longleftrightarrow>
     map_of (unspent c) = utxo_spec (cache_tx E D c) (owned (cache_tx E D c) c) (wallet_txids c)"

text \<open>The transactions known once the new ones are there.\<close>

definition tx_after :: "env \<Rightarrow> 's DynStore \<Rightarrow> 's Cache \<Rightarrow> (Txid \<times> Transaction) list \<Rightarrow> Txid \<Rightarrow> Transaction option" where
  "tx_after E D c txs t = tx_as_fallback E D c t txs"

lemma utxo_spec_cong:
  assumes "\<And>t. t \<in> H \<Longrightarrow> tx_of t = tx_of' t" "\<And>op. op_txid op \<in> H \<Longrightarrow> own op = own' op"
  shows "utxo_spec tx_of own H = utxo_spec tx_of' own' H"
  using assms by (auto simp: utxo_spec_def spends_def fun_eq_iff)

lemma owned_cong:
  assumes "tx_of (op_txid op) = tx_of' (op_txid op)" "unblinded c = unblinded d" "paths c = paths d"
  shows "owned tx_of c op = owned tx_of' d op"
  by (simp only: owned_def assms)

lemma wallet_txids_update_heights:
  "dom (map_of (heights (update_heights new del c))) = wallet_txids c - set del \<union> set (map fst new)"
proof -
  have "dom (map_of (hm_retain (\<lambda>k _. k \<notin> set del) (heights c))) = wallet_txids c - set del"
    by (auto simp: wallet_txids_def map_of_retain_key split: if_splits)
  then show ?thesis
    using dom_map_of_conv_image_fst [of "rev new"] by (simp add: update_heights_def map_of_extend Un_commute)
qed

lemma update_fields:
  "heights (rebuild_sorted_txids c) = heights c" "unspent (rebuild_sorted_txids c) = unspent c"
  "unblinded (rebuild_sorted_txids c) = unblinded c" "paths (rebuild_sorted_txids c) = paths c"
  "txs_store (rebuild_sorted_txids c) = txs_store c"
  "unspent (update_heights new del c) = unspent c" "unblinded (update_heights new del c) = unblinded c"
  "paths (update_heights new del c) = paths c" "txs_store (update_heights new del c) = txs_store c"
  "heights (update_unspent E D new del txs c) = heights c"
  "unblinded (update_unspent E D new del txs c) = unblinded c" "paths (update_unspent E D new del txs c) = paths c"
  "txs_store (update_unspent E D new del txs c) = txs_store c"
  by (simp_all add: rebuild_sorted_txids_def update_heights_def update_unspent_def Let_def)

lemma cache_tx_cong: "txs_store c = txs_store d \<Longrightarrow> cache_tx E D c = cache_tx E D d"
  by (simp add: cache_tx_def fun_eq_iff)

lemma cache_ok_update:
  assumes "cache_ok c" "cache_update E D J new del txs utxo_only ops c = (Inr (), d)"
  shows "cache_ok d"
proof -
  obtain c1 where c1: "extend_all_txs D J txs c = (Inr (), c1)"
    and d: "d = (let c2 = rebuild_sorted_txids (update_heights new del c1)
      in if utxo_only then update_unspent_utxos_only E D ops txs c2 else update_unspent E D new del txs c2)"
    using assms(2) by (auto simp: cache_update_def mbind_eq_Inr Let_def)
  have ids: "distinct (cache_txids c1)"
    using extend_all_txs_distinct [OF _ c1] assms(1) by (simp add: cache_ok_def)
  note same = extend_all_txs_frame [OF c1]
  show ?thesis
    using assms(1) same ids rebuild_sorted_txids_ok [of "update_heights new del c1"]
    unfolding d by (simp add: cache_ok_def same_but_store_def Let_def rebuild_sorted_txids_def update_heights_def
        update_unspent_def update_unspent_utxos_only_def)
qed

context dyn_store
begin

lemma cache_update_exact:
  assumes store: "inv (txs_store c)" "\<And>t. good (tx_key t)" "good TXIDS_KEY"
    and txs: "\<forall>(t, tx) \<in> set txs. wf_Transaction E tx" "distinct (map fst txs)"
    and known: "\<And>t tx. map_of txs t = Some tx \<Longrightarrow> t \<in> wallet_txids c \<Longrightarrow> cache_tx E D c t = Some tx"
    and ok: "unspent_inputs_ok (tx_after E D c txs) (owned (tx_after E D c txs) c) (wallet_txids c)
      (set (map fst new)) (set del)"
    and before: "unspent_exact E D c"
  shows "\<exists>d. cache_update E D J new del txs False ops c = (Inr (), d) \<and> inv (txs_store d) \<and> unspent_exact E D d \<and>
    cache_tx E D d = tx_after E D c txs \<and> cache_txids d = fold List.insert (map fst txs) (cache_txids c) \<and>
    heights d = heights (update_heights new del c)"
proof -
  obtain c1 where c1: "extend_all_txs D J txs c = (Inr (), c1)" "inv (txs_store c1)"
    "cache_txids c1 = fold List.insert (map fst txs) (cache_txids c)"
    "\<And>t. cache_tx E D c1 t = (case map_of (rev txs) t of Some tx \<Rightarrow> Some tx | None \<Rightarrow> cache_tx E D c t)"
    using extend_all_txs_tx [OF store txs(1), of J] by blast
  note same = extend_all_txs_frame [OF c1(1), unfolded same_but_store_def]
  have rev: "map_of (rev txs) = map_of txs" using txs(2) by (subst map_of_inject_set) (simp_all add: rev_map [symmetric])
  have tx1: "cache_tx E D c1 = tx_after E D c txs"
    by (auto simp: fun_eq_iff c1(4) rev tx_after_def tx_as_fallback_def split: option.splits)
  define c2 where "c2 = rebuild_sorted_txids (update_heights new del c1)"
  have c2: "unspent c2 = unspent c" "unblinded c2 = unblinded c" "paths c2 = paths c" "txs_store c2 = txs_store c1"
    "heights c2 = heights (update_heights new del c)"
    using same by (simp_all add: c2_def update_fields) (simp add: update_heights_def)
  have tx2: "(\<lambda>t. tx_as_fallback E D c2 t txs) = tx_after E D c txs"
    using cache_tx_cong [OF c2(4), of E D] tx1
    by (auto simp: fun_eq_iff tx_as_fallback_def tx_after_def split: option.splits)
  have own2: "owned tx c2 = owned tx c" for tx using c2 by (simp add: owned_def fun_eq_iff)
  have agree: "cache_tx E D c t = tx_after E D c txs t" if "t \<in> wallet_txids c" for t
    using known [OF _ that] by (cases "map_of txs t") (simp_all add: tx_after_def tx_as_fallback_def)
  have "map_of (unspent c2) = utxo_spec (tx_after E D c txs) (owned (tx_after E D c txs) c2) (wallet_txids c)"
    unfolding c2(1) own2 before [unfolded unspent_exact_def]
    by (rule utxo_spec_cong, erule agree, rule owned_cong, erule agree) simp_all
  from update_unspent_exact [of E D c2 txs, unfolded tx2, OF _ this, unfolded own2, OF ok]
  have u: "map_of (unspent (update_unspent E D new del txs c2)) =
     utxo_spec (tx_after E D c txs) (owned (tx_after E D c txs) c) (wallet_txids c - set del \<union> set (map fst new))" .
  define d where "d = update_unspent E D new del txs c2"
  have d: "unblinded d = unblinded c" "paths d = paths c" "txs_store d = txs_store c1" "heights d = heights c2"
    by (simp_all add: d_def update_fields c2)
  have "wallet_txids d = wallet_txids c - set del \<union> set (map fst new)"
    using wallet_txids_update_heights [of new del c] by (simp add: wallet_txids_def d c2)
  moreover have txd: "cache_tx E D d = tx_after E D c txs" using cache_tx_cong [OF d(3)] tx1 by metis
  moreover have "owned tx d = owned tx c" for tx using d by (simp add: owned_def fun_eq_iff)
  ultimately have "unspent_exact E D d" using u by (simp add: unspent_exact_def d_def)
  moreover have "cache_update E D J new del txs False ops c = (Inr (), d)"
    by (simp add: cache_update_def c1(1) Let_def d_def c2_def)
  moreover have "cache_txids d = cache_txids c1"
    by (simp add: d_def update_unspent_def Let_def c2_def rebuild_sorted_txids_def update_heights_def)
  ultimately show ?thesis using c1(2,3) d c2 txd by auto
qed

end

section \<open>The hash does not depend on the iteration order\<close>

lemma hm_same_mset:
  assumes "hm_ok m" "hm_ok n" "map_of m = map_of n"
  shows "mset m = mset n"
proof -
  have "set m = set n" using assms map_of_inject_set [of m n] by (simp add: hm_ok_def)
  moreover have "distinct m" "distinct n" using assms by (simp_all add: hm_ok_def distinct_map)
  ultimately show ?thesis by (simp add: set_eq_iff_mset_eq_distinct)
qed

lemma sort_mset_eq: "mset xs = mset ys \<Longrightarrow> sort xs = sort ys" for xs ys :: "'a::linorder list"
  by (metis properties_for_sort mset_sort sorted_sort)

lemma sort_key_mset_eq:
  assumes "mset xs = mset ys" "inj_on f (set xs)"
  shows "sort_key f xs = sort_key f ys"
proof (rule properties_for_sort_key)
  show "mset (sort_key f ys) = mset xs" using assms(1) by simp
  show "sorted (map f (sort_key f ys))" by simp
  fix k assume k: "k \<in> set (sort_key f ys)"
  have set: "set xs = set ys" using assms(1) by (metis set_mset_mset)
  have "filter (\<lambda>x. f k = f x) zs = filter (\<lambda>x. k = x) zs" if "set zs \<subseteq> set xs" for zs
    using that assms(2) k set by (intro filter_cong) (auto dest: inj_onD)
  then have "filter (\<lambda>x. f k = f x) (sort_key f ys) = filter (\<lambda>x. k = x) (sort_key f ys)"
    "filter (\<lambda>x. f k = f x) xs = filter (\<lambda>x. k = x) xs" using set by simp_all
  moreover have "filter ((=) k) (sort_key f ys) = filter ((=) k) xs"
    by (metis assms(1) mset_sort replicate_count_mset_eq_filter_eq)
  ultimately show "filter (\<lambda>x. f k = f x) (sort_key f ys) = filter (\<lambda>x. f k = f x) xs" by simp
qed

lemma outpoint_key_inj [simp]: "outpoint_key a = outpoint_key b \<longleftrightarrow> a = b"
  by (auto simp: outpoint_key_def)

text \<open>Two caches with the same contents.\<close>

definition same_contents :: "'s Cache \<Rightarrow> 's Cache \<Rightarrow> bool" where
  "same_contents c d \<longleftrightarrow> set (cache_txids c) = set (cache_txids d) \<and> map_of (paths c) = map_of (paths d) \<and>
     map_of (scripts c) = map_of (scripts d) \<and> map_of (heights c) = map_of (heights d) \<and>
     map_of (unblinded c) = map_of (unblinded d) \<and> cache_tip c = cache_tip d \<and>
     map_of (timestamps c) = map_of (timestamps d) \<and>
     last_unused_external c = last_unused_external d \<and> last_unused_internal c = last_unused_internal d"

lemma Cache_hash_cong:
  assumes "cache_ok c" "cache_ok d" "same_contents c d"
  shows "Cache_hash c = Cache_hash d"
proof -
  have m: "mset (paths c) = mset (paths d)" "mset (scripts c) = mset (scripts d)" "mset (heights c) = mset (heights d)"
    "mset (unblinded c) = mset (unblinded d)" "mset (timestamps c) = mset (timestamps d)"
    using assms by (simp_all add: hm_same_mset cache_ok_def same_contents_def)
  have ids: "mset (cache_txids c) = mset (cache_txids d)"
    using assms by (simp add: cache_ok_def same_contents_def set_eq_iff_mset_eq_distinct)
  have inj: "inj_on (\<lambda>kv. outpoint_key (fst kv)) (set (unblinded c))"
    using assms(1) by (auto simp: cache_ok_def hm_ok_def distinct_map inj_on_def)
  have sc: "mset (map (\<lambda>(k, v). (k, fst v)) (scripts c)) = mset (map (\<lambda>(k, v). (k, fst v)) (scripts d))"
    using m(2) by simp
  show ?thesis
    using assms(3) sort_mset_eq [OF ids] sort_mset_eq [OF m(1)] sort_mset_eq [OF sc] sort_mset_eq [OF m(3)]
      sort_key_mset_eq [OF m(4) inj] sort_mset_eq [OF m(5)]
    by (simp add: Cache_hash_def same_contents_def)
qed

end
