(* ===== verification/Decimal.thy ===== *)
theory Decimal
  imports Prelude
begin

text \<open>
  Decimal text of natural numbers, as the standard formatter prints it, and the value of a text of
  digits, as the standard parser reads it.
\<close>

definition digit_char :: "nat \<Rightarrow> char" where
  "digit_char d = char_of (48 + d)"

definition digit_value :: "char \<Rightarrow> nat" where
  "digit_value c = of_char c - 48"

definition is_digit :: "char \<Rightarrow> bool" where
  "is_digit c \<longleftrightarrow> 48 \<le> (of_char c :: nat) \<and> (of_char c :: nat) \<le> 57"

fun to_decimal :: "nat \<Rightarrow> string" where
  "to_decimal n = (if n < 10 then [digit_char n] else to_decimal (n div 10) @ [digit_char (n mod 10)])"

declare to_decimal.simps [simp del]

definition of_decimal :: "string \<Rightarrow> nat" where
  "of_decimal s = foldl (\<lambda>v c. v * 10 + digit_value c) 0 s"

definition all_digits :: "string \<Rightarrow> bool" where
  "all_digits s \<longleftrightarrow> s \<noteq> [] \<and> list_all is_digit s"

lemma digit_char_props [simp]:
  "d < 10 \<Longrightarrow> digit_value (digit_char d) = d" "d < 10 \<Longrightarrow> is_digit (digit_char d)"
  by (simp_all add: digit_char_def digit_value_def is_digit_def)

lemma of_decimal_simps [simp]:
  "of_decimal [] = 0" "of_decimal [c] = digit_value c" "of_decimal (s @ [c]) = of_decimal s * 10 + digit_value c"
  by (simp_all add: of_decimal_def)

lemma of_decimal_append: "of_decimal (s @ t) = of_decimal s * 10 ^ length t + of_decimal t"
  by (induction t rule: rev_induct) (simp_all add: algebra_simps flip: append_assoc)

lemma of_decimal_zeros [simp]: "of_decimal (replicate k (CHR ''0'')) = 0"
  by (induction k) (simp_all add: digit_value_def flip: replicate_append_same)

lemma of_to_decimal [simp]: "of_decimal (to_decimal n) = n"
  by (induction n rule: to_decimal.induct) (subst to_decimal.simps, simp)

lemma to_decimal_digits: "all_digits (to_decimal n)"
  by (induction n rule: to_decimal.induct) (subst to_decimal.simps, simp add: all_digits_def)

lemma to_decimal_not_Nil [simp]: "to_decimal n \<noteq> []"
  using to_decimal_digits [of n] by (simp add: all_digits_def)

lemma to_decimal_inj [simp]: "to_decimal m = to_decimal n \<longleftrightarrow> m = n"
  by (metis of_to_decimal)

lemma length_to_decimal: "0 < k \<Longrightarrow> length (to_decimal n) \<le> k \<longleftrightarrow> n < 10 ^ k"
proof (induction n arbitrary: k rule: to_decimal.induct)
  case (1 n)
  show ?case
  proof (cases "n < 10")
    case True
    then have "n < 10 ^ k" using 1(2) self_le_power [of "10 :: nat" k] by simp
    with True 1(2) show ?thesis by (subst to_decimal.simps) simp
  next
    case False
    show ?thesis
    proof (cases "k = 1")
      case False': True
      have "to_decimal (n div 10) \<noteq> []" by simp
      with False False' show ?thesis by (subst to_decimal.simps) (simp add: not_le)
    next
      case False': False
      then obtain j where k: "k = Suc j" "0 < j" using 1(2) by (cases k) auto
      have "n div 10 < 10 ^ j \<longleftrightarrow> n < 10 ^ k" by (simp add: k div_less_iff_less_mult mult.commute)
      with False k 1(1) [OF False k(2)] show ?thesis by (subst to_decimal.simps) simp
    qed
  qed
qed

text \<open>The formatting width: digits padded on the left with zeros.\<close>

definition pad_decimal :: "nat \<Rightarrow> nat \<Rightarrow> string" where
  "pad_decimal width n = replicate (width - length (to_decimal n)) (CHR ''0'') @ to_decimal n"

lemma of_pad_decimal [simp]: "of_decimal (pad_decimal width n) = n"
  by (simp add: pad_decimal_def of_decimal_append)

lemma pad_decimal_inj [simp]: "pad_decimal w m = pad_decimal w n \<longleftrightarrow> m = n"
  by (metis of_pad_decimal)

end
