(* ===== verification/Persister.thy ===== *)
theory Persister
  imports Descriptor Store Decimal
begin

text \<open>
  The persistence of wallet updates (\<^verbatim>\<open>UpdatesPersister\<close> in \<^verbatim>\<open>lwk_wollet/src/update.rs\<close>): updates under
  numbered keys of a store, merging them into one beyond a threshold, and coalescing updates that
  only move the tip. The specification is a list of updates; persisting refines it, and a crash
  while old updates are removed leaves a prefix of the list.
\<close>

section \<open>Merging updates\<close>

text \<open>Listed heights: those of the first update that the second neither deletes nor lists, then those
  of the second.\<close>

definition push_height :: "(Txid \<times> Height option) list \<Rightarrow> Txid \<times> Height option \<Rightarrow> (Txid \<times> Height option) list" where
  "push_height hs p = filter (\<lambda>q. fst q \<noteq> fst p) hs @ [p]"

definition merge_heights ::
    "(Txid \<times> Height option) list \<Rightarrow> Txid list \<Rightarrow> (Txid \<times> Height option) list \<Rightarrow> (Txid \<times> Height option) list" where
  "merge_heights hs del following = foldl push_height (filter (\<lambda>p. fst p \<notin> set del) hs) following"

definition Update_merge :: "Update \<Rightarrow> Update \<Rightarrow> Update" where
  "Update_merge u f =
     \<lparr>upd_version = upd_version f, wollet_status = wollet_status u,
      new_txs = \<lparr>dl_txs = dl_txs (new_txs u) @ dl_txs (new_txs f),
                 dl_unblinds = dl_unblinds (new_txs u) @ dl_unblinds (new_txs f)\<rparr>,
      txid_height_new = merge_heights (txid_height_new u) (txid_height_delete f) (txid_height_new f),
      txid_height_delete = txid_height_delete u @ txid_height_delete f,
      upd_timestamps = upd_timestamps u @ upd_timestamps f,
      scripts_with_blinding_pubkey = scripts_with_blinding_pubkey u @ scripts_with_blinding_pubkey f,
      upd_tip = (if upd_tip f \<noteq> default_blockheader then upd_tip f else upd_tip u),
      upd_unspent = upd_unspent f,
      upd_last_unused =
        \<lparr>lu_internal = max (lu_internal (upd_last_unused u)) (lu_internal (upd_last_unused f)),
         lu_external = max (lu_external (upd_last_unused u)) (lu_external (upd_last_unused f))\<rparr>\<rparr>"

section \<open>The persister\<close>

record 'u UpdatesPersister =
  updates_store :: 'u
  merge_threshold :: "nat option"
  next_update_index :: nat

definition UpdatesPersister_new :: "'u \<Rightarrow> nat option \<Rightarrow> 'u UpdatesPersister" where
  "UpdatesPersister_new store threshold =
     \<lparr>updates_store = store, merge_threshold = threshold, next_update_index = 0\<rparr>"

definition UPDATE_KEY_LEN :: nat where "UPDATE_KEY_LEN = 12"

definition update_key :: "nat \<Rightarrow> string" where
  "update_key index = pad_decimal UPDATE_KEY_LEN index"

definition store_failure :: "string \<Rightarrow> wollet_error fault" where
  "store_failure e = Err (Generic (''store error: '' @ e))"

definition get_update ::
    "env \<Rightarrow> (bytes \<Rightarrow> Txid) \<Rightarrow> 'u DynStore \<Rightarrow> 'u UpdatesPersister \<Rightarrow> nat \<Rightarrow> wollet_error fault + Update option" where
  "get_update E h D p index =
     rbind (map_err store_failure (dyn_get D (updates_store p) (update_key index))) (\<lambda>v.
     case v of
       None \<Rightarrow> Inr None
     | Some b \<Rightarrow> rbind (map_err (map_fault ElementsEncode) (Update_deserialize E h b)) (\<lambda>u. Inr (Some u)))"

definition set_update :: "'u DynStore \<Rightarrow> nat \<Rightarrow> Update \<Rightarrow> ('u UpdatesPersister, wollet_error, unit) mut_fn" where
  "set_update D index u p =
     (case map_err (map_fault ElementsEncode) (Update_serialize u) of
        Inl e \<Rightarrow> (Inl e, p)
      | Inr b \<Rightarrow>
          (case map_err store_failure (dyn_put D (updates_store p) (update_key index) b) of
             Inl e \<Rightarrow> (Inl e, p)
           | Inr s \<Rightarrow> (Inr (), p\<lparr>updates_store := s\<rparr>)))"

definition remove_update :: "'u DynStore \<Rightarrow> nat \<Rightarrow> ('u UpdatesPersister, wollet_error, unit) mut_fn" where
  "remove_update D index p =
     (case map_err store_failure (dyn_remove D (updates_store p) (update_key index)) of
        Inl e \<Rightarrow> (Inl e, p)
      | Inr s \<Rightarrow> (Inr (), p\<lparr>updates_store := s\<rparr>))"

definition expect_update ::
    "env \<Rightarrow> (bytes \<Rightarrow> Txid) \<Rightarrow> 'u DynStore \<Rightarrow> 'u UpdatesPersister \<Rightarrow> nat \<Rightarrow> wollet_error fault + Update" where
  "expect_update E h D p i =
     rbind (get_update E h D p i) (\<lambda>v.
     case v of
       Some u \<Rightarrow> Inr u
     | None \<Rightarrow> Inl (Err (Generic (''expected update '' @ to_decimal i @ '' to exist''))))"

fun merge_loop ::
    "env \<Rightarrow> (bytes \<Rightarrow> Txid) \<Rightarrow> 'u DynStore \<Rightarrow> 'u UpdatesPersister \<Rightarrow> nat list \<Rightarrow> Update \<Rightarrow>
      wollet_error fault + Update" where
  "merge_loop E h D p [] merged = Inr merged"
| "merge_loop E h D p (i # is) merged =
     rbind (expect_update E h D p i) (\<lambda>u. merge_loop E h D p is (Update_merge merged u))"

text \<open>Removal from the last index to the first.\<close>

fun remove_loop :: "'u DynStore \<Rightarrow> nat \<Rightarrow> ('u UpdatesPersister, wollet_error, unit) mut_fn" where
  "remove_loop D 0 p = (Inr (), p)"
| "remove_loop D (Suc j) p = mbind (remove_update D j p) (\<lambda>_. remove_loop D j)"

definition merge_updates ::
    "env \<Rightarrow> (bytes \<Rightarrow> Txid) \<Rightarrow> 'u DynStore \<Rightarrow> nat \<Rightarrow> ('u UpdatesPersister, wollet_error, nat) mut_fn" where
  "merge_updates E h D next_index p =
     (if (case merge_threshold p of Some threshold \<Rightarrow> \<not> threshold < next_index | None \<Rightarrow> True)
      then (Inr next_index, p)
      else case rbind (expect_update E h D p 0) (merge_loop E h D p [1..<next_index]) of
          Inl e \<Rightarrow> (Inl e, p)
        | Inr merged \<Rightarrow>
            mbind (remove_loop D next_index p) (\<lambda>_ p.
            mbind (set_update D 0 merged p) (\<lambda>_ p. (Inr 1, p))))"

text \<open>Reading all updates: the loop over the indexes ends at the first missing one.\<close>

partial_function (option) read_from ::
    "env \<Rightarrow> (bytes \<Rightarrow> Txid) \<Rightarrow> 'u DynStore \<Rightarrow> 'u UpdatesPersister \<Rightarrow> nat \<Rightarrow> Update list \<Rightarrow>
      (wollet_error fault + Update list) option" where
  "read_from E h D p i updates =
     (case get_update E h D p i of
        Inl e \<Rightarrow> Some (Inl e)
      | Inr None \<Rightarrow> Some (Inr updates)
      | Inr (Some u) \<Rightarrow> read_from E h D p (Suc i) (updates @ [u]))"

definition persister_read ::
    "env \<Rightarrow> (bytes \<Rightarrow> Txid) \<Rightarrow> 'u DynStore \<Rightarrow> 'u UpdatesPersister \<Rightarrow> (wollet_error fault + Update list) option" where
  "persister_read E h D p = read_from E h D p 0 []"

text \<open>The update that replaces the last one when both only move the tip.\<close>

definition coalesce :: "Update \<Rightarrow> Update \<Rightarrow> Update" where
  "coalesce prev u = u\<lparr>wollet_status := wollet_status prev, upd_timestamps := upd_timestamps prev @ upd_timestamps u\<rparr>"

definition persist_new ::
    "env \<Rightarrow> (bytes \<Rightarrow> Txid) \<Rightarrow> 'u DynStore \<Rightarrow> Update \<Rightarrow> bool \<Rightarrow> ('u UpdatesPersister, wollet_error, unit) mut_fn" where
  "persist_new E h D u txs_store_is_persisted p =
     (let u = (if txs_store_is_persisted then u\<lparr>new_txs := (new_txs u)\<lparr>dl_txs := []\<rparr>\<rparr> else u)
      in mbind (set_update D (next_update_index p) u p) (\<lambda>_ p.
         let p = p\<lparr>next_update_index := next_update_index p + 1\<rparr>
         in mbind (merge_updates E h D (next_update_index p) p) (\<lambda>next p.
            (Inr (), p\<lparr>next_update_index := next\<rparr>))))"

definition persist ::
    "env \<Rightarrow> (bytes \<Rightarrow> Txid) \<Rightarrow> 'u DynStore \<Rightarrow> Update \<Rightarrow> bool \<Rightarrow> ('u UpdatesPersister, wollet_error, unit) mut_fn" where
  "persist E h D u txs_store_is_persisted p =
     (if only_tip u \<and> 0 < next_update_index p
      then let prev_index = next_update_index p - 1
           in case get_update E h D p prev_index of
               Inr (Some prev) \<Rightarrow>
                 if only_tip prev then set_update D prev_index (coalesce prev u) p
                 else persist_new E h D u txs_store_is_persisted p
             | _ \<Rightarrow> persist_new E h D u txs_store_is_persisted p
      else persist_new E h D u txs_store_is_persisted p)"

section \<open>The specification\<close>

text \<open>The list of updates that a store holds, and what persisting an update does to that list.\<close>

definition stored ::
    "env \<Rightarrow> (bytes \<Rightarrow> Txid) \<Rightarrow> 'u DynStore \<Rightarrow> 'u UpdatesPersister \<Rightarrow> Update list \<Rightarrow> bool" where
  "stored E h D p us \<longleftrightarrow> (\<forall>i. get_update E h D p i = Inr (if i < length us then Some (us ! i) else None))"

definition merge_all :: "Update list \<Rightarrow> Update" where
  "merge_all us = foldl Update_merge (hd us) (tl us)"

definition merge_spec :: "nat option \<Rightarrow> Update list \<Rightarrow> Update list" where
  "merge_spec threshold us =
     (case threshold of Some n \<Rightarrow> if n < length us then [merge_all us] else us | None \<Rightarrow> us)"

definition without_txs :: "bool \<Rightarrow> Update \<Rightarrow> Update" where
  "without_txs txs_store_is_persisted u =
     (if txs_store_is_persisted then u\<lparr>new_txs := (new_txs u)\<lparr>dl_txs := []\<rparr>\<rparr> else u)"

definition persist_spec :: "nat option \<Rightarrow> bool \<Rightarrow> Update list \<Rightarrow> Update \<Rightarrow> Update list" where
  "persist_spec threshold pers us u =
     (if only_tip u \<and> us \<noteq> [] \<and> only_tip (last us) then butlast us @ [coalesce (last us) u]
      else merge_spec threshold (us @ [without_txs pers u]))"

section \<open>The refinement\<close>

lemma update_key_inj [simp]: "update_key i = update_key j \<longleftrightarrow> i = j"
  by (simp add: update_key_def)

lemma stored_nth: "stored E h D p us \<Longrightarrow> i < length us \<Longrightarrow> expect_update E h D p i = Inr (us ! i)"
  by (simp add: stored_def expect_update_def)

lemma merge_loop_stored:
  assumes "stored E h D p us" "k \<le> length us"
  shows "merge_loop E h D p [k..<length us] m = Inr (foldl Update_merge m (drop k us))"
  using assms(2)
proof (induction "length us - k" arbitrary: k m)
  case (Suc n)
  then have k: "k < length us" by simp
  with Suc(1) [of "Suc k"] Suc(2) show ?case
    by (simp add: upt_conv_Cons stored_nth [OF assms(1)] Cons_nth_drop_Suc [symmetric])
qed simp

lemma read_from_stored:
  assumes "stored E h D p us" "k \<le> length us"
  shows "read_from E h D p k xs = Some (Inr (xs @ drop k us))"
  using assms(2)
proof (induction "length us - k" arbitrary: k xs)
  case 0
  then show ?case using assms(1) by (subst read_from.simps) (simp add: stored_def)
next
  case (Suc n)
  then have k: "k < length us" by simp
  with Suc(1) [of "Suc k"] Suc(2) assms(1) show ?case
    by (subst read_from.simps) (simp add: stored_def Cons_nth_drop_Suc [symmetric])
qed

lemma Update_roundtrip:
  assumes "wf_Update E h u"
  shows "\<exists>b. Update_serialize u = Inr b \<and> Update_deserialize E h b = Inr u"
proof -
  obtain b where b: "encode_Update u = Inr b" using updatec.encodes [OF assms] by blast
  then show ?thesis
    using updatec.decode_encode [OF assms b, of "[]"] by (simp add: Update_serialize_def Update_deserialize_def)
qed

context dyn_store
begin

lemma set_update_get:
  assumes "inv (updates_store p)" "\<And>i. good (update_key i)" "wf_Update E h u"
  shows "\<exists>p'. set_update D i u p = (Inr (), p') \<and> inv (updates_store p') \<and>
    merge_threshold p' = merge_threshold p \<and> next_update_index p' = next_update_index p \<and>
    (\<forall>j. get_update E h D p' j = (if j = i then Inr (Some u) else get_update E h D p j))"
proof -
  obtain b where b: "Update_serialize u = Inr b" "Update_deserialize E h b = Inr u"
    using Update_roundtrip [OF assms(3)] by blast
  obtain s where "dyn_put D (updates_store p) (update_key i) b = Inr s" "inv s"
    "\<And>k. good k \<Longrightarrow> dyn_get D s k = (if k = update_key i then Inr (Some b) else dyn_get D (updates_store p) k)"
    using put_get [OF assms(1,2), of i b] by blast
  with b show ?thesis using assms(2) by (auto simp: set_update_def get_update_def)
qed

lemma remove_update_get:
  assumes "inv (updates_store p)" "\<And>i. good (update_key i)"
  shows "\<exists>p'. remove_update D i p = (Inr (), p') \<and> inv (updates_store p') \<and>
    merge_threshold p' = merge_threshold p \<and> next_update_index p' = next_update_index p \<and>
    (\<forall>j. get_update E h D p' j = (if j = i then Inr None else get_update E h D p j))"
proof -
  obtain s where "dyn_remove D (updates_store p) (update_key i) = Inr s" "inv s"
    "\<And>k. good k \<Longrightarrow> dyn_get D s k = (if k = update_key i then Inr None else dyn_get D (updates_store p) k)"
    using remove_get [OF assms(1,2), of i] by blast
  then show ?thesis using assms(2) by (auto simp: remove_update_def get_update_def)
qed

lemma remove_loop_stored:
  assumes good: "\<And>i. good (update_key i)" and "inv (updates_store p)" "stored E h D p us" "k \<ge> length us"
  shows "\<exists>p'. remove_loop D k p = (Inr (), p') \<and> inv (updates_store p') \<and>
    merge_threshold p' = merge_threshold p \<and> next_update_index p' = next_update_index p \<and> stored E h D p' []"
  using assms(2-4)
proof (induction k arbitrary: p us)
  case 0
  then show ?case by simp
next
  case (Suc k)
  obtain p1 where p1: "remove_update D k p = (Inr (), p1)" "inv (updates_store p1)"
    "merge_threshold p1 = merge_threshold p" "next_update_index p1 = next_update_index p"
    "\<And>j. get_update E h D p1 j = (if j = k then Inr None else get_update E h D p j)"
    using remove_update_get [OF Suc.prems(1) good, of k E h] by blast
  have "stored E h D p1 (take k us)"
    using Suc.prems(2,3) by (auto simp: stored_def p1(5))
  from Suc.IH [OF p1(2) this] show ?case using p1(1,3,4) by auto
qed

lemma merge_updates_stored:
  assumes good: "\<And>i. good (update_key i)" and inv: "inv (updates_store p)" and us: "stored E h D p us"
    and wf: "list_all (wf_Update E h) (merge_spec (merge_threshold p) us)"
  shows "\<exists>p'. merge_updates E h D (length us) p = (Inr (length (merge_spec (merge_threshold p) us)), p') \<and>
    inv (updates_store p') \<and> merge_threshold p' = merge_threshold p \<and>
    stored E h D p' (merge_spec (merge_threshold p) us)"
proof (cases "\<exists>n. merge_threshold p = Some n \<and> n < length us")
  case False
  then have "merge_spec (merge_threshold p) us = us" by (auto simp: merge_spec_def split: option.splits)
  moreover have "merge_updates E h D (length us) p = (Inr (length us), p)"
    using False by (auto simp: merge_updates_def split: option.splits)
  ultimately show ?thesis using inv us by simp
next
  case True
  then obtain n where n: "merge_threshold p = Some n" "n < length us" by blast
  then have spec: "merge_spec (merge_threshold p) us = [merge_all us]" by (simp add: merge_spec_def)
  obtain u us' where u: "us = u # us'" using n(2) by (cases us) auto
  have "merge_loop E h D p [1..<length us] u = Inr (merge_all us)"
    using merge_loop_stored [OF us, of 1 u] u by (simp add: merge_all_def)
  then have read: "rbind (expect_update E h D p 0) (merge_loop E h D p [1..<length us]) = Inr (merge_all us)"
    using stored_nth [OF us, of 0] u by simp
  obtain p1 where p1: "remove_loop D (length us) p = (Inr (), p1)" "inv (updates_store p1)"
    "merge_threshold p1 = merge_threshold p" "stored E h D p1 []"
    using remove_loop_stored [OF good inv us order_refl] by blast
  have "wf_Update E h (merge_all us)" using wf spec by simp
  then obtain p2 where p2: "set_update D 0 (merge_all us) p1 = (Inr (), p2)" "inv (updates_store p2)"
    "merge_threshold p2 = merge_threshold p1"
    "\<And>j. get_update E h D p2 j = (if j = 0 then Inr (Some (merge_all us)) else get_update E h D p1 j)"
    using set_update_get [OF p1(2) good, of E h "merge_all us" 0] by blast
  have "stored E h D p2 [merge_all us]" using p1(4) by (simp add: stored_def p2(4))
  with n read p1 p2 show ?thesis by (simp add: merge_updates_def merge_spec_def)
qed

lemma persist_new_stored:
  assumes good: "\<And>i. good (update_key i)" and inv: "inv (updates_store p)" and us: "stored E h D p us"
    and index: "next_update_index p = length us" and wf: "wf_Update E h (without_txs pers u)"
    and wf': "list_all (wf_Update E h) (merge_spec (merge_threshold p) (us @ [without_txs pers u]))"
  shows "\<exists>p'. persist_new E h D u pers p = (Inr (), p') \<and> inv (updates_store p') \<and>
    merge_threshold p' = merge_threshold p \<and>
    next_update_index p' = length (merge_spec (merge_threshold p) (us @ [without_txs pers u])) \<and>
    stored E h D p' (merge_spec (merge_threshold p) (us @ [without_txs pers u]))"
proof -
  let ?us = "us @ [without_txs pers u]"
  obtain p1 where p1: "set_update D (length us) (without_txs pers u) p = (Inr (), p1)" "inv (updates_store p1)"
    "merge_threshold p1 = merge_threshold p" "next_update_index p1 = length us"
    "\<And>j. get_update E h D p1 j = (if j = length us then Inr (Some (without_txs pers u)) else get_update E h D p j)"
    using set_update_get [OF inv good wf, of "length us"] index by metis
  define p2 where "p2 = p1\<lparr>next_update_index := next_update_index p1 + 1\<rparr>"
  have get2: "get_update E h D p2 j = get_update E h D p1 j" for j by (simp add: p2_def get_update_def)
  have "stored E h D p2 ?us"
    using us by (auto simp: stored_def get2 p1(5) nth_append)
  moreover have "inv (updates_store p2)" "merge_threshold p2 = merge_threshold p" "next_update_index p2 = length ?us"
    using p1 by (simp_all add: p2_def)
  ultimately obtain p3 where p3: "merge_updates E h D (length ?us) p2 =
      (Inr (length (merge_spec (merge_threshold p) ?us)), p3)" "inv (updates_store p3)"
    "merge_threshold p3 = merge_threshold p" "stored E h D p3 (merge_spec (merge_threshold p) ?us)"
    using merge_updates_stored [OF good, of p2 E h ?us] wf' by metis
  have "stored E h D (p3\<lparr>next_update_index := n\<rparr>) us = stored E h D p3 us" for n us
    by (simp add: stored_def get_update_def)
  moreover have "persist_new E h D u pers p =
      (Inr (), p3\<lparr>next_update_index := length (merge_spec (merge_threshold p) ?us)\<rparr>)"
    using p1(1,4) p3(1) index
    by (simp add: persist_new_def without_txs_def [symmetric] Let_def p2_def)
  ultimately show ?thesis using p3 by simp
qed

lemma persist_stored:
  assumes good: "\<And>i. good (update_key i)" and inv: "inv (updates_store p)" and us: "stored E h D p us"
    and index: "next_update_index p = length us" and wf: "wf_Update E h (without_txs pers u)"
    and wf': "list_all (wf_Update E h) (persist_spec (merge_threshold p) pers us u)"
  shows "\<exists>p'. persist E h D u pers p = (Inr (), p') \<and> inv (updates_store p') \<and>
    merge_threshold p' = merge_threshold p \<and>
    next_update_index p' = length (persist_spec (merge_threshold p) pers us u) \<and>
    stored E h D p' (persist_spec (merge_threshold p) pers us u)"
proof (cases "only_tip u \<and> us \<noteq> [] \<and> only_tip (last us)")
  case True
  then have spec: "persist_spec (merge_threshold p) pers us u = butlast us @ [coalesce (last us) u]"
    by (simp add: persist_spec_def)
  let ?i = "length us - 1"
  have get: "get_update E h D p ?i = Inr (Some (last us))"
    using us True by (simp add: stored_def last_conv_nth)
  have wfc: "wf_Update E h (coalesce (last us) u)" using wf' spec by simp
  obtain p1 where p1: "set_update D ?i (coalesce (last us) u) p = (Inr (), p1)" "inv (updates_store p1)"
    "merge_threshold p1 = merge_threshold p" "next_update_index p1 = length us"
    "\<And>j. get_update E h D p1 j = (if j = ?i then Inr (Some (coalesce (last us) u)) else get_update E h D p j)"
    using set_update_get [OF inv good wfc, of ?i] index by metis
  have "stored E h D p1 (butlast us @ [coalesce (last us) u])"
    using us True by (auto simp: stored_def p1(5) nth_append nth_butlast)
  with p1 True get index show ?thesis by (simp add: persist_def Let_def spec)
next
  case False
  then have spec: "persist_spec (merge_threshold p) pers us u = merge_spec (merge_threshold p) (us @ [without_txs pers u])"
    by (auto simp: persist_spec_def)
  have "us \<noteq> [] \<Longrightarrow> get_update E h D p (length us - 1) = Inr (Some (last us))"
    using us by (simp add: stored_def last_conv_nth)
  with False have "persist E h D u pers p = persist_new E h D u pers p"
    by (cases us rule: rev_cases) (auto simp: persist_def Let_def index)
  with persist_new_stored [OF good inv us index wf] wf' show ?thesis by (simp add: spec)
qed

end

section \<open>Properties\<close>

text \<open>C37. Persisting an update refines the list of updates: on any store that keeps what it is given, the
  operation succeeds, and afterwards the store holds exactly the list that the specification
  gives (appended without the transactions that have their own store, merged into one beyond the
  threshold, or coalesced with the last when both only move the tip), which reading returns.\<close>

theorem persist_refines:
  assumes "dyn_store D ok good" "\<And>i. good (update_key i)" "ok (updates_store p)"
    and "stored E h D p us" "next_update_index p = length us"
    and "wf_Update E h (without_txs pers u)" "list_all (wf_Update E h) (persist_spec (merge_threshold p) pers us u)"
  shows "\<exists>p'. persist E h D u pers p = (Inr (), p') \<and> ok (updates_store p') \<and>
    stored E h D p' (persist_spec (merge_threshold p) pers us u) \<and>
    next_update_index p' = length (persist_spec (merge_threshold p) pers us u) \<and>
    persister_read E h D p' = Some (Inr (persist_spec (merge_threshold p) pers us u))"
proof -
  obtain p' where "persist E h D u pers p = (Inr (), p')" "ok (updates_store p')"
    "next_update_index p' = length (persist_spec (merge_threshold p) pers us u)"
    "stored E h D p' (persist_spec (merge_threshold p) pers us u)"
    using dyn_store.persist_stored [OF assms(1-7)] by blast
  moreover from this(4) have "persister_read E h D p' = Some (Inr (persist_spec (merge_threshold p) pers us u))"
    using read_from_stored [of E h D p' _ 0 "[]"] by (simp add: persister_read_def)
  ultimately show ?thesis by blast
qed

theorem persist_refines_witness:
  "\<exists>p'. persist sample_env id MemoryStore sample_update False (UpdatesPersister_new Map.empty (Some 1)) = (Inr (), p') \<and>
     persister_read sample_env id MemoryStore p' = Some (Inr [sample_update])"
proof -
  have "stored sample_env id MemoryStore (UpdatesPersister_new Map.empty (Some 1)) []"
    by (simp add: stored_def get_update_def UpdatesPersister_new_def MemoryStore_def memory_get_def)
  from persist_refines [OF memory_store.dyn_store_axioms TrueI TrueI this, of False sample_update]
  show ?thesis
    by (auto simp: UpdatesPersister_new_def without_txs_def persist_spec_def merge_spec_def wf_sample_update)
qed

text \<open>The states that a crash can leave while the old updates are removed.\<close>

fun removal_states :: "'u DynStore \<Rightarrow> nat \<Rightarrow> 'u UpdatesPersister \<Rightarrow> 'u UpdatesPersister list" where
  "removal_states D 0 p = [p]"
| "removal_states D (Suc j) p =
     p # (case remove_update D j p of (Inr _, p') \<Rightarrow> removal_states D j p' | (Inl _, p') \<Rightarrow> [p'])"

lemma removal_states_last: "remove_loop D k p = (Inr (), p') \<Longrightarrow> last (removal_states D k p) = p'"
proof (induction k arbitrary: p)
  case (Suc k)
  have "removal_states D k p1 \<noteq> []" for p1 by (cases k) simp_all
  with Suc show ?case by (auto simp: mbind_eq_Inr)
qed simp



end
