(* ===== verification/Network.thy ===== *)
theory Network
  imports Address Hex HashMap BlockHeader
begin

text \<open>
  The networks (\<^verbatim>\<open>lwk_common/src/network.rs\<close>) with their parameters, names and the values that enter
  the status of a wallet, and the balances (\<^verbatim>\<open>lwk_common/src/balance.rs\<close>).
\<close>

section \<open>Parameters\<close>

record ElementsParams =
  ep_policy_asset :: AssetId
  ep_genesis_hash :: BlockHash
  ep_address_params :: AddressParams
  ep_name :: string

datatype Network = Liquid | TestnetLiquid | CustomElements ElementsParams

definition LIQUID_BTC :: AssetId where
  "LIQUID_BTC = [0x6d, 0x52, 0x1c, 0x38, 0xec, 0x1e, 0xa1, 0x57, 0x34, 0xae, 0x22, 0xb7, 0xc4, 0x60, 0x64, 0x41,
     0x28, 0x29, 0xc0, 0xd0, 0x57, 0x9f, 0x0a, 0x71, 0x3d, 0x1c, 0x04, 0xed, 0xe9, 0x79, 0x02, 0x6f]"

definition LIQUID_TESTNET_POLICY_ASSET :: AssetId where
  "LIQUID_TESTNET_POLICY_ASSET =
    [0x49, 0x9a, 0x81, 0x85, 0x45, 0xf6, 0xba, 0xe3, 0x9f, 0xc0, 0x3b, 0x63, 0x7f, 0x2a, 0x4e, 0x1e,
     0x64, 0xe5, 0x90, 0xca, 0xc1, 0xbc, 0x3a, 0x6f, 0x6d, 0x71, 0xaa, 0x44, 0x43, 0x65, 0x4c, 0x14]"

definition LIQUID_REGTEST_POLICY_ASSET :: AssetId where
  "LIQUID_REGTEST_POLICY_ASSET =
    [0x25, 0xb2, 0x51, 0x07, 0x0e, 0x29, 0xca, 0x19, 0x04, 0x3c, 0xf3, 0x3c, 0xcd, 0x73, 0x24, 0xe2,
     0xdd, 0xab, 0x03, 0xec, 0xc4, 0xae, 0x0b, 0x5e, 0x77, 0xc4, 0xfc, 0x0e, 0x5c, 0xf6, 0xc9, 0x5a]"

definition GENESIS_LIQUID :: bytes where
  "GENESIS_LIQUID =
    [0x03, 0x60, 0x20, 0x8a, 0x88, 0x96, 0x92, 0x37, 0x2c, 0x8d, 0x68, 0xb0, 0x84, 0xa6, 0x2e, 0xfd,
     0xf6, 0x0e, 0xa1, 0xa3, 0x59, 0xa0, 0x4c, 0x94, 0xb2, 0x0d, 0x22, 0x36, 0x58, 0x27, 0x66, 0x14]"

definition GENESIS_LIQUID_TESTNET :: bytes where
  "GENESIS_LIQUID_TESTNET =
    [0xc1, 0xb1, 0x6a, 0xe2, 0x4f, 0x24, 0x23, 0xae, 0xa2, 0xea, 0x34, 0x55, 0x22, 0x92, 0x79, 0x3b,
     0x5b, 0x5e, 0x82, 0x99, 0x9a, 0x1e, 0xed, 0x81, 0xd5, 0x6a, 0xee, 0x52, 0x8e, 0xda, 0x71, 0xa7]"

definition GENESIS_LIQUID_REGTEST :: bytes where
  "GENESIS_LIQUID_REGTEST =
    [0x21, 0xca, 0xb1, 0xe5, 0xda, 0x47, 0x18, 0xea, 0x14, 0x0d, 0x97, 0x16, 0x93, 0x17, 0x02, 0x42,
     0x2f, 0x0e, 0x6a, 0xd9, 0x15, 0xc8, 0xd9, 0xb5, 0x83, 0xca, 0xc2, 0x70, 0x6b, 0x2a, 0x90, 0x00]"

text \<open>The builder of the parameters of a custom network fills the fields that were not given.\<close>

record ElementsParamsBuilder =
  pb_policy_asset :: "AssetId option"
  pb_genesis_hash :: "BlockHash option"
  pb_address_params :: "AddressParams option"
  pb_name :: "string option"

definition ElementsParamsBuilder_new :: ElementsParamsBuilder where
  "ElementsParamsBuilder_new =
     \<lparr>pb_policy_asset = None, pb_genesis_hash = None, pb_address_params = None, pb_name = None\<rparr>"

definition params_build :: "ElementsParamsBuilder \<Rightarrow> ElementsParams" where
  "params_build b =
     \<lparr>ep_policy_asset = (case pb_policy_asset b of Some a \<Rightarrow> a | None \<Rightarrow> LIQUID_REGTEST_POLICY_ASSET),
      ep_genesis_hash = (case pb_genesis_hash b of Some h \<Rightarrow> h | None \<Rightarrow> GENESIS_LIQUID_REGTEST),
      ep_address_params = (case pb_address_params b of Some p \<Rightarrow> p | None \<Rightarrow> ELEMENTS),
      ep_name = (case pb_name b of Some n \<Rightarrow> n | None \<Rightarrow> ''liquid-regtest'')\<rparr>"

definition policy_asset :: "Network \<Rightarrow> AssetId" where
  "policy_asset n =
     (case n of
        Liquid \<Rightarrow> LIQUID_BTC
      | TestnetLiquid \<Rightarrow> LIQUID_TESTNET_POLICY_ASSET
      | CustomElements p \<Rightarrow> ep_policy_asset p)"

definition genesis_hash :: "Network \<Rightarrow> BlockHash" where
  "genesis_hash n =
     (case n of
        Liquid \<Rightarrow> GENESIS_LIQUID
      | TestnetLiquid \<Rightarrow> GENESIS_LIQUID_TESTNET
      | CustomElements p \<Rightarrow> ep_genesis_hash p)"

definition address_params :: "Network \<Rightarrow> AddressParams" where
  "address_params n =
     (case n of Liquid \<Rightarrow> LIQUID | TestnetLiquid \<Rightarrow> LIQUID_TESTNET | CustomElements p \<Rightarrow> ep_address_params p)"

text \<open>Identifiers are displayed and parsed in reversed byte order.\<close>

definition reversed_id_from_str :: "string \<Rightarrow> hex_error + bytes" where
  "reversed_id_from_str s = rbind (from_hex_array 32 s) (\<lambda>b. Inr (rev b))"

definition sequentia_testnet :: "'e fault + Network" where
  "sequentia_testnet =
     rbind (map_err (\<lambda>_. Panic ''valid Sequentia policy asset id'')
       (reversed_id_from_str ''c8eccacf0953e1931cd31e434d8319101cc36e6c38b0e2104d8687552fae3e40'')) (\<lambda>asset.
     rbind (map_err (\<lambda>_. Panic ''valid Sequentia genesis hash'')
       (reversed_id_from_str ''ddd11d54c87a2bd94400fd31ce05d8e1110bb4b78e7103f738342086fc4ea92e'')) (\<lambda>genesis.
     Inr (CustomElements (params_build (ElementsParamsBuilder_new
       \<lparr>pb_policy_asset := Some asset, pb_genesis_hash := Some genesis,
        pb_address_params := Some SEQUENTIA_TESTNET, pb_name := Some ''sequentia-testnet''\<rparr>)))))"

definition default_regtest :: Network where
  "default_regtest = CustomElements (params_build ElementsParamsBuilder_new)"

definition network_as_str :: "Network \<Rightarrow> string" where
  "network_as_str n =
     (case n of Liquid \<Rightarrow> ''liquid'' | TestnetLiquid \<Rightarrow> ''liquid-testnet'' | CustomElements p \<Rightarrow> ep_name p)"

definition dynamic_epoch_length :: "Network \<Rightarrow> u32" where
  "dynamic_epoch_length n = (case n of Liquid \<Rightarrow> 20160 | TestnetLiquid \<Rightarrow> 1000 | CustomElements _ \<Rightarrow> 10)"

definition total_valid_epochs :: "Network \<Rightarrow> u32" where
  "total_valid_epochs n = (case n of Liquid \<Rightarrow> 2 | TestnetLiquid \<Rightarrow> 0 | CustomElements _ \<Rightarrow> 0)"

definition Network_display :: "Network \<Rightarrow> string" where
  "Network_display n =
     (case n of Liquid \<Rightarrow> ''liquid'' | TestnetLiquid \<Rightarrow> ''testnet-liquid'' | CustomElements p \<Rightarrow> ep_name p)"

definition quoted :: "string \<Rightarrow> string" where
  "quoted s = CHR 0x27 # s @ [CHR 0x27]"

definition Network_from_str :: "string \<Rightarrow> string fault + Network" where
  "Network_from_str s =
     (if s = ''liquid'' then Inr Liquid
      else if s = ''testnet-liquid'' then Inr TestnetLiquid
      else if s = ''localtest-liquid'' \<or> s = ''liquid-regtest'' then Inr default_regtest
      else if s = ''sequentia-testnet'' then sequentia_testnet
      else Inl (Err (''invalid network, possible value are: '' @ quoted ''liquid'' @ '', '' @ quoted ''testnet-liquid'' @ '', '' @
             quoted ''localtest-liquid'' @ '', '' @ quoted ''sequentia-testnet'')))"

text \<open>What enters the hash of a network: the kind, and for a custom network only the policy asset.\<close>

datatype network_view = NetLiquid | NetTestnet | NetCustom AssetId

definition Network_hash :: "Network \<Rightarrow> network_view" where
  "Network_hash n =
     (case n of Liquid \<Rightarrow> NetLiquid | TestnetLiquid \<Rightarrow> NetTestnet | CustomElements p \<Rightarrow> NetCustom (ep_policy_asset p))"

section \<open>Names\<close>

lemma sequentia_testnet_ok:
  "\<exists>p. sequentia_testnet = Inr (CustomElements p) \<and> ep_name p = ''sequentia-testnet'' \<and>
     ep_address_params p = SEQUENTIA_TESTNET \<and> length (ep_policy_asset p) = 32 \<and> length (ep_genesis_hash p) = 32"
proof -
  have "\<exists>a. reversed_id_from_str ''c8eccacf0953e1931cd31e434d8319101cc36e6c38b0e2104d8687552fae3e40'' = Inr a \<and> length a = 32"
    by (rule exI [of _ "rev (map of_nat [200,236,202,207,9,83,225,147,28,211,30,67,77,131,25,16,28,195,110,108,56,176,226,16,77,134,135,85,47,174,62,64])"]) code_simp
  moreover have "\<exists>g. reversed_id_from_str ''ddd11d54c87a2bd94400fd31ce05d8e1110bb4b78e7103f738342086fc4ea92e'' = Inr g \<and> length g = 32"
    by (rule exI [of _ "rev (map of_nat [221,209,29,84,200,122,43,217,68,0,253,49,206,5,216,225,17,11,180,183,142,113,3,247,56,52,32,134,252,78,169,46])"]) code_simp
  ultimately show ?thesis by (auto simp: sequentia_testnet_def params_build_def ElementsParamsBuilder_new_def)
qed

text \<open>The displayed name of each of the four networks that can be named parses back to it.\<close>

lemma Network_name_roundtrip:
  assumes "n \<in> {Liquid, TestnetLiquid, default_regtest} \<or> sequentia_testnet = (Inr n :: string fault + Network)"
  shows "Network_from_str (Network_display n) = Inr n"
proof -
  obtain p where p: "(sequentia_testnet :: string fault + Network) = Inr (CustomElements p)" "ep_name p = ''sequentia-testnet''"
    using sequentia_testnet_ok by blast
  from assms have "n \<in> {Liquid, TestnetLiquid, default_regtest} \<or> n = CustomElements p" by (auto simp: p(1))
  then consider "n = Liquid" | "n = TestnetLiquid" | "n = default_regtest" | "n = CustomElements p" by auto
  then show ?thesis
    by cases (simp_all add: p Network_from_str_def Network_display_def default_regtest_def params_build_def
        ElementsParamsBuilder_new_def)
qed

text \<open>The other name of the Liquid testnet does not.\<close>

lemma network_as_str_rejected: "\<exists>e. Network_from_str (network_as_str TestnetLiquid) = Inl (Err e)"
  by (simp add: Network_from_str_def network_as_str_def)

section \<open>Balances\<close>

text \<open>Values of type \<open>i64\<close> are words that are read as signed; \<open>as i64\<close> keeps the bits, and the subtraction
  of a build with overflow checks panics when it leaves the signed range.\<close>

type_synonym Balance = "(AssetId, u64) hashmap"
type_synonym SignedBalance = "(AssetId, u64) hashmap"

definition i64_range :: "int \<Rightarrow> bool" where
  "i64_range x \<longleftrightarrow> - (2 ^ 63) \<le> x \<and> x < 2 ^ 63"

definition i64_minus :: "u64 \<Rightarrow> u64 \<Rightarrow> 'e fault + u64" where
  "i64_minus a b =
     (if i64_range (sint a - sint b) then Inr (a - b) else Inl (Panic ''attempt to subtract with overflow''))"

definition i64_plus :: "u64 \<Rightarrow> u64 \<Rightarrow> 'e fault + u64" where
  "i64_plus a b =
     (if i64_range (sint a + sint b) then Inr (a + b) else Inl (Panic ''attempt to add with overflow''))"

definition hm_get_or :: "'v \<Rightarrow> ('k, 'v) hashmap \<Rightarrow> 'k \<Rightarrow> 'v" where
  "hm_get_or d m k = (case map_of m k of Some v \<Rightarrow> v | None \<Rightarrow> d)"

fun balance_differences :: "Balance \<Rightarrow> Balance \<Rightarrow> AssetId list \<Rightarrow> 'e fault + SignedBalance" where
  "balance_differences a b [] = Inr []"
| "balance_differences a b (k # ks) =
     rbind (i64_minus (hm_get_or 0 a k) (hm_get_or 0 b k)) (\<lambda>d.
     rbind (balance_differences a b ks) (\<lambda>r. Inr ((k, d) # r)))"

definition Balance_sub :: "Balance \<Rightarrow> Balance \<Rightarrow> 'e fault + SignedBalance" where
  "Balance_sub a b =
     rbind (balance_differences a b (remdups (hm_keys b @ hm_keys a))) (\<lambda>r.
     Inr (hm_retain (\<lambda>_ v. v \<noteq> 0) r))"

lemma sint_range: "i64_range (sint (w :: u64))"
  using sint_greater_eq [of w] sint_less [of w] by (simp add: i64_range_def)

lemma sint_of_range: "i64_range x \<Longrightarrow> sint (word_of_int x :: u64) = x"
  by (simp add: i64_range_def sint_sbintrunc' signed_take_bit_int_eq_self)

lemma i64_minus_Inr: "i64_minus a b = Inr d \<longleftrightarrow> sint d = sint a - sint b"
proof
  assume "i64_minus a b = Inr d"
  then have "i64_range (sint a - sint b)" "d = a - b" by (auto simp: i64_minus_def split: if_splits)
  then show "sint d = sint a - sint b" using sint_of_range [of "sint a - sint b"] by simp
next
  assume d: "sint d = sint a - sint b"
  then have "i64_range (sint a - sint b)" using sint_range [of d] by simp
  moreover have "d = word_of_int (sint a - sint b)" using d [symmetric] by simp
  ultimately show "i64_minus a b = Inr d" by (simp add: i64_minus_def)
qed

lemma balance_differences_map:
  "balance_differences a b ks = Inr r \<Longrightarrow> map fst r = ks \<and>
     (\<forall>(k, d) \<in> set r. sint d = sint (hm_get_or 0 a k) - sint (hm_get_or 0 b k))"
  by (induction ks arbitrary: r) (auto simp: rbind_eq_Inr i64_minus_Inr)

text \<open>The difference of two balances maps exactly the assets whose amounts differ, to the signed difference.\<close>

lemma Balance_sub_at:
  assumes "Balance_sub a b = (Inr r :: 'e fault + SignedBalance)"
  shows "map_of r k = Some d \<longleftrightarrow> d \<noteq> 0 \<and> sint d = sint (hm_get_or 0 a k) - sint (hm_get_or 0 b k)"
proof -
  obtain q where q: "balance_differences a b (remdups (hm_keys b @ hm_keys a)) = (Inr q :: 'e fault + SignedBalance)"
    "r = hm_retain (\<lambda>_ v. v \<noteq> 0) q"
    using assms by (auto simp: Balance_sub_def rbind_eq_Inr)
  note * = balance_differences_map [OF q(1)]
  then have ok: "hm_ok q" by (simp add: hm_ok_def)
  have "set (map fst q) = set (remdups (hm_keys b @ hm_keys a))" using * by (simp only:)
  then have dom: "k \<in> fst ` set q \<longleftrightarrow> k \<in> dom (map_of a) \<or> k \<in> dom (map_of b)" by auto
  have val: "map_of q k = Some v \<Longrightarrow> sint v = sint (hm_get_or 0 a k) - sint (hm_get_or 0 b k)" for v
    using * by (auto dest!: map_of_SomeD)
  show ?thesis
  proof (cases "map_of q k")
    case None
    then have "map_of a k = None" "map_of b k = None" using dom by (auto simp: map_of_eq_None_iff dom_map_of_conv_image_fst)
    moreover have "sint d = 0 \<Longrightarrow> d = 0" using signed_word_eqI [of d 0] by simp
    ultimately show ?thesis using None q(2) ok by (auto simp: map_of_retain hm_get_or_def)
  next
    case (Some v)
    from val [OF this] have "sint d = sint (hm_get_or 0 a k) - sint (hm_get_or 0 b k) \<longleftrightarrow> d = v"
      by (metis signed_word_eqI)
    with Some q(2) ok show ?thesis by (auto simp: map_of_retain)
  qed
qed

end
