(* ===== verification/Wollet.thy ===== *)
theory Wollet
  imports Cache Persister Network
begin

text \<open>
  The wallet and its queries (\<^verbatim>\<open>lwk_wollet/src/wollet.rs\<close>, \<^verbatim>\<open>clients/mod.rs\<close>): addresses, unspent and
  all outputs, balance, transactions with their net effect and type, and the status that guards the
  updates.
\<close>

section \<open>The wallet\<close>

text \<open>What other crates provide: the consensus environment, miniscript, the curve, JSON text, the double
  hash, the hasher of the status, the opening of a confidential output with a blinding key and the
  weight to satisfy a definite descriptor.\<close>

record ('k, 'd, 'x) wctx =
  cx_env :: env
  cx_ms :: "('k, 'd, 'x) miniscript"
  cx_secp :: secp
  cx_json :: json_strings
  cx_sha256d :: "bytes \<Rightarrow> bytes"
  cx_hasher :: "network_view \<times> cache_view \<times> string \<Rightarrow> u64"
  cx_unblind :: "TxOut \<Rightarrow> bytes \<Rightarrow> string + TxOutSecrets"
  cx_max_weight :: "'x \<Rightarrow> string + nat"

record ('k, 'd, 's, 'u) Wollet =
  w_network :: Network
  w_cache :: "'s Cache"
  w_descriptor :: "('k, 'd) WolletDescriptor"
  w_persister :: "'u UpdatesPersister"
  w_max_weight :: nat
  w_utxo_only :: bool

record Tip =
  tip_height :: Height
  tip_hash :: BlockHash
  tip_timestamp :: "Timestamp option"

definition status :: "('k, 'd, 'x) wctx \<Rightarrow> ('k, 'd, 's, 'u) Wollet \<Rightarrow> u64" where
  "status X w = cx_hasher X (Network_hash (w_network w), Cache_hash (w_cache w),
     WolletDescriptor_display (cx_ms X) (cx_secp X) (w_descriptor w))"

definition never_scanned :: "('k, 'd, 's, 'u) Wollet \<Rightarrow> bool" where
  "never_scanned w \<longleftrightarrow> cache_tip (w_cache w) = (0, replicate 32 0)"

definition wallet_tip :: "('k, 'd, 's, 'u) Wollet \<Rightarrow> Tip" where
  "wallet_tip w = (let (height, hash) = cache_tip (w_cache w) in
     \<lparr>tip_height = height, tip_hash = hash, tip_timestamp = map_of (timestamps (w_cache w)) height\<rparr>)"

definition is_segwit :: "('k, 'd, 'x) wctx \<Rightarrow> ('k, 'd, 's, 'u) Wollet \<Rightarrow> bool" where
  "is_segwit X w =
     (case wd_ct_descriptor (w_descriptor w) of
        Inr (k, d) \<Rightarrow> ms_segwit_version (cx_ms X) d \<noteq> None
      | Inl _ \<Rightarrow> False)"

definition wallet_last_unused :: "('k, 'd, 's, 'u) Wollet \<Rightarrow> LastUnused" where
  "wallet_last_unused w =
     \<lparr>lu_internal = last_unused_internal (w_cache w), lu_external = last_unused_external (w_cache w)\<rparr>"

section \<open>Addresses\<close>

definition inner_address ::
    "('k, 'd, 'x) wctx \<Rightarrow> ('k, 'd, 's, 'u) Wollet \<Rightarrow> Chain \<Rightarrow> u32 option \<Rightarrow> wollet_error fault + Address \<times> u32" where
  "inner_address X w chain index =
     (let has_descriptor = (spk_count (w_descriptor w) = None)
      in if has_descriptor \<and> \<not> wd_has_wildcard (cx_ms X) (w_descriptor w) \<and> index \<noteq> None
         then Inl (Err IndexWithoutWildcard)
         else if \<not> has_descriptor \<and> index = None then Inl (Err UnsupportedWithoutDescriptor)
         else let i = (case index of Some i \<Rightarrow> i
                | None \<Rightarrow> (case chain of Internal \<Rightarrow> last_unused_internal (w_cache w)
                                      | External \<Rightarrow> last_unused_external (w_cache w)))
              in rbind (wd_inner_address (cx_ms X) (cx_secp X) (w_descriptor w) i
                   (address_params (w_network w)) chain) (\<lambda>address. Inr (address, i)))"

definition wallet_address ::
    "('k, 'd, 'x) wctx \<Rightarrow> ('k, 'd, 's, 'u) Wollet \<Rightarrow> u32 option \<Rightarrow> wollet_error fault + Address \<times> u32" where
  "wallet_address X w index = inner_address X w External index"

definition wallet_change ::
    "('k, 'd, 'x) wctx \<Rightarrow> ('k, 'd, 's, 'u) Wollet \<Rightarrow> u32 option \<Rightarrow> wollet_error fault + Address \<times> u32" where
  "wallet_change X w index = inner_address X w Internal index"

section \<open>Opening outputs\<close>

definition explicit_secrets :: "AssetId \<Rightarrow> u64 \<Rightarrow> TxOutSecrets" where
  "explicit_secrets asset v =
     \<lparr>sec_asset = asset, asset_bf = replicate 32 0, sec_value = v, value_bf = replicate 32 0\<rparr>"

definition try_unblind ::
    "('k, 'd, 'x) wctx \<Rightarrow> TxOut \<Rightarrow> ('k, 'd) WolletDescriptor \<Rightarrow> wollet_error + TxOutSecrets" where
  "try_unblind X output w =
     (case (out_asset output, out_value output, out_nonce output) of
        (AConfidential _, VConfidential _, NConfidential _) \<Rightarrow>
          (case blinding_key_for_script (cx_ms X) w (script_pubkey output) of
             None \<Rightarrow> Inl MissingPrivateBlindingKey
           | Some receiver_sk \<Rightarrow> map_err Unblind (cx_unblind X output receiver_sk))
      | (AExplicit asset, VExplicit v, _) \<Rightarrow> Inr (explicit_secrets asset v)
      | _ \<Rightarrow> Inl (Generic ''received unconfidential or null asset/value/nonce''))"

definition is_explicit :: "TxOutSecrets \<Rightarrow> bool" where
  "is_explicit s \<longleftrightarrow> asset_bf s = replicate 32 0 \<and> value_bf s = replicate 32 0"

definition check_witnesses_non_empty :: "Transaction \<Rightarrow> wollet_error + unit" where
  "check_witnesses_non_empty tx =
     (if list_ex (\<lambda>i. TxInWitness_is_empty (in_witness i)) (tx_input tx) then Inl EmptyWitness else Inr ())"

text \<open>The outputs of a transaction with their outpoints; the index is cut to 32 bits.\<close>

definition indexed_outputs :: "Txid \<Rightarrow> Transaction \<Rightarrow> (OutPoint \<times> TxOut) list" where
  "indexed_outputs t tx =
     map (\<lambda>(i, out). (\<lparr>op_txid = t, op_vout = of_nat i\<rparr>, out)) (List.enumerate 0 (tx_output tx))"

section \<open>Outputs of the wallet\<close>

record WalletTxOut =
  wo_outpoint :: OutPoint
  wo_script_pubkey :: Script
  wo_height :: "u32 option"
  wo_unblinded :: TxOutSecrets
  wo_wildcard_index :: u32
  wo_ext_int :: Chain
  wo_is_spent :: bool
  wo_address :: Address

definition wallet_index :: "('k, 'd, 's, 'u) Wollet \<Rightarrow> Script \<Rightarrow> wollet_error + Chain \<times> u32" where
  "wallet_index w script =
     (case map_of (paths (w_cache w)) script of
        None \<Rightarrow> Inl ScriptNotMine
      | Some (ext_int, child) \<Rightarrow>
          if child < 0x80000000 then Inr (ext_int, child)
          else Inl (Generic ''unexpected hardened derivation''))"

definition output_blinding_pubkey ::
    "('k, 'd, 's, 'u) Wollet \<Rightarrow> TxOutSecrets \<Rightarrow> Chain \<times> u32 \<Rightarrow> BlindingPublicKey option" where
  "output_blinding_pubkey w secrets index =
     (if is_explicit secrets then None else Option.bind (map_of (scripts (w_cache w)) index) snd)"

definition utxo_of ::
    "('k, 'd, 's, 'u) Wollet \<Rightarrow> OutPoint \<Rightarrow> Script \<Rightarrow> wollet_error + WalletTxOut" where
  "utxo_of w op script =
     (case map_of (unblinded (w_cache w)) op of
        None \<Rightarrow> Inl (Generic ''missing unblinded'')
      | Some secrets \<Rightarrow>
          (case wallet_index w script of
             Inl _ \<Rightarrow> Inl (Generic ''missing index'')
           | Inr index \<Rightarrow>
               (case from_script script (output_blinding_pubkey w secrets index) (address_params (w_network w)) of
                  None \<Rightarrow> Inl (Generic ''invalid scriptpubkey'')
                | Some address \<Rightarrow>
                    Inr \<lparr>wo_outpoint = op, wo_script_pubkey = script,
                         wo_height = (case map_of (heights (w_cache w)) (op_txid op) of Some h \<Rightarrow> h | None \<Rightarrow> None),
                         wo_unblinded = secrets, wo_wildcard_index = snd index, wo_ext_int = fst index,
                         wo_is_spent = False, wo_address = address\<rparr>)))"

definition utxos_inner :: "('k, 'd, 's, 'u) Wollet \<Rightarrow> wollet_error + WalletTxOut list" where
  "utxos_inner w = collect_results (map (\<lambda>(op, script). utxo_of w op script) (unspent (w_cache w)))"

text \<open>Sorted by descending value.\<close>

definition utxos :: "('k, 'd, 's, 'u) Wollet \<Rightarrow> wollet_error + WalletTxOut list" where
  "utxos w = rbind (utxos_inner w) (\<lambda>us.
     Inr (sort_by (\<lambda>a b. sec_value (wo_unblinded b) \<le> sec_value (wo_unblinded a)) us))"

definition has_confidential_utxo :: "('k, 'd, 's, 'u) Wollet \<Rightarrow> bool" where
  "has_confidential_utxo w \<longleftrightarrow>
     list_ex (\<lambda>(op, _). case map_of (unblinded (w_cache w)) op of
         Some secrets \<Rightarrow> \<not> is_explicit secrets | None \<Rightarrow> False) (unspent (w_cache w))"

definition txo_of ::
    "('k, 'd, 's, 'u) Wollet \<Rightarrow> Height option \<Rightarrow> OutPoint \<Rightarrow> TxOut \<Rightarrow> WalletTxOut option" where
  "txo_of w height op output =
     Option.bind (map_of (unblinded (w_cache w)) op) (\<lambda>secrets.
     case wallet_index w (script_pubkey output) of
       Inl _ \<Rightarrow> None
     | Inr index \<Rightarrow>
         map_option (\<lambda>address.
           \<lparr>wo_outpoint = op, wo_script_pubkey = script_pubkey output, wo_height = height, wo_unblinded = secrets,
            wo_wildcard_index = snd index, wo_ext_int = fst index,
            wo_is_spent = (\<not> hm_contains (unspent (w_cache w)) op), wo_address = address\<rparr>)
           (from_script (script_pubkey output) (output_blinding_pubkey w secrets index) (address_params (w_network w))))"

fun txos_loop ::
    "(Txid \<Rightarrow> Transaction option) \<Rightarrow> ('k, 'd, 's, 'u) Wollet \<Rightarrow> (Txid \<times> Height option) list \<Rightarrow>
      wollet_error + WalletTxOut list" where
  "txos_loop tx_of w [] = Inr []"
| "txos_loop tx_of w ((t, height) # ts) =
     (case tx_of t of
        None \<Rightarrow> Inl (Generic (''txos no tx '' @ txid_display t))
      | Some tx \<Rightarrow>
          rbind (txos_loop tx_of w ts) (\<lambda>rest.
          Inr (List.map_filter (\<lambda>(op, out). txo_of w height op out) (indexed_outputs t tx) @ rest)))"

definition txos ::
    "('k, 'd, 'x) wctx \<Rightarrow> 's DynStore \<Rightarrow> ('k, 'd, 's, 'u) Wollet \<Rightarrow> wollet_error + WalletTxOut list" where
  "txos X T w = txos_loop (cache_tx (cx_env X) T (w_cache w)) w (cache_sorted_txids (w_cache w))"

definition txos_map ::
    "('k, 'd, 'x) wctx \<Rightarrow> 's DynStore \<Rightarrow> ('k, 'd, 's, 'u) Wollet \<Rightarrow>
      wollet_error + (OutPoint, WalletTxOut) hashmap" where
  "txos_map X T w = rbind (txos X T w) (\<lambda>outs.
     Inr (hm_extend [] (map (\<lambda>out. (wo_outpoint out, out)) outs)))"

section \<open>Outputs handed to other wallets and outputs that stay closed\<close>

record ExternalUtxo =
  ex_outpoint :: OutPoint
  ex_txout :: TxOut
  ex_tx :: "Transaction option"
  ex_unblinded :: TxOutSecrets
  ex_max_weight :: nat

definition external_utxo ::
    "('k, 'd, 'x) wctx \<Rightarrow> ('k, 'd, 's, 'u) Wollet \<Rightarrow> OutPoint \<Rightarrow> TxOut \<Rightarrow> Transaction \<Rightarrow> TxOutSecrets \<Rightarrow> ExternalUtxo" where
  "external_utxo X w op out tx secrets =
     \<lparr>ex_outpoint = op, ex_txout = out, ex_tx = (if is_segwit X w then None else Some tx),
      ex_unblinded = secrets, ex_max_weight = w_max_weight w\<rparr>"

text \<open>The output behind an outpoint, with the errors of the two callers.\<close>

definition cached_output ::
    "('k, 'd, 'x) wctx \<Rightarrow> 's DynStore \<Rightarrow> ('k, 'd, 's, 'u) Wollet \<Rightarrow> wollet_error \<Rightarrow> OutPoint \<Rightarrow>
      wollet_error + Transaction \<times> TxOut" where
  "cached_output X T w missing op =
     (case cache_tx (cx_env X) T (w_cache w) (op_txid op) of
        None \<Rightarrow> Inl missing
      | Some tx \<Rightarrow>
          if unat (op_vout op) < length (tx_output tx) then Inr (tx, tx_output tx ! unat (op_vout op))
          else Inl (Generic ''missing output''))"

fun explicit_utxos_loop ::
    "('k, 'd, 'x) wctx \<Rightarrow> 's DynStore \<Rightarrow> ('k, 'd, 's, 'u) Wollet \<Rightarrow> OutPoint list \<Rightarrow> wollet_error + ExternalUtxo list" where
  "explicit_utxos_loop X T w [] = Inr []"
| "explicit_utxos_loop X T w (op # ops) =
     (case map_of (unblinded (w_cache w)) op of
        None \<Rightarrow> Inl (Generic ''missing unblinded'')
      | Some secrets \<Rightarrow>
          if \<not> is_explicit secrets then explicit_utxos_loop X T w ops
          else rbind (cached_output X T w (Generic ''missing tx'') op) (\<lambda>(tx, out).
               rbind (explicit_utxos_loop X T w ops) (\<lambda>rest. Inr (external_utxo X w op out tx secrets # rest))))"

definition explicit_utxos ::
    "('k, 'd, 'x) wctx \<Rightarrow> 's DynStore \<Rightarrow> ('k, 'd, 's, 'u) Wollet \<Rightarrow> wollet_error + ExternalUtxo list" where
  "explicit_utxos X T w = explicit_utxos_loop X T w (hm_keys (unspent (w_cache w)))"

definition external_utxo_for ::
    "('k, 'd, 'x) wctx \<Rightarrow> 's DynStore \<Rightarrow> ('k, 'd, 's, 'u) Wollet \<Rightarrow> OutPoint \<Rightarrow> wollet_error + ExternalUtxo" where
  "external_utxo_for X T w op =
     (case map_of (unblinded (w_cache w)) op of
        None \<Rightarrow> Inl (MissingWalletUtxo op)
      | Some secrets \<Rightarrow>
          rbind (cached_output X T w MissingTransaction op) (\<lambda>(tx, out). Inr (external_utxo X w op out tx secrets)))"

text \<open>The outputs of the stored transactions that pay the wallet and are not opened.\<close>

definition closed_outputs ::
    "('k, 'd, 'x) wctx \<Rightarrow> 's DynStore \<Rightarrow> ('k, 'd, 's, 'u) Wollet \<Rightarrow> (OutPoint \<times> TxOut \<times> Transaction) list" where
  "closed_outputs X T w =
     concat (map (\<lambda>(t, tx). map (\<lambda>(op, out). (op, out, tx))
       (filter (\<lambda>(op, out). hm_contains (paths (w_cache w)) (script_pubkey out) \<and>
          \<not> hm_contains (unblinded (w_cache w)) op) (indexed_outputs t tx)))
       (all_txs (cx_env X) T (w_cache w)))"

definition txos_cannot_unblind ::
    "('k, 'd, 'x) wctx \<Rightarrow> 's DynStore \<Rightarrow> ('k, 'd, 's, 'u) Wollet \<Rightarrow> OutPoint list" where
  "txos_cannot_unblind X T w =
     map fst (filter (\<lambda>(op, out, tx). script_pubkey out \<noteq> []) (closed_outputs X T w))"

definition unblind_utxos_with ::
    "('k, 'd, 'x) wctx \<Rightarrow> 's DynStore \<Rightarrow> ('k, 'd, 's, 'u) Wollet \<Rightarrow> bytes \<Rightarrow> ExternalUtxo list" where
  "unblind_utxos_with X T w blinding_key =
     List.map_filter (\<lambda>(op, out, tx). case cx_unblind X out blinding_key of
         Inr secrets \<Rightarrow> Some (external_utxo X w op out tx secrets)
       | Inl _ \<Rightarrow> None) (closed_outputs X T w)"

definition reunblind ::
    "('k, 'd, 'x) wctx \<Rightarrow> 's DynStore \<Rightarrow> ('k, 'd, 's, 'u) Wollet \<Rightarrow> OutPoint list \<times> ('k, 'd, 's, 'u) Wollet" where
  "reunblind X T w =
     (let new = List.map_filter (\<lambda>(op, out, tx). case try_unblind X out (w_descriptor w) of
            Inr secrets \<Rightarrow> Some (op, secrets) | Inl _ \<Rightarrow> None) (closed_outputs X T w)
      in (map fst new, w\<lparr>w_cache := extend_unblinded (hm_extend [] new) (w_cache w)\<rparr>))"

section \<open>Balances\<close>

fun balance_loop :: "Balance \<Rightarrow> WalletTxOut list \<Rightarrow> 'e fault + Balance" where
  "balance_loop r [] = Inr r"
| "balance_loop r (u # us) =
     rbind (checked_plus (hm_get_or 0 r (sec_asset (wo_unblinded u))) (sec_value (wo_unblinded u))) (\<lambda>v.
     balance_loop (hm_insert (sec_asset (wo_unblinded u)) v r) us)"

definition balance_from_utxos :: "('k, 'd, 's, 'u) Wollet \<Rightarrow> WalletTxOut list \<Rightarrow> 'e fault + Balance" where
  "balance_from_utxos w us = balance_loop [(policy_asset (w_network w), 0)] us"

definition balance :: "('k, 'd, 's, 'u) Wollet \<Rightarrow> wollet_error fault + Balance" where
  "balance w = rbind (map_err Err (utxos w)) (balance_from_utxos w)"

definition assets_owned :: "('k, 'd, 's, 'u) Wollet \<Rightarrow> wollet_error + AssetId set" where
  "assets_owned w = rbind (utxos w) (\<lambda>us. Inr (set (map (\<lambda>u. sec_asset (wo_unblinded u)) us)))"

text \<open>The net effect of a transaction: its wallet outputs are added and its wallet inputs subtracted, in
  checked signed arithmetic on the amounts cast to \<open>i64\<close>.\<close>

fun add_outputs :: "(OutPoint, WalletTxOut) hashmap \<Rightarrow> OutPoint list \<Rightarrow> SignedBalance \<Rightarrow> 'e fault + SignedBalance" where
  "add_outputs m [] b = Inr b"
| "add_outputs m (op # ops) b =
     (case map_of m op of
        None \<Rightarrow> add_outputs m ops b
      | Some out \<Rightarrow>
          rbind (i64_plus (hm_get_or 0 b (sec_asset (wo_unblinded out))) (sec_value (wo_unblinded out))) (\<lambda>v.
          add_outputs m ops (hm_insert (sec_asset (wo_unblinded out)) v b)))"

fun sub_inputs :: "(OutPoint, WalletTxOut) hashmap \<Rightarrow> OutPoint list \<Rightarrow> SignedBalance \<Rightarrow> 'e fault + SignedBalance" where
  "sub_inputs m [] b = Inr b"
| "sub_inputs m (op # ops) b =
     (case map_of m op of
        None \<Rightarrow> sub_inputs m ops b
      | Some out \<Rightarrow>
          rbind (i64_minus (hm_get_or 0 b (sec_asset (wo_unblinded out))) (sec_value (wo_unblinded out))) (\<lambda>v.
          sub_inputs m ops (hm_insert (sec_asset (wo_unblinded out)) v b)))"

definition tx_balance ::
    "(bytes \<Rightarrow> Txid) \<Rightarrow> Txid \<Rightarrow> Transaction \<Rightarrow> (OutPoint, WalletTxOut) hashmap \<Rightarrow> 'e fault + SignedBalance" where
  "tx_balance h t tx m =
     (if t \<noteq> txid h tx then Inl (Panic ''assertion `left == right` failed'')
      else rbind (add_outputs m (map fst (indexed_outputs t tx)) []) (sub_inputs m (inputs_of tx)))"

fun sum_u64 :: "u64 \<Rightarrow> u64 list \<Rightarrow> 'e fault + u64" where
  "sum_u64 acc [] = Inr acc"
| "sum_u64 acc (v # vs) = rbind (checked_plus acc v) (\<lambda>s. sum_u64 s vs)"

definition tx_fee :: "Transaction \<Rightarrow> 'e fault + u64" where
  "tx_fee tx = sum_u64 0 (map (\<lambda>out. case out_value out of VExplicit v \<Rightarrow> v | _ \<Rightarrow> 0)
     (filter (\<lambda>out. script_pubkey out = []) (tx_output tx)))"

definition burn_script :: Script where "burn_script = [0x6a]"

definition tx_type :: "Transaction \<Rightarrow> AssetId \<Rightarrow> SignedBalance \<Rightarrow> u64 \<Rightarrow> string" where
  "tx_type tx policy b fee =
     (if list_ex (\<lambda>i. \<not> AssetIssuance_is_null (asset_issuance i) \<and>
          asset_blinding_nonce (asset_issuance i) = replicate 32 0) (tx_input tx) then ''issuance''
      else if list_ex (\<lambda>i. \<not> AssetIssuance_is_null (asset_issuance i) \<and>
          asset_blinding_nonce (asset_issuance i) \<noteq> replicate 32 0) (tx_input tx) then ''reissuance''
      else if list_ex (\<lambda>out. script_pubkey out = burn_script) (tx_output tx) then ''burn''
      else if length b = 1 \<and> map_of b policy = Some fee then ''redeposit''
      else if b = [] then ''unknown''
      else if list_all (\<lambda>(_, v). 0 < sint v) b then ''incoming''
      else if list_all (\<lambda>(_, v). sint v < 0) b then ''outgoing''
      else ''unknown'')"

section \<open>Transactions\<close>

record WalletTx =
  wt_tx :: Transaction
  wt_txid :: Txid
  wt_height :: "u32 option"
  wt_balance :: SignedBalance
  wt_fee :: u64
  wt_type :: string
  wt_timestamp :: "Timestamp option"
  wt_inputs :: "WalletTxOut option list"
  wt_outputs :: "WalletTxOut option list"

definition tx_inputs :: "Transaction \<Rightarrow> (OutPoint, WalletTxOut) hashmap \<Rightarrow> WalletTxOut option list" where
  "tx_inputs tx m = map (map_of m) (inputs_of tx)"

definition tx_outputs :: "Txid \<Rightarrow> Transaction \<Rightarrow> (OutPoint, WalletTxOut) hashmap \<Rightarrow> WalletTxOut option list" where
  "tx_outputs t tx m = map (\<lambda>(op, _). map_of m op) (indexed_outputs t tx)"

definition wallet_tx ::
    "('k, 'd, 'x) wctx \<Rightarrow> ('k, 'd, 's, 'u) Wollet \<Rightarrow> (OutPoint, WalletTxOut) hashmap \<Rightarrow> Txid \<Rightarrow> Height option \<Rightarrow>
      Transaction \<Rightarrow> wollet_error fault + WalletTx" where
  "wallet_tx X w m t height tx =
     rbind (tx_balance (cx_sha256d X) t tx m) (\<lambda>b.
     rbind (tx_fee tx) (\<lambda>fee.
     Inr \<lparr>wt_tx = tx, wt_txid = t, wt_height = height, wt_balance = b, wt_fee = fee,
          wt_type = tx_type tx (policy_asset (w_network w)) b fee,
          wt_timestamp = Option.bind height (map_of (timestamps (w_cache w))),
          wt_inputs = tx_inputs tx m, wt_outputs = tx_outputs t tx m\<rparr>))"

text \<open>A transaction with no effect on the wallet that it can see is left out of the list.\<close>

fun transactions_loop ::
    "('k, 'd, 'x) wctx \<Rightarrow> 's DynStore \<Rightarrow> ('k, 'd, 's, 'u) Wollet \<Rightarrow> (OutPoint, WalletTxOut) hashmap \<Rightarrow>
      (Txid \<times> Height option) list \<Rightarrow> wollet_error fault + WalletTx list" where
  "transactions_loop X T w m [] = Inr []"
| "transactions_loop X T w m ((t, height) # ts) =
     (case cache_tx (cx_env X) T (w_cache w) t of
        None \<Rightarrow> Inl (Err (Generic (''list_tx no tx '' @ txid_display t)))
      | Some tx \<Rightarrow>
          rbind (tx_balance (cx_sha256d X) t tx m) (\<lambda>b.
          if b = [] \<and> list_all (\<lambda>i. i = None) (tx_inputs tx m) \<and> list_all (\<lambda>i. i = None) (tx_outputs t tx m)
          then transactions_loop X T w m ts
          else rbind (wallet_tx X w m t height tx) (\<lambda>wt.
               rbind (transactions_loop X T w m ts) (\<lambda>rest. Inr (wt # rest)))))"

definition transactions_paginated ::
    "('k, 'd, 'x) wctx \<Rightarrow> 's DynStore \<Rightarrow> ('k, 'd, 's, 'u) Wollet \<Rightarrow> nat \<Rightarrow> nat \<Rightarrow> wollet_error fault + WalletTx list" where
  "transactions_paginated X T w offset limit =
     rbind (map_err Err (txos_map X T w)) (\<lambda>m.
     transactions_loop X T w m (take limit (drop offset (cache_sorted_txids (w_cache w)))))"

definition transactions ::
    "('k, 'd, 'x) wctx \<Rightarrow> 's DynStore \<Rightarrow> ('k, 'd, 's, 'u) Wollet \<Rightarrow> wollet_error fault + WalletTx list" where
  "transactions X T w = transactions_paginated X T w 0 (2 ^ 64 - 1)"

definition transaction ::
    "('k, 'd, 'x) wctx \<Rightarrow> 's DynStore \<Rightarrow> ('k, 'd, 's, 'u) Wollet \<Rightarrow> Txid \<Rightarrow> wollet_error fault + WalletTx option" where
  "transaction X T w t =
     (case cache_tx (cx_env X) T (w_cache w) t of
        None \<Rightarrow> Inr None
      | Some tx \<Rightarrow>
          rbind (map_err Err (txos_map X T w)) (\<lambda>m.
          rbind (wallet_tx X w m t (case map_of (heights (w_cache w)) t of Some h \<Rightarrow> h | None \<Rightarrow> None) tx) (\<lambda>wt.
          Inr (Some wt))))"

text \<open>The output that a child transaction spends to pay for its parent: change first, then any output.\<close>

definition cpfp_spendable_outpoint ::
    "('k, 'd, 'x) wctx \<Rightarrow> 's DynStore \<Rightarrow> ('k, 'd, 's, 'u) Wollet \<Rightarrow> Txid \<Rightarrow> wollet_error fault + OutPoint" where
  "cpfp_spendable_outpoint X T w t =
     rbind (transaction X T w t) (\<lambda>r. case r of
       None \<Rightarrow> Inl (Err MissingTransaction)
     | Some wtx \<Rightarrow>
         let outs = filter (\<lambda>out. wo_height out = None) (List.map_filter id (wt_outputs wtx))
         in case (case List.find (\<lambda>out. wo_ext_int out = Internal) outs of
                Some out \<Rightarrow> Some out | None \<Rightarrow> List.find (\<lambda>_. True) outs) of
             None \<Rightarrow> Inl (Err (Generic ''no unconfirmed wallet output to attach a CPFP child to''))
           | Some out \<Rightarrow> Inr (wo_outpoint out))"

end
