(* ===== verification/ApplyUpdate.thy ===== *)
theory ApplyUpdate
  imports Wollet
begin

text \<open>
  Updates applied to the wallet and its construction from what was persisted (\<^verbatim>\<open>lwk_wollet/src/update.rs\<close>,
  the builder of \<^verbatim>\<open>wollet.rs\<close>): the guards, the order of the changes to the cache, the indexes of the used
  addresses, transactions applied before they are scanned, and the replay of the persisted updates.
\<close>

section \<open>Applying an update\<close>

definition compute_blinding_pubkey ::
    "('k, 'd, 'x) wctx \<Rightarrow> ('k, 'd) WolletDescriptor \<Rightarrow> script_entry \<Rightarrow> wollet_error fault + script_entry" where
  "compute_blinding_pubkey X d entry =
     (case entry of (chain, child, script, pk) \<Rightarrow>
        (case pk of
           Some _ \<Rightarrow> Inr entry
         | None \<Rightarrow>
             (case ct_definite_descriptor (cx_ms X) d chain child of
                Inr (k, x) \<Rightarrow>
                  rbind (map_err (\<lambda>e. Err (ElementsMiniscript e)) (ms_address (cx_ms X) k x ELEMENTS)) (\<lambda>address.
                  case ad_blinding_pubkey address of
                    Some pk \<Rightarrow> Inr (chain, child, script, Some pk)
                  | None \<Rightarrow> Inl (Panic ''blinding pubkey is present when using ct descriptors''))
              | Inl e \<Rightarrow> if e = Err UnsupportedWithoutDescriptor then Inr (chain, child, script, None) else Inl e)))"

definition compute_blinding_pubkey_if_missing ::
    "('k, 'd, 'x) wctx \<Rightarrow> ('k, 'd) WolletDescriptor \<Rightarrow> script_entry list \<Rightarrow> wollet_error fault + script_entry list" where
  "compute_blinding_pubkey_if_missing X d entries = collect_results (map (compute_blinding_pubkey X d) entries)"

text \<open>The tip moves unless the header is the placeholder; one block below the current tip is allowed.\<close>

definition move_tip :: "(bytes \<Rightarrow> BlockHash) \<Rightarrow> BlockHeader \<Rightarrow> 's Cache \<Rightarrow> wollet_error fault + 's Cache" where
  "move_tip h tip c =
     (if tip = default_blockheader then Inr c
      else rbind (checked_plus (bh_height tip) 1) (\<lambda>next.
           if next < fst (cache_tip c)
           then Inl (Err (UpdateHeightTooOld (bh_height tip) (fst (cache_tip c))))
           else rbind (map_err (map_fault ElementsEncode) (block_hash h tip)) (\<lambda>hash.
                Inr (c\<lparr>cache_tip := (bh_height tip, hash)\<rparr>))))"

definition add_scripts :: "script_entry list \<Rightarrow> 's Cache \<Rightarrow> 's Cache" where
  "add_scripts entries c =
     c\<lparr>scripts := hm_extend (scripts c) (map (\<lambda>(chain, child, script, pk). ((chain, child), (script, pk))) entries),
       paths := hm_extend (paths c) (map (\<lambda>(chain, child, script, pk). (script, (chain, child))) entries)\<rparr>"

text \<open>Updates older than version 4 do not carry the unused indexes: they are computed from the outputs.\<close>

definition used_indexes ::
    "env \<Rightarrow> 's DynStore \<Rightarrow> 's Cache \<Rightarrow> Txid list \<Rightarrow> (Txid \<times> Transaction) list \<Rightarrow> Chain \<Rightarrow> u32 list" where
  "used_indexes E T c txids txs chain =
     concat (map (\<lambda>tx. List.map_filter (\<lambda>out. case map_of (paths c) (script_pubkey out) of
         Some (ext_int, child) \<Rightarrow> if child < 0x80000000 \<and> ext_int = chain then Some child else None
       | None \<Rightarrow> None) (tx_output tx))
       (List.map_filter (\<lambda>t. tx_as_fallback E T c t txs) txids))"

fun max_index :: "u32 option \<Rightarrow> u32 list \<Rightarrow> u32 option" where
  "max_index acc [] = acc"
| "max_index acc (i # is) =
     max_index (case acc of None \<Rightarrow> Some i | Some j \<Rightarrow> if j < i then Some i else Some j) is"

definition raise_last_used :: "u32 \<Rightarrow> u32 option \<Rightarrow> u32" where
  "raise_last_used current used = (case used of None \<Rightarrow> current | Some i \<Rightarrow> max current (i + 1))"

definition raise_last_unused ::
    "env \<Rightarrow> 's DynStore \<Rightarrow> Update \<Rightarrow> 's Cache \<Rightarrow> 's Cache" where
  "raise_last_unused E T u c =
     (if 4 \<le> upd_version u
      then c\<lparr>last_unused_external := max (last_unused_external c) (lu_external (upd_last_unused u)),
             last_unused_internal := max (last_unused_internal c) (lu_internal (upd_last_unused u))\<rparr>
      else let txids = map fst (txid_height_new u) @ txid_height_delete u;
               used = (\<lambda>chain. max_index None (used_indexes E T c txids (dl_txs (new_txs u)) chain))
           in c\<lparr>last_unused_external := raise_last_used (last_unused_external c) (used External),
                last_unused_internal := raise_last_used (last_unused_internal c) (used Internal)\<rparr>)"

definition apply_to_cache ::
    "('k, 'd, 'x) wctx \<Rightarrow> 's DynStore \<Rightarrow> bool \<Rightarrow> Update \<Rightarrow> script_entry list \<Rightarrow> ('s Cache, wollet_error, unit) mut_fn" where
  "apply_to_cache X T utxo_only u entries c =
     mbind (cache_update (cx_env X) T (cx_json X) (txid_height_new u) (txid_height_delete u) (dl_txs (new_txs u))
         utxo_only (upd_unspent u) (add_scripts entries (extend_unblinded (dl_unblinds (new_txs u)) c))) (\<lambda>_ c.
     (Inr (), raise_last_unused (cx_env X) T u (c\<lparr>timestamps := hm_extend (timestamps c) (upd_timestamps u)\<rparr>)))"

definition apply_update_inner ::
    "('k, 'd, 'x) wctx \<Rightarrow> 's DynStore \<Rightarrow> Update \<Rightarrow> (('k, 'd, 's, 'u) Wollet, wollet_error, unit) mut_fn" where
  "apply_update_inner X T u w =
     (if wollet_status u \<noteq> 0 \<and> status X w \<noteq> wollet_status u
      then (Inl (Err (UpdateOnDifferentStatus (status X w) (wollet_status u))), w)
      else case compute_blinding_pubkey_if_missing X (w_descriptor w) (scripts_with_blinding_pubkey u) of
          Inl e \<Rightarrow> (Inl e, w)
        | Inr entries \<Rightarrow>
            (case move_tip (cx_sha256d X) (upd_tip u) (w_cache w) of
               Inl e \<Rightarrow> (Inl e, w)
             | Inr c \<Rightarrow>
                 (case apply_to_cache X T (w_utxo_only w) u entries c of
                    (r, c) \<Rightarrow> (r, w\<lparr>w_cache := c\<rparr>))))"

definition persist_update ::
    "('k, 'd, 'x) wctx \<Rightarrow> 's DynStore \<Rightarrow> 'u DynStore \<Rightarrow> Update \<Rightarrow> (('k, 'd, 's, 'u) Wollet, wollet_error, unit) mut_fn" where
  "persist_update X T U u w =
     (case persist (cx_env X) (cx_sha256d X) U u (dyn_is_persisted T) (w_persister w) of
        (r, p) \<Rightarrow> (r, w\<lparr>w_persister := p\<rparr>))"

definition apply_update ::
    "('k, 'd, 'x) wctx \<Rightarrow> 's DynStore \<Rightarrow> 'u DynStore \<Rightarrow> Update \<Rightarrow> (('k, 'd, 's, 'u) Wollet, wollet_error, unit) mut_fn" where
  "apply_update X T U u w = mbind (apply_update_inner X T u w) (\<lambda>_. persist_update X T U u)"

section \<open>Applying a transaction\<close>

definition tx_unblinds ::
    "('k, 'd, 'x) wctx \<Rightarrow> ('k, 'd, 's, 'u) Wollet \<Rightarrow> Txid \<Rightarrow> Transaction \<Rightarrow> (OutPoint \<times> TxOutSecrets) list" where
  "tx_unblinds X w t tx =
     List.map_filter (\<lambda>(op, out). case try_unblind X out (w_descriptor w) of
         Inr secrets \<Rightarrow> Some (op, secrets) | Inl _ \<Rightarrow> None)
       (filter (\<lambda>(op, out). hm_contains (paths (w_cache w)) (script_pubkey out)) (indexed_outputs t tx))"

definition tx_unspent :: "('k, 'd, 's, 'u) Wollet \<Rightarrow> Txid \<Rightarrow> Transaction \<Rightarrow> (OutPoint \<times> TxOutSecrets) list \<Rightarrow> OutPoint list" where
  "tx_unspent w t tx unblinds =
     (if w_utxo_only w
      then hm_keys (hm_extend (hm_retain (\<lambda>op _. op \<notin> set (inputs_of tx)) (unspent (w_cache w)))
        (map (\<lambda>(op, out). (op, script_pubkey out))
          (filter (\<lambda>(op, _). op \<in> set (map fst unblinds)) (indexed_outputs t tx))))
      else [])"

definition tx_update ::
    "('k, 'd, 'x) wctx \<Rightarrow> ('k, 'd, 's, 'u) Wollet \<Rightarrow> Transaction \<Rightarrow> Update" where
  "tx_update X w tx =
     (let t = txid (cx_sha256d X) tx; unblinds = tx_unblinds X w t tx in
      \<lparr>upd_version = 4, wollet_status = status X w,
       new_txs = \<lparr>dl_txs = [(t, tx)], dl_unblinds = unblinds\<rparr>,
       txid_height_new = [(t, None)], txid_height_delete = [], upd_timestamps = [],
       scripts_with_blinding_pubkey = [], upd_tip = default_blockheader,
       upd_unspent = tx_unspent w t tx unblinds, upd_last_unused = wallet_last_unused w\<rparr>)"

definition apply_transaction_inner ::
    "('k, 'd, 'x) wctx \<Rightarrow> 's DynStore \<Rightarrow> 'u DynStore \<Rightarrow> Transaction \<Rightarrow> bool \<Rightarrow>
      (('k, 'd, 's, 'u) Wollet, wollet_error, SignedBalance) mut_fn" where
  "apply_transaction_inner X T U tx skip_persist w =
     (case balance w of
        Inl e \<Rightarrow> (Inl e, w)
      | Inr initial \<Rightarrow>
          let u = tx_update X w tx
          in mbind (apply_update_inner X T u w) (\<lambda>_ w.
             mbind (if skip_persist then (Inr (), w) else persist_update X T U u w) (\<lambda>_ w.
             (rbind (balance w) (\<lambda>final. Balance_sub final initial), w))))"

section \<open>Building a wallet\<close>

text \<open>Replaying the persisted updates: a loop over the indexes that ends at the first missing one.\<close>

partial_function (option) restore_from ::
    "('k, 'd, 'x) wctx \<Rightarrow> 's DynStore \<Rightarrow> 'u DynStore \<Rightarrow> nat \<Rightarrow> ('k, 'd, 's, 'u) Wollet \<Rightarrow>
      ((wollet_error fault + unit) \<times> ('k, 'd, 's, 'u) Wollet) option" where
  "restore_from X T U i w =
     (case get_update (cx_env X) (cx_sha256d X) U (w_persister w) i of
        Inl e \<Rightarrow> Some (Inl e, w)
      | Inr None \<Rightarrow>
          Some (case merge_updates (cx_env X) (cx_sha256d X) U i (w_persister w) of
              (Inl e, p) \<Rightarrow> (Inl e, w\<lparr>w_persister := p\<rparr>)
            | (Inr n, p) \<Rightarrow> (Inr (), w\<lparr>w_persister := p\<lparr>next_update_index := n\<rparr>\<rparr>))
      | Inr (Some u) \<Rightarrow>
          (case apply_update_inner X T u w of
             (Inl e, w) \<Rightarrow> Some (Inl e, w)
           | (Inr _, w) \<Rightarrow> restore_from X T U (Suc i) w))"

definition restore_updates ::
    "('k, 'd, 'x) wctx \<Rightarrow> 's DynStore \<Rightarrow> 'u DynStore \<Rightarrow> ('k, 'd, 's, 'u) Wollet \<Rightarrow>
      ((wollet_error fault + unit) \<times> ('k, 'd, 's, 'u) Wollet) option" where
  "restore_updates X T U w = restore_from X T U 0 w"

record ('k, 'd, 's, 'u) WolletBuilder =
  wb_network :: Network
  wb_descriptor :: "('k, 'd) WolletDescriptor"
  with_stores_disallowed :: bool
  wb_updates_store :: 'u
  wb_merge_threshold :: "nat option"
  wb_txs_store :: 's
  wb_utxo_only :: bool

text \<open>The two stores are given with their interfaces \<open>T\<close> and \<open>U\<close>, which are the stores themselves or, when
  encryption is on, their encrypting wrappers.\<close>

definition WolletBuilder_new ::
    "Network \<Rightarrow> ('k, 'd) WolletDescriptor \<Rightarrow> 's \<Rightarrow> 'u \<Rightarrow> ('k, 'd, 's, 'u) WolletBuilder" where
  "WolletBuilder_new n d memory fake =
     \<lparr>wb_network = n, wb_descriptor = d, with_stores_disallowed = False, wb_updates_store = fake,
      wb_merge_threshold = None, wb_txs_store = memory, wb_utxo_only = False\<rparr>"

definition with_stores ::
    "'s \<Rightarrow> ('k, 'd, 's, 's) WolletBuilder \<Rightarrow> wollet_error + ('k, 'd, 's, 's) WolletBuilder" where
  "with_stores store b =
     (if with_stores_disallowed b then Inl (Generic ''`with_stores` must be called before other functions'')
      else Inr (b\<lparr>wb_updates_store := store, wb_txs_store := store, wb_merge_threshold := Some 1\<rparr>))"

definition with_merge_threshold ::
    "nat option \<Rightarrow> ('k, 'd, 's, 'u) WolletBuilder \<Rightarrow> ('k, 'd, 's, 'u) WolletBuilder" where
  "with_merge_threshold threshold b = b\<lparr>wb_merge_threshold := threshold, with_stores_disallowed := True\<rparr>"

definition with_updates_store :: "'u \<Rightarrow> ('k, 'd, 's, 'u) WolletBuilder \<Rightarrow> ('k, 'd, 's, 'u) WolletBuilder" where
  "with_updates_store store b = b\<lparr>wb_updates_store := store, with_stores_disallowed := True\<rparr>"

definition with_txs_store :: "'s \<Rightarrow> ('k, 'd, 's, 'u) WolletBuilder \<Rightarrow> ('k, 'd, 's, 'u) WolletBuilder" where
  "with_txs_store store b = b\<lparr>wb_txs_store := store, with_stores_disallowed := True\<rparr>"

definition unrestored ::
    "('k, 'd, 'x) wctx \<Rightarrow> ('k, 'd, 's, 'u) WolletBuilder \<Rightarrow> wollet_error fault + ('k, 'd, 's, 'u) Wollet" where
  "unrestored X b =
     rbind (case definite_descriptor (cx_ms X) (wb_descriptor b) External 0 of
          Inr d \<Rightarrow> map_err (\<lambda>e. Err (ElementsMiniscript e)) (cx_max_weight X d)
        | Inl (Panic m) \<Rightarrow> Inl (Panic m)
        | Inl (Err _) \<Rightarrow> Inr 0) (\<lambda>weight.
     Inr \<lparr>w_network = wb_network b, w_cache = Cache_new (wb_txs_store b), w_descriptor = wb_descriptor b,
          w_persister = UpdatesPersister_new (wb_updates_store b) (wb_merge_threshold b),
          w_max_weight = weight, w_utxo_only = wb_utxo_only b\<rparr>)"

definition build ::
    "('k, 'd, 'x) wctx \<Rightarrow> 's DynStore \<Rightarrow> 'u DynStore \<Rightarrow> ('k, 'd, 's, 'u) WolletBuilder \<Rightarrow>
      (wollet_error fault + ('k, 'd, 's, 'u) Wollet) option" where
  "build X T U b =
     (if dyn_is_persisted T \<and> wb_merge_threshold b \<noteq> Some 1
      then Some (Inl (Err (Generic ''If txs store is persited, merge threshold must be 1'')))
      else case unrestored X b of
          Inl e \<Rightarrow> Some (Inl e)
        | Inr w \<Rightarrow>
            map_option (\<lambda>(r, w). case r of
                Inl e \<Rightarrow> Inl e
              | Inr _ \<Rightarrow> Inr (w\<lparr>w_cache := add_txids_from_txs_store T (cx_json X) (w_cache w)\<rparr>))
              (restore_updates X T U w))"

section \<open>What every operation keeps\<close>

text \<open>The cache stays well formed, whatever the outcome, and nothing the wallet has learned is forgotten: the
  unused indexes, the stored transactions, the opened outputs and the scripts only grow.\<close>

definition grows :: "'s Cache \<Rightarrow> 's Cache \<Rightarrow> bool" where
  "grows c d \<longleftrightarrow> (cache_ok c \<longrightarrow> cache_ok d) \<and>
     last_unused_external c \<le> last_unused_external d \<and> last_unused_internal c \<le> last_unused_internal d \<and>
     set (cache_txids c) \<subseteq> set (cache_txids d) \<and> dom (map_of (unblinded c)) \<subseteq> dom (map_of (unblinded d)) \<and>
     dom (map_of (paths c)) \<subseteq> dom (map_of (paths d)) \<and> dom (map_of (scripts c)) \<subseteq> dom (map_of (scripts d))"

lemma grows_refl: "grows c c"
  by (simp add: grows_def)

lemma grows_trans: "grows a b \<Longrightarrow> grows b c \<Longrightarrow> grows a c"
  unfolding grows_def by (meson order_trans subset_trans)

lemma dom_extend_mono: "dom (map_of m) \<subseteq> dom (map_of (hm_extend m kvs))"
  by (auto simp: map_of_extend)

lemma extend_unblinded_grows: "grows c (extend_unblinded us c)"
  using dom_extend_mono [of "unblinded c"] by (simp add: grows_def extend_unblinded_def cache_ok_def)

lemma add_scripts_grows: "grows c (add_scripts entries c)"
  using dom_extend_mono [of "paths c"] dom_extend_mono [of "scripts c"]
  by (simp add: grows_def add_scripts_def cache_ok_def)

lemma move_tip_grows: "move_tip h tip c = Inr d \<Longrightarrow> grows c d"
  by (auto simp: move_tip_def rbind_eq_Inr grows_def cache_ok_def split: if_splits)

lemma raise_last_unused_grows: "grows c (raise_last_unused E T u (c\<lparr>timestamps := hm_extend (timestamps c) ts\<rparr>))"
  by (auto simp: raise_last_unused_def raise_last_used_def grows_def cache_ok_def Let_def split: option.splits)

lemma store_txs_ids: "store_txs D txs c = (r, d) \<Longrightarrow> set (cache_txids c) \<subseteq> set (cache_txids d)"
proof (induction txs arbitrary: c)
  case (Cons p txs)
  obtain t tx where p: "p = (t, tx)" by fastforce
  obtain r1 c1 where c1: "store_put D (tx_key t) (encode_Transaction tx) c = (r1, c1)" by fastforce
  note ids = store_put_frame [OF c1]
  show ?case
  proof (cases r1)
    case (Inr _)
    then have "set (List.insert t (cache_txids c1)) \<subseteq> set (cache_txids d)"
      using Cons.prems p c1 Cons.IH [of "c1\<lparr>cache_txids := List.insert t (cache_txids c1)\<rparr>"] by simp
    with ids show ?thesis by simp
  qed (use Cons.prems p c1 ids in simp)
qed simp

lemma extend_all_txs_ids: "extend_all_txs D J txs c = (r, d) \<Longrightarrow> set (cache_txids c) \<subseteq> set (cache_txids d)"
proof -
  assume a: "extend_all_txs D J txs c = (r, d)"
  obtain r1 c1 where c1: "store_txs D txs c = (r1, c1)" by fastforce
  with a show ?thesis
    using store_txs_ids [OF c1] store_put_frame [of D TXIDS_KEY _ c1]
    by (cases r1) (auto simp: extend_all_txs_def split: if_splits)
qed

lemma cache_update_grows:
  assumes "cache_update E D J new del txs utxo_only ops c = (r, d)"
  shows "grows c d"
proof -
  obtain r1 c1 where c1: "extend_all_txs D J txs c = (r1, c1)" by fastforce
  note same = extend_all_txs_frame [OF c1, unfolded same_but_store_def]
  show ?thesis
  proof (cases r1)
    case (Inl e)
    with assms c1 have "d = c1" by (simp add: cache_update_def)
    with same extend_all_txs_ids [OF c1] extend_all_txs_distinct [OF _ c1] show ?thesis
      by (simp add: grows_def cache_ok_def)
  next
    case (Inr u)
    with assms c1 have d: "d = (if utxo_only
        then update_unspent_utxos_only E D ops txs (rebuild_sorted_txids (update_heights new del c1))
        else update_unspent E D new del txs (rebuild_sorted_txids (update_heights new del c1)))" "r = Inr ()"
      by (simp_all add: cache_update_def Let_def)
    have "cache_ok c \<Longrightarrow> cache_ok d" using cache_ok_update [of c] assms d(2) by blast
    with same extend_all_txs_ids [OF c1] show ?thesis
      by (auto simp: grows_def d(1) update_fields update_unspent_utxos_only_def update_unspent_def Let_def
          rebuild_sorted_txids_def update_heights_def)
  qed
qed

lemma apply_to_cache_grows: "apply_to_cache X T utxo_only u entries c = (r, d) \<Longrightarrow> grows c d"
proof -
  assume a: "apply_to_cache X T utxo_only u entries c = (r, d)"
  let ?c = "add_scripts entries (extend_unblinded (dl_unblinds (new_txs u)) c)"
  obtain r1 c1 where c1: "cache_update (cx_env X) T (cx_json X) (txid_height_new u) (txid_height_delete u)
      (dl_txs (new_txs u)) utxo_only (upd_unspent u) ?c = (r1, c1)" by fastforce
  have "grows c c1"
    by (meson grows_trans extend_unblinded_grows add_scripts_grows cache_update_grows [OF c1])
  moreover have "d = c1 \<or> d = raise_last_unused (cx_env X) T u (c1\<lparr>timestamps := hm_extend (timestamps c1) (upd_timestamps u)\<rparr>)"
    using a c1 by (cases r1) (auto simp: apply_to_cache_def)
  ultimately show ?thesis by (metis grows_trans raise_last_unused_grows)
qed

text \<open>Only the cache changes when an update is applied in memory.\<close>

lemma apply_update_inner_frame:
  assumes "apply_update_inner X T u w = (r, w')"
  shows "\<exists>d. w' = w\<lparr>w_cache := d\<rparr> \<and> grows (w_cache w) d"
proof -
  have unchanged: "\<exists>d. w = w\<lparr>w_cache := d\<rparr> \<and> grows (w_cache w) d"
    by (rule exI [of _ "w_cache w"]) (simp add: grows_refl)
  show ?thesis
  proof (cases "w' = w")
    case False
    then obtain entries c d where *: "move_tip (cx_sha256d X) (upd_tip u) (w_cache w) = Inr c"
      "apply_to_cache X T (w_utxo_only w) u entries c = (r, d)" "w' = w\<lparr>w_cache := d\<rparr>"
      using assms by (auto simp: apply_update_inner_def split: if_splits sum.splits prod.splits)
    with move_tip_grows apply_to_cache_grows grows_trans show ?thesis by blast
  qed (simp add: unchanged)
qed

section \<open>The wallet as a transition system\<close>

text \<open>The operations that change a wallet, with any outcome.\<close>

inductive wallet_step ::
    "('k, 'd, 'x) wctx \<Rightarrow> 's DynStore \<Rightarrow> 'u DynStore \<Rightarrow> ('k, 'd, 's, 'u) Wollet \<Rightarrow> ('k, 'd, 's, 'u) Wollet \<Rightarrow> bool"
  for X T U where
  step_update: "apply_update X T U u w = (r, w') \<Longrightarrow> wallet_step X T U w w'"
| step_update_no_persist: "apply_update_inner X T u w = (r, w') \<Longrightarrow> wallet_step X T U w w'"
| step_transaction: "apply_transaction_inner X T U tx skip_persist w = (b, w') \<Longrightarrow> wallet_step X T U w w'"
| step_reunblind: "reunblind X T w = (ops, w') \<Longrightarrow> wallet_step X T U w w'"

text \<open>The same wallet at a later time.\<close>

definition later :: "('k, 'd, 's, 'u) Wollet \<Rightarrow> ('k, 'd, 's, 'u) Wollet \<Rightarrow> bool" where
  "later w w' \<longleftrightarrow> w_network w' = w_network w \<and> w_descriptor w' = w_descriptor w \<and> w_utxo_only w' = w_utxo_only w \<and>
     w_max_weight w' = w_max_weight w \<and> grows (w_cache w) (w_cache w')"

lemma later_refl: "later w w"
  by (simp add: later_def grows_refl)

lemma later_trans: "later a b \<Longrightarrow> later b c \<Longrightarrow> later a c"
  unfolding later_def by (metis grows_trans)

lemma later_inner: "apply_update_inner X T u w = (r, w') \<Longrightarrow> later w w'"
  using apply_update_inner_frame [of X T u w r w'] by (auto simp: later_def)

lemma later_persist: "persist_update X T U u w = (r, w') \<Longrightarrow> later w w'"
  by (auto simp: persist_update_def later_def grows_refl split: prod.splits)

lemma later_update: "apply_update X T U u w = (r, w') \<Longrightarrow> later w w'"
proof -
  assume a: "apply_update X T U u w = (r, w')"
  obtain r1 w1 where w1: "apply_update_inner X T u w = (r1, w1)" by fastforce
  with a show ?thesis
    using later_inner [OF w1] later_persist [of X T U u w1] later_trans
    by (cases r1) (auto simp: apply_update_def)
qed

lemma later_transaction: "apply_transaction_inner X T U tx skip_persist w = (r, w') \<Longrightarrow> later w w'"
proof -
  assume a: "apply_transaction_inner X T U tx skip_persist w = (r, w')"
  let ?u = "tx_update X w tx"
  show ?thesis
  proof (cases "balance w")
    case (Inr initial)
    obtain r1 w1 where w1: "apply_update_inner X T ?u w = (r1, w1)" by fastforce
    obtain r2 w2 where w2: "(if skip_persist then (Inr (), w1) else persist_update X T U ?u w1) = (r2, w2)" by fastforce
    have "later w1 w2" using w2 later_persist [of X T U ?u w1] by (auto simp: later_refl split: if_splits)
    moreover have "w' = w1 \<or> w' = w2"
      using a Inr w1 w2 by (cases r1; cases r2) (auto simp: apply_transaction_inner_def Let_def)
    ultimately show ?thesis using later_inner [OF w1] later_trans by blast
  qed (use a in \<open>simp add: apply_transaction_inner_def later_refl\<close>)
qed

lemma later_reunblind: "reunblind X T w = (ops, w') \<Longrightarrow> later w w'"
  by (auto simp: reunblind_def Let_def later_def extend_unblinded_grows)

lemma wallet_step_later: "wallet_step X T U w w' \<Longrightarrow> later w w'"
  by (cases rule: wallet_step.cases)
    (auto dest: later_update later_inner later_transaction later_reunblind)

lemma wallet_steps_later: "(wallet_step X T U)\<^sup>*\<^sup>* w w' \<Longrightarrow> later w w'"
  by (induction rule: rtranclp_induct) (auto intro: later_refl later_trans wallet_step_later)

lemma later_restore:
  assumes "restore_from X T U i w = Some y"
  shows "later w (snd y)"
  using assms
proof (rule restore_from.raw_induct [rotated, of X T U i w y], goal_cases)
  case (1 f X T U i w y)
  note IH = 1(1) and y = 1(2)
  show ?case
  proof (cases "get_update (cx_env X) (cx_sha256d X) U (w_persister w) i")
    case (Inr v)
    show ?thesis
    proof (cases v)
      case (Some u)
      obtain r1 w1 where w1: "apply_update_inner X T u w = (r1, w1)" by fastforce
      with y Inr Some IH [of X T U "Suc i" w1 y] later_inner [OF w1] later_trans [of w w1] show ?thesis
        by (cases r1) auto
    qed (use y Inr in \<open>auto simp: later_def grows_refl split: prod.splits sum.splits\<close>)
  qed (use y in \<open>auto simp: later_refl\<close>)
qed

lemma build_InrE:
  assumes "build X T U b = Some (Inr w)"
  obtains w0 w1 where "unrestored X b = Inr w0" "restore_updates X T U w0 = Some (Inr (), w1)"
    "w = w1\<lparr>w_cache := add_txids_from_txs_store T (cx_json X) (w_cache w1)\<rparr>"
proof -
  obtain w0 where w0: "unrestored X b = Inr w0"
    using assms by (cases "unrestored X b") (auto simp: build_def split: if_splits)
  then obtain r w1 where r: "restore_updates X T U w0 = Some (r, w1)"
    "(case r of Inl e \<Rightarrow> Inl e | Inr _ \<Rightarrow> Inr (w1\<lparr>w_cache := add_txids_from_txs_store T (cx_json X) (w_cache w1)\<rparr>)) = Inr w"
    using assms by (auto simp: build_def split: if_splits)
  then show thesis using that w0 by (cases r) simp_all
qed

lemma built_cache_ok:
  assumes "build X T U b = Some (Inr w)"
  shows "cache_ok (w_cache w)"
proof -
  obtain w0 w1 where w0: "unrestored X b = Inr w0" "restore_updates X T U w0 = Some (Inr (), w1)"
    "w = w1\<lparr>w_cache := add_txids_from_txs_store T (cx_json X) (w_cache w1)\<rparr>"
    using assms by (rule build_InrE)
  have "cache_ok (w_cache w0)" using w0(1) by (auto simp: unrestored_def rbind_eq_Inr Cache_new_ok)
  moreover have "later w0 w1" using w0(2) later_restore by (fastforce simp: restore_updates_def)
  ultimately have ok: "cache_ok (w_cache w1)" by (simp add: later_def grows_def)
  have "distinct (fold List.insert ts ids)" if "distinct ids" for ts ids :: "Txid list"
    using that by (induction ts arbitrary: ids) auto
  with ok show ?thesis by (simp add: w0(3) cache_ok_def add_txids_from_txs_store_def Let_def)
qed

text \<open>C1. Whatever sequence of operations is applied to a built wallet, with whatever outcomes, the cache stays
  well formed (its maps have one entry per key, and the list of transaction ids is the list of the
  wallet's transactions by descending height, unconfirmed first), the wallet keeps its network,
  descriptor and mode, and the unused indexes, stored transactions, opened outputs and scripts
  never shrink: an index that was given out as used is never offered as unused again.\<close>

theorem wallet_invariant:
  assumes "build X T U b = Some (Inr w)" "(wallet_step X T U)\<^sup>*\<^sup>* w w1" "(wallet_step X T U)\<^sup>*\<^sup>* w1 w2"
  shows "cache_ok (w_cache w2) \<and> later w1 w2"
proof -
  have "cache_ok (w_cache w)" "later w w2" "later w1 w2"
    using built_cache_ok [OF assms(1)] wallet_steps_later [OF rtranclp_trans [OF assms(2,3)]]
      wallet_steps_later [OF assms(3)] by simp_all
  then show ?thesis by (simp add: later_def grows_def)
qed

section \<open>A sample wallet\<close>

text \<open>Concrete functions for the parameters: JSON text is each string with a closing zero byte, the double hash is
  the identity, and confidential outputs cannot be opened.\<close>

fun sample_json :: "string list \<Rightarrow> bytes" where
  "sample_json [] = []"
| "sample_json (s # ss) = map byte_of_char s @ 0 # sample_json ss"

fun sample_unjson :: "string \<Rightarrow> bytes \<Rightarrow> string list option" where
  "sample_unjson acc [] = (if acc = [] then Some [] else None)"
| "sample_unjson acc (b # bs) =
     (if b = 0 then map_option (Cons (rev acc)) (sample_unjson [] bs)
      else sample_unjson (char_of (unat b) # acc) bs)"

lemma sample_unjson_char: "char_of (unat (byte_of_char c)) = c" "(of_char c :: nat) \<noteq> 0 \<Longrightarrow> byte_of_char c \<noteq> 0"
proof -
  have c: "(of_char c :: nat) < 256" by (simp add: of_char_def)
  then have "unat (byte_of_char c) = of_char c" by (simp add: byte_of_char_def unat_of_nat)
  then show "char_of (unat (byte_of_char c)) = c" "(of_char c :: nat) \<noteq> 0 \<Longrightarrow> byte_of_char c \<noteq> 0" by auto
qed

lemma sample_unjson_json:
  "list_all (list_all (\<lambda>c. (of_char c :: nat) \<noteq> 0)) ss \<Longrightarrow> sample_unjson [] (sample_json ss) = Some ss"
proof (induction ss)
  case (Cons s ss)
  have "list_all (\<lambda>c. (of_char c :: nat) \<noteq> 0) s \<Longrightarrow>
      sample_unjson acc (map byte_of_char s @ 0 # bs) = map_option (Cons (rev acc @ s)) (sample_unjson [] bs)" for acc bs
    by (induction s arbitrary: acc) (simp_all add: sample_unjson_char)
  with Cons show ?case by simp
qed simp

definition sample_ctx :: "(unit, nat, nat \<times> u32) wctx" where
  "sample_ctx = \<lparr>cx_env = sample_env, cx_ms = sample_ms, cx_secp = sample_secp,
     cx_json = \<lparr>js_to_vec = sample_json, js_from_slice = sample_unjson []\<rparr>, cx_sha256d = id,
     cx_hasher = (\<lambda>_. 99), cx_unblind = (\<lambda>_ _. Inl ''no opening''), cx_max_weight = (\<lambda>_. Inr 108)\<rparr>"

type_synonym memory = "string \<Rightarrow> bytes option"

definition sample_builder :: "(unit, nat, memory, memory) WolletBuilder" where
  "sample_builder = WolletBuilder_new Liquid sample_wd Map.empty Map.empty"

definition sample_wollet :: "(unit, nat, memory, memory) Wollet" where
  "sample_wollet = \<lparr>w_network = Liquid, w_cache = Cache_new Map.empty, w_descriptor = sample_wd,
     w_persister = UpdatesPersister_new Map.empty None, w_max_weight = 108, w_utxo_only = False\<rparr>"

lemma sample_unrestored: "unrestored sample_ctx sample_builder = Inr sample_wollet"
  by (simp add: unrestored_def sample_builder_def WolletBuilder_new_def sample_wollet_def sample_ctx_def
      definite_descriptor_def inner_descriptor_if_available_def wd_descriptor_def sample_wd_def sample_ms_def)

lemma sample_build: "build sample_ctx MemoryStore MemoryStore sample_builder = Some (Inr sample_wollet)"
proof -
  have "get_update (cx_env sample_ctx) (cx_sha256d sample_ctx) MemoryStore (w_persister sample_wollet) 0 = Inr None"
    by (simp add: get_update_def sample_wollet_def UpdatesPersister_new_def MemoryStore_def memory_get_def)
  then have "restore_updates sample_ctx MemoryStore MemoryStore sample_wollet = Some (Inr (), sample_wollet)"
    by (simp add: restore_updates_def restore_from.simps merge_updates_def)
      (simp add: sample_wollet_def UpdatesPersister_new_def)
  moreover have "add_txids_from_txs_store MemoryStore (cx_json sample_ctx) (w_cache sample_wollet) = w_cache sample_wollet"
    by (simp add: add_txids_from_txs_store_def sample_wollet_def Cache_new_def MemoryStore_def memory_get_def
        List.map_filter_def)
  ultimately show ?thesis
    by (simp add: build_def sample_unrestored MemoryStore_def)
qed

theorem wallet_invariant_witness:
  "\<exists>w. wallet_step sample_ctx MemoryStore MemoryStore sample_wollet w \<and> cache_ok (w_cache w) \<and> later sample_wollet w"
proof -
  obtain r w where w: "apply_update sample_ctx MemoryStore MemoryStore sample_update sample_wollet = (r, w)" by fastforce
  then have "wallet_step sample_ctx MemoryStore MemoryStore sample_wollet w" by (rule step_update)
  then show ?thesis using wallet_invariant [OF sample_build, of sample_wollet w] by blast
qed



end
