(* ===== verification/Restart.thy ===== *)
theory Restart
  imports ApplyUpdate
begin

text \<open>
  Building a wallet again from what it has persisted: without merging, the replay of the stored
  updates rebuilds exactly the wallet that was running, also after updates that only moved the tip
  were coalesced, and the conditions under which it does.
\<close>

section \<open>Replaying updates\<close>

fun apply_all :: "('k, 'd, 'x) wctx \<Rightarrow> 's DynStore \<Rightarrow> Update list \<Rightarrow> ('k, 'd, 's, 'u) Wollet \<Rightarrow> ('k, 'd, 's, 'u) Wollet option" where
  "apply_all X T [] w = Some w"
| "apply_all X T (u # us) w =
     (case apply_update_inner X T u w of (Inr _, w') \<Rightarrow> apply_all X T us w' | (Inl _, _) \<Rightarrow> None)"

lemma apply_all_append:
  "apply_all X T (us @ vs) w = Option.bind (apply_all X T us w) (apply_all X T vs)"
  by (induction us arbitrary: w) (auto split: prod.splits sum.splits)

lemma apply_all_single: "apply_all X T [u] w = Some w' \<longleftrightarrow> apply_update_inner X T u w = (Inr (), w')"
  by (cases "apply_update_inner X T u w"; cases "fst (apply_update_inner X T u w)") auto

text \<open>Applying an update in memory does not look at the persister.\<close>

lemma inner_other_persister:
  "apply_update_inner X T u (w\<lparr>w_persister := p\<rparr>) =
     (fst (apply_update_inner X T u w), (snd (apply_update_inner X T u w))\<lparr>w_persister := p\<rparr>)"
  by (simp add: apply_update_inner_def status_def split: sum.splits prod.splits)

lemma inner_keeps_persister: "apply_update_inner X T u w = (r, w') \<Longrightarrow> w' = w\<lparr>w_cache := w_cache w'\<rparr>"
  using apply_update_inner_frame [of X T u w r w'] by auto

lemma restore_from_stored:
  assumes "stored (cx_env X) (cx_sha256d X) U (w_persister w) us" "merge_threshold (w_persister w) = None"
    and "apply_all X T (drop i us) w = Some w'" "i \<le> length us"
  shows "restore_from X T U i w = Some (Inr (), w'\<lparr>w_persister := (w_persister w)\<lparr>next_update_index := length us\<rparr>\<rparr>)"
  using assms
proof (induction "length us - i" arbitrary: i w)
  case 0
  then have "i = length us" by simp
  with 0 show ?case
    by (subst restore_from.simps) (simp add: stored_def merge_updates_def)
next
  case (Suc n)
  then have i: "i < length us" by simp
  then obtain w1 where w1: "apply_update_inner X T (us ! i) w = (Inr (), w1)"
    "apply_all X T (drop (Suc i) us) w1 = Some w'"
    using Suc.prems(3) by (auto simp: Cons_nth_drop_Suc [symmetric] split: prod.splits sum.splits)
  have p1: "w_persister w1 = w_persister w" using inner_keeps_persister [OF w1(1)] by (cases w; cases w1) simp
  have "restore_from X T U (Suc i) w1 = Some (Inr (), w'\<lparr>w_persister := (w_persister w)\<lparr>next_update_index := length us\<rparr>\<rparr>)"
    using Suc.hyps(1) [of "Suc i" w1] Suc.hyps(2) Suc.prems(1,2) w1(2) i p1 by simp
  moreover have "get_update (cx_env X) (cx_sha256d X) U (w_persister w) i = Inr (Some (us ! i))"
    using Suc.prems(1) i by (simp add: stored_def)
  ultimately show ?case using w1(1) by (subst restore_from.simps) simp
qed

section \<open>Updates that only move the tip\<close>

text \<open>What such an update does to the cache.\<close>

definition settle :: "bool \<Rightarrow> 's Cache \<Rightarrow> 's Cache" where
  "settle utxo_only c = (let c = rebuild_sorted_txids c in if utxo_only then c\<lparr>unspent := []\<rparr> else c)"

lemma cache_update_nothing: "cache_update E T J [] [] [] utxo_only [] c = (Inr (), settle utxo_only c)"
proof -
  have h: "update_heights [] [] c = c" by (simp add: update_heights_def hm_retain_def)
  have u: "update_unspent E T [] [] [] d = d" for d :: "'a Cache"
    by (simp add: update_unspent_def Let_def outputs_new_def inputs_new_def inputs_to_restore_def hm_retain_def
        List.map_filter_def)
  show ?thesis
    by (simp add: cache_update_def extend_all_txs_def settle_def Let_def h u update_unspent_utxos_only_def
        List.map_filter_def)
qed

definition after_tip :: "bool \<Rightarrow> Update \<Rightarrow> 's Cache \<Rightarrow> 's Cache" where
  "after_tip utxo_only u c = (settle utxo_only c)
     \<lparr>timestamps := hm_extend (timestamps c) (upd_timestamps u),
      last_unused_external := max (last_unused_external c) (lu_external (upd_last_unused u)),
      last_unused_internal := max (last_unused_internal c) (lu_internal (upd_last_unused u))\<rparr>"

lemma after_tip_tip: "cache_tip (after_tip utxo_only u c) = cache_tip c"
  by (simp add: after_tip_def settle_def rebuild_sorted_txids_def Let_def)

lemma apply_only_tip:
  assumes "only_tip u" "4 \<le> upd_version u"
  shows "apply_to_cache X T utxo_only u [] c = (Inr (), after_tip utxo_only u c)"
proof -
  have parts: "dl_txs (new_txs u) = []" "dl_unblinds (new_txs u) = []" "txid_height_new u = []"
    "txid_height_delete u = []" "upd_unspent u = []"
    using assms(1) by (simp_all add: only_tip_def DownloadTxResult_is_empty_def)
  have c: "add_scripts [] (extend_unblinded [] c) = c" by (simp add: add_scripts_def extend_unblinded_def)
  show ?thesis
    using assms(2)
    by (simp add: apply_to_cache_def parts c cache_update_nothing raise_last_unused_def after_tip_def)
      (simp add: settle_def rebuild_sorted_txids_def Let_def)
qed

lemma move_tip_Inr:
  "move_tip h tip c = Inr d \<longleftrightarrow>
     (if tip = default_blockheader then d = c
      else unat (bh_height tip) + 1 < 2 ^ 32 \<and> unat (fst (cache_tip c)) \<le> unat (bh_height tip) + 1 \<and>
        (\<exists>hash. block_hash h tip = Inr hash \<and> d = c\<lparr>cache_tip := (bh_height tip, hash)\<rparr>))"
proof (cases "tip = default_blockheader")
  case True
  then show ?thesis by (auto simp: move_tip_def)
next
  case False
  show ?thesis
  proof (cases "unat (bh_height tip) + 1 < 2 ^ 32")
    case True
    then have "bh_height tip + 1 < fst (cache_tip c) \<longleftrightarrow> \<not> unat (fst (cache_tip c)) \<le> unat (bh_height tip) + 1"
      by (simp add: word_less_nat_alt unat_plus_simple not_le)
    with True False show ?thesis by (auto simp: move_tip_def checked_plus_def rbind_eq_Inr)
  qed (use False in \<open>auto simp: move_tip_def checked_plus_def rbind_eq_Inr\<close>)
qed

lemma apply_inner_only_tip:
  assumes "only_tip u" "4 \<le> upd_version u"
  shows "apply_update_inner X T u w = (Inr (), w') \<longleftrightarrow>
    (wollet_status u = 0 \<or> status X w = wollet_status u) \<and>
    (\<exists>c. move_tip (cx_sha256d X) (upd_tip u) (w_cache w) = Inr c \<and> w' = w\<lparr>w_cache := after_tip (w_utxo_only w) u c\<rparr>)"
proof -
  have "compute_blinding_pubkey_if_missing X (w_descriptor w) (scripts_with_blinding_pubkey u) = Inr []"
    using assms(1) by (simp add: only_tip_def compute_blinding_pubkey_if_missing_def)
  then show ?thesis
    by (auto simp: apply_update_inner_def apply_only_tip [OF assms] split: sum.splits)
qed

text \<open>Applying the coalesced update is applying one after the other, provided the second does not lower the tip
  or the unused indexes.\<close>

lemma coalesce_apply:
  assumes tips: "only_tip prev" "4 \<le> upd_version prev" "only_tip u" "4 \<le> upd_version u"
    and prev: "apply_update_inner X T prev wa = (Inr (), wb)" and u: "apply_update_inner X T u wb = (Inr (), wc)"
    and tip: "upd_tip u \<noteq> default_blockheader" "fst (cache_tip (w_cache wb)) \<le> bh_height (upd_tip u)"
    and unused: "last_unused_external (w_cache wb) \<le> lu_external (upd_last_unused u)"
      "last_unused_internal (w_cache wb) \<le> lu_internal (upd_last_unused u)"
  shows "apply_update_inner X T (coalesce prev u) wa = (Inr (), wc)"
proof -
  obtain ca where ca: "wollet_status prev = 0 \<or> status X wa = wollet_status prev"
    "move_tip (cx_sha256d X) (upd_tip prev) (w_cache wa) = Inr ca"
    "wb = wa\<lparr>w_cache := after_tip (w_utxo_only wa) prev ca\<rparr>"
    using prev apply_inner_only_tip [OF tips(1,2)] by blast
  obtain cb where cb: "move_tip (cx_sha256d X) (upd_tip u) (w_cache wb) = Inr cb"
    "wc = wb\<lparr>w_cache := after_tip (w_utxo_only wb) u cb\<rparr>"
    using u apply_inner_only_tip [OF tips(3,4)] by blast
  obtain hash where hash: "block_hash (cx_sha256d X) (upd_tip u) = Inr hash" "unat (bh_height (upd_tip u)) + 1 < 2 ^ 32"
    "cb = (w_cache wb)\<lparr>cache_tip := (bh_height (upd_tip u), hash)\<rparr>"
    using cb(1) tip(1) by (auto simp: move_tip_Inr)
  have "unat (fst (cache_tip (w_cache wa))) \<le> unat (bh_height (upd_tip u)) + 1"
  proof (cases "upd_tip prev = default_blockheader")
    case True
    then have "ca = w_cache wa" using ca(2) by (simp add: move_tip_Inr)
    with tip(2) show ?thesis by (simp add: ca(3) after_tip_tip word_le_nat_alt)
  next
    case False
    then have "unat (fst (cache_tip (w_cache wa))) \<le> unat (bh_height (upd_tip prev)) + 1"
      "fst (cache_tip ca) = bh_height (upd_tip prev)" using ca(2) by (auto simp: move_tip_Inr)
    with tip(2) show ?thesis by (simp add: ca(3) after_tip_tip word_le_nat_alt)
  qed
  then have moved: "move_tip (cx_sha256d X) (upd_tip u) (w_cache wa) =
      Inr ((w_cache wa)\<lparr>cache_tip := (bh_height (upd_tip u), hash)\<rparr>)"
    using tip(1) hash by (simp add: move_tip_Inr)
  obtain t where t: "ca = (w_cache wa)\<lparr>cache_tip := t\<rparr>"
    using ca(2) that [of "cache_tip (w_cache wa)"] by (auto simp: move_tip_Inr split: if_splits)
  have "after_tip (w_utxo_only wa) (coalesce prev u) ((w_cache wa)\<lparr>cache_tip := (bh_height (upd_tip u), hash)\<rparr>) =
      after_tip (w_utxo_only wb) u cb"
    using unused
    by (simp add: ca(3) t hash(3) after_tip_def settle_def rebuild_sorted_txids_def Let_def coalesce_def hm_extend_append
        max_absorb2)
  then show ?thesis
    using moved ca(1,3) cb(2) tips apply_inner_only_tip [of "coalesce prev u" X T wa wc]
    by (simp add: coalesce_def only_tip_def)
qed

section \<open>The ids of the stored transactions\<close>

definition json_ok :: "json_strings \<Rightarrow> bool" where
  "json_ok J \<longleftrightarrow> (\<forall>ids :: Txid list. js_from_slice J (js_to_vec J (map txid_display ids)) = Some (map txid_display ids))"

text \<open>The ids in the store of the transactions are ids that the cache has.\<close>

definition ids_ok :: "'s DynStore \<Rightarrow> json_strings \<Rightarrow> 's Cache \<Rightarrow> bool" where
  "ids_ok T J c \<longleftrightarrow> add_txids_from_txs_store T J c = c \<and> (\<forall>t \<in> set (cache_txids c). length t = 32)"

lemma txid_parse_display: "length t = 32 \<Longrightarrow> txid_parse (txid_display t) = Some t"
proof -
  assume t: "length t = 32"
  have "length (hex_items (to_lower_hex bs)) = length bs" for bs by (induction bs) simp_all
  with t from_hex_printed [of "rev t"] show ?thesis
    by (simp add: txid_parse_def txid_display_def from_hex_array_def from_hex_def HexIterator_new_def)
qed

lemma ids_ok_cong:
  "ids_ok T J c \<Longrightarrow> txs_store d = txs_store c \<Longrightarrow> cache_txids d = cache_txids c \<Longrightarrow> ids_ok T J d"
  by (cases c; cases d) (simp add: ids_ok_def add_txids_from_txs_store_def Let_def)

lemma inner_extends_store:
  assumes "apply_update_inner X T u w = (Inr (), w')"
  shows "\<exists>c d. extend_all_txs T (cx_json X) (dl_txs (new_txs u)) c = (Inr (), d) \<and>
    txs_store c = txs_store (w_cache w) \<and> cache_txids c = cache_txids (w_cache w) \<and>
    txs_store (w_cache w') = txs_store d \<and> cache_txids (w_cache w') = cache_txids d"
proof -
  obtain entries c1 c2 where c: "move_tip (cx_sha256d X) (upd_tip u) (w_cache w) = Inr c1"
    "apply_to_cache X T (w_utxo_only w) u entries c1 = (Inr (), c2)" "w' = w\<lparr>w_cache := c2\<rparr>"
    using assms by (auto simp: apply_update_inner_def split: if_splits sum.splits prod.splits)
  let ?c = "add_scripts entries (extend_unblinded (dl_unblinds (new_txs u)) c1)"
  obtain d where d: "extend_all_txs T (cx_json X) (dl_txs (new_txs u)) ?c = (Inr (), d)"
    "txs_store c2 = txs_store d \<and> cache_txids c2 = cache_txids d"
    using c(2) by (auto simp: apply_to_cache_def cache_update_def mbind_eq_Inr Let_def raise_last_unused_def
        update_unspent_utxos_only_def update_unspent_def rebuild_sorted_txids_def update_heights_def)
  moreover have "txs_store ?c = txs_store (w_cache w)" "cache_txids ?c = cache_txids (w_cache w)"
    using c(1) by (auto simp: move_tip_Inr add_scripts_def extend_unblinded_def split: if_splits)
  ultimately show ?thesis using c(3) by auto
qed

lemma fold_insert_present: "set xs \<subseteq> set ys \<Longrightarrow> fold List.insert xs ys = ys"
  by (induction xs) simp_all

lemma set_fold_insert: "set (fold List.insert xs ys) = set xs \<union> set ys"
  by (induction xs arbitrary: ys) auto

context dyn_store
begin

lemma extend_all_txs_ids_ok:
  assumes store: "inv (txs_store c)" "\<And>t. good (tx_key t)" "good TXIDS_KEY"
    and J: "json_ok J" and ids: "ids_ok D J c" "\<forall>(t, tx) \<in> set txs. length t = 32"
    and d: "extend_all_txs D J txs c = (Inr (), d)"
  shows "inv (txs_store d) \<and> ids_ok D J d"
proof (cases "txs = []")
  case True
  with d store ids show ?thesis by (simp add: extend_all_txs_def)
next
  case False
  obtain d' where d': "extend_all_txs D J txs c = (Inr (), d')" "inv (txs_store d')"
    "cache_txids d' = fold List.insert (map fst txs) (cache_txids c)"
    "contents (txs_store d') TXIDS_KEY = Some (js_to_vec J (map txid_display (cache_txids d')))"
    using extend_all_txs_contents [OF store, of J txs] False by blast
  with d have d_eq: "d' = d" by simp
  have len: "\<forall>t \<in> set (cache_txids d). length t = 32"
    using ids d'(3) by (auto simp: d_eq set_fold_insert ids_ok_def)
  then have "List.map_filter txid_parse (map txid_display (cache_txids d)) = cache_txids d"
    by (induction "cache_txids d") (auto simp: List.map_filter_def comp_def txid_parse_display map_idI)
  moreover have "dyn_get D (txs_store d) TXIDS_KEY = Inr (Some (js_to_vec J (map txid_display (cache_txids d))))"
    using get_contents [OF d'(2) store(3)] d'(4) by (simp add: d_eq)
  ultimately show ?thesis
    using J len d'(2) by (simp add: ids_ok_def add_txids_from_txs_store_def json_ok_def fold_insert_present d_eq)
qed

lemma inner_ids_ok:
  assumes store: "inv (txs_store (w_cache w))" "\<And>t. good (tx_key t)" "good TXIDS_KEY"
    and J: "json_ok (cx_json X)" and ids: "ids_ok D (cx_json X) (w_cache w)"
    and wf: "wf_Update (cx_env X) (cx_sha256d X) u" and hash: "\<And>b. length (cx_sha256d X b) = 32"
    and w': "apply_update_inner X D u w = (Inr (), w')"
  shows "inv (txs_store (w_cache w')) \<and> ids_ok D (cx_json X) (w_cache w')"
proof -
  obtain c d where c: "extend_all_txs D (cx_json X) (dl_txs (new_txs u)) c = (Inr (), d)"
    "txs_store c = txs_store (w_cache w)" "cache_txids c = cache_txids (w_cache w)"
    "txs_store (w_cache w') = txs_store d" "cache_txids (w_cache w') = cache_txids d"
    using inner_extends_store [OF w'] by blast
  have "\<forall>(t, tx) \<in> set (dl_txs (new_txs u)). length t = 32"
  proof -
    have "list_all (wf_tx_entry (cx_env X) (cx_sha256d X)) (dl_txs (new_txs u))"
      using wf by (simp add: wf_Update_def wf_DownloadTxResult_def wf_counted_def)
    then show ?thesis by (auto simp: list_all_iff wf_tx_entry_def txid_def hash)
  qed
  then have "inv (txs_store d) \<and> ids_ok D (cx_json X) d"
    using extend_all_txs_ids_ok [OF _ store(2,3) J _ _ c(1)] store(1) c(2) ids_ok_cong [OF ids c(2,3)] by simp
  then show ?thesis using c(4,5) ids_ok_cong [of D "cx_json X" d] by simp
qed

end

section \<open>A wallet and its replay\<close>

text \<open>The updates that a scan makes: of the current version, serializable, also once coalesced with the last stored one, and
  an update that only moves the tip lowers neither the tip nor the unused indexes.\<close>

definition follows ::
    "('k, 'd, 'x) wctx \<Rightarrow> Update list \<Rightarrow> ('k, 'd, 's, 'u) Wollet \<Rightarrow> Update \<Rightarrow> bool" where
  "follows X us w u \<longleftrightarrow> upd_version u = 4 \<and> wf_Update (cx_env X) (cx_sha256d X) u \<and>
     list_all (wf_Update (cx_env X) (cx_sha256d X)) (persist_spec None False us u) \<and>
     (only_tip u \<longrightarrow> upd_tip u \<noteq> default_blockheader \<and> fst (cache_tip (w_cache w)) \<le> bh_height (upd_tip u) \<and>
        last_unused_external (w_cache w) \<le> lu_external (upd_last_unused u) \<and>
        last_unused_internal (w_cache w) \<le> lu_internal (upd_last_unused u))"

text \<open>A wallet built on empty stores to which a sequence of such updates was applied, with what it has stored.\<close>

inductive scanned ::
    "('k, 'd, 'x) wctx \<Rightarrow> 's DynStore \<Rightarrow> 'u DynStore \<Rightarrow> ('k, 'd, 's, 'u) WolletBuilder \<Rightarrow> Update list \<Rightarrow>
      ('k, 'd, 's, 'u) Wollet \<Rightarrow> bool" for X T U b where
  scanned_new: "build X T U b = Some (Inr w) \<Longrightarrow> scanned X T U b [] w"
| scanned_update: "scanned X T U b us w \<Longrightarrow> follows X us w u \<Longrightarrow> apply_update X T U u w = (Inr (), w') \<Longrightarrow>
    scanned X T U b (persist_spec None False us u) w'"

definition fresh_start ::
    "('k, 'd, 'x) wctx \<Rightarrow> 's DynStore \<Rightarrow> 'u DynStore \<Rightarrow> ('k, 'd, 's, 'u) WolletBuilder \<Rightarrow> bool" where
  "fresh_start X T U b \<longleftrightarrow> \<not> dyn_is_persisted T \<and> wb_merge_threshold b = None \<and>
     dyn_get T (wb_txs_store b) TXIDS_KEY = Inr None \<and>
     stored (cx_env X) (cx_sha256d X) U (UpdatesPersister_new (wb_updates_store b) None) []"

text \<open>The state of a wallet and of its stores, seen from the replay of what is stored.\<close>

definition replays ::
    "('k, 'd, 'x) wctx \<Rightarrow> 's DynStore \<Rightarrow> 'u DynStore \<Rightarrow> ('k, 'd, 's, 'u) Wollet \<Rightarrow> Update list \<Rightarrow>
      ('k, 'd, 's, 'u) Wollet \<Rightarrow> bool" where
  "replays X T U w0 us w \<longleftrightarrow>
     w = w0\<lparr>w_cache := w_cache w, w_persister := w_persister w\<rparr> \<and>
     stored (cx_env X) (cx_sha256d X) U (w_persister w) us \<and>
     w_persister w = \<lparr>updates_store = updates_store (w_persister w), merge_threshold = None, next_update_index = length us\<rparr> \<and>
     ids_ok T (cx_json X) (w_cache w) \<and> list_all (\<lambda>u. upd_version u = 4) us \<and>
     apply_all X T us w0 = Some (w0\<lparr>w_cache := w_cache w\<rparr>)"

lemma replays_new:
  assumes "fresh_start X T U b" "unrestored X b = Inr w0" "build X T U b = Some (Inr w)"
  shows "w = w0" "replays X T U w0 [] w"
proof -
  have w0: "w_persister w0 = UpdatesPersister_new (wb_updates_store b) None" "w_cache w0 = Cache_new (wb_txs_store b)"
    using assms(1,2) by (auto simp: unrestored_def rbind_eq_Inr fresh_start_def)
  have "w0\<lparr>w_persister := (w_persister w0)\<lparr>next_update_index := 0\<rparr>\<rparr> = w0"
    using w0(1) by (cases w0) (simp add: UpdatesPersister_new_def)
  then have r: "restore_updates X T U w0 = Some (Inr (), w0)"
    using restore_from_stored [of X U w0 "[]" T 0 w0] assms(1)
    by (simp add: restore_updates_def w0(1) fresh_start_def) (simp add: UpdatesPersister_new_def)
  have ids: "add_txids_from_txs_store T (cx_json X) (w_cache w0) = w_cache w0"
    using assms(1) by (simp add: w0 add_txids_from_txs_store_def fresh_start_def Cache_new_def List.map_filter_def)
  show w: "w = w0" using assms(3) by (rule build_InrE) (use assms(2) r ids in auto)
  show "replays X T U w0 [] w"
    using assms(1) ids by (simp add: replays_def w w0 fresh_start_def ids_ok_def UpdatesPersister_new_def)
      (simp add: Cache_new_def)
qed

lemma apply_all_persist_spec:
  assumes us: "apply_all X T us w0 = Some wr" "list_all (\<lambda>u. upd_version u = 4) us"
    and u: "follows X us wr u" "apply_update_inner X T u wr = (Inr (), w')"
  shows "apply_all X T (persist_spec None False us u) w0 = Some w' \<and>
    list_all (\<lambda>u. upd_version u = 4) (persist_spec None False us u)"
proof (cases "only_tip u \<and> us \<noteq> [] \<and> only_tip (last us)")
  case False
  then have "persist_spec None False us u = us @ [u]"
    by (auto simp: persist_spec_def merge_spec_def without_txs_def)
  with us u show ?thesis by (simp add: apply_all_append follows_def)
next
  case True
  then obtain vs prev where vs: "us = vs @ [prev]" "only_tip prev" by (cases us rule: rev_cases) auto
  then obtain wa where wa: "apply_all X T vs w0 = Some wa" "apply_update_inner X T prev wa = (Inr (), wr)"
    using us(1) unfolding vs(1) apply_all_append bind_eq_Some_conv apply_all_single by blast
  have "apply_update_inner X T (coalesce prev u) wa = (Inr (), w')"
    using True vs us(2) u by (intro coalesce_apply [OF _ _ _ _ wa(2) u(2)]) (simp_all add: follows_def)
  moreover have "persist_spec None False us u = vs @ [coalesce prev u]"
    using True vs by (simp add: persist_spec_def)
  ultimately show ?thesis using wa(1) vs us(2) u(1) by (simp add: apply_all_append follows_def coalesce_def)
qed

lemma replays_update:
  assumes T: "dyn_store T okT goodT" "\<And>t. goodT (tx_key t)" "goodT TXIDS_KEY" "\<not> dyn_is_persisted T"
    and U: "dyn_store U okU goodU" "\<And>i. goodU (update_key i)"
    and X: "json_ok (cx_json X)" "\<And>b. length (cx_sha256d X b) = 32"
    and w: "replays X T U w0 us w" "okT (txs_store (w_cache w))" "okU (updates_store (w_persister w))"
    and u: "follows X us w u" "apply_update X T U u w = (Inr (), w')"
  shows "replays X T U w0 (persist_spec None False us u) w' \<and> okT (txs_store (w_cache w')) \<and>
    okU (updates_store (w_persister w'))"
proof -
  define us' where "us' = persist_spec None False us u"
  define wr where "wr = w0\<lparr>w_cache := w_cache w\<rparr>"
  note r = w(1) [unfolded replays_def]
  have w_wr: "w = wr\<lparr>w_persister := w_persister w\<rparr>" "w_cache wr = w_cache w" using r by (simp_all add: wr_def)
  obtain w1 where w1: "apply_update_inner X T u w = (Inr (), w1)" "persist_update X T U u w1 = (Inr (), w')"
    using u(2) by (auto simp: apply_update_def mbind_eq_Inr)
  define c where "c = w_cache w1"
  have w1_w: "w1 = w\<lparr>w_cache := c\<rparr>" using inner_keeps_persister [OF w1(1)] by (simp add: c_def)
  have ids: "okT (txs_store c) \<and> ids_ok T (cx_json X) c"
    using dyn_store.inner_ids_ok [OF T(1) w(2) T(2,3) X(1) _ _ X(2) w1(1)] r u(1) by (simp add: follows_def c_def)
  have wf: "wf_Update (cx_env X) (cx_sha256d X) (without_txs False u)"
    "list_all (wf_Update (cx_env X) (cx_sha256d X)) (persist_spec (merge_threshold (w_persister w)) False us u)"
    using u(1) r by (simp_all add: follows_def without_txs_def) (metis UpdatesPersister.select_convs(2))
  have p: "merge_threshold (w_persister w) = None" "next_update_index (w_persister w) = length us"
    using r by (metis UpdatesPersister.select_convs(2), metis UpdatesPersister.select_convs(3))
  obtain p' where p': "persist (cx_env X) (cx_sha256d X) U u False (w_persister w) = (Inr (), p')" "okU (updates_store p')"
    "merge_threshold p' = None" "next_update_index p' = length us'" "stored (cx_env X) (cx_sha256d X) U p' us'"
    using dyn_store.persist_stored [OF U(1,2) w(3) _ p(2) wf] r p(1) by (auto simp: us'_def)
  have w': "w' = w\<lparr>w_cache := c, w_persister := p'\<rparr>"
    using w1(2) T(4) p'(1) by (simp add: persist_update_def w1_w)
  have "apply_update_inner X T u wr = (Inr (), w0\<lparr>w_cache := c\<rparr>)"
  proof -
    obtain q v where q: "apply_update_inner X T u wr = (q, v)" by fastforce
    have "apply_update_inner X T u (wr\<lparr>w_persister := w_persister w\<rparr>) = (Inr (), w1)"
      unfolding w_wr(1) [symmetric] by (rule w1(1))
    then have "q = Inr ()" "w1 = v\<lparr>w_persister := w_persister w\<rparr>"
      by (simp_all add: inner_other_persister q)
    moreover have "v = wr\<lparr>w_cache := w_cache v\<rparr>" by (rule inner_keeps_persister [OF q])
    ultimately show ?thesis using q by (simp add: wr_def c_def)
  qed
  moreover have "follows X us wr u" using u(1) by (simp add: follows_def w_wr(2))
  ultimately have "apply_all X T us' w0 = Some (w0\<lparr>w_cache := c\<rparr>) \<and> list_all (\<lambda>u. upd_version u = 4) us'"
    unfolding us'_def using r by (intro apply_all_persist_spec [of X T us w0 wr]) (simp_all add: wr_def)
  moreover obtain store where store: "p' = \<lparr>updates_store = store, merge_threshold = None, next_update_index = length us'\<rparr>"
    using p'(3,4) by (cases p') simp
  moreover have w'_w0: "w' = w0\<lparr>w_cache := c, w_persister := p'\<rparr>"
    unfolding w' by (subst w_wr(1)) (simp add: wr_def)
  ultimately have "replays X T U w0 us' w'" using p'(5) ids by (simp add: replays_def)
  with ids p'(2) show ?thesis by (simp add: us'_def w'_w0)
qed

lemma scanned_replays:
  assumes T: "dyn_store T okT goodT" "\<And>t. goodT (tx_key t)" "goodT TXIDS_KEY" "okT (wb_txs_store b)"
    and U: "dyn_store U okU goodU" "\<And>i. goodU (update_key i)" "okU (wb_updates_store b)"
    and X: "json_ok (cx_json X)" "\<And>x. length (cx_sha256d X x) = 32"
    and start: "fresh_start X T U b" "unrestored X b = Inr w0"
    and w: "scanned X T U b us w"
  shows "replays X T U w0 us w \<and> okT (txs_store (w_cache w)) \<and> okU (updates_store (w_persister w))"
  using w
proof induction
  case (scanned_new w)
  note new = replays_new [OF start scanned_new]
  have "txs_store (w_cache w0) = wb_txs_store b" "updates_store (w_persister w0) = wb_updates_store b"
    using start(2) by (auto simp: unrestored_def rbind_eq_Inr Cache_new_def UpdatesPersister_new_def)
  with new T(4) U(3) show ?case by simp
next
  case (scanned_update us w u w')
  have "\<not> dyn_is_persisted T" using start(1) by (simp add: fresh_start_def)
  from replays_update [OF T(1-3) this U(1,2) X, of w0 us w u w'] scanned_update show ?case by simp
qed


definition padded_ctx :: "(unit, nat, nat \<times> u32) wctx" where
  "padded_ctx = sample_ctx\<lparr>cx_sha256d := (\<lambda>x. take 32 (x @ replicate 32 0))\<rparr>"

definition sample_tip_update :: Update where
  "sample_tip_update = \<lparr>upd_version = 4, wollet_status = 0, new_txs = \<lparr>dl_txs = [], dl_unblinds = []\<rparr>,
     txid_height_new = [], txid_height_delete = [], upd_timestamps = [(12, 1700000000)],
     scripts_with_blinding_pubkey = [], upd_tip = sample_header, upd_unspent = [],
     upd_last_unused = \<lparr>lu_internal = 0, lu_external = 0\<rparr>\<rparr>"

lemma wf_sample_tip_update: "wf_Update sample_env h sample_tip_update"
  using wf_sample_header
  by (simp add: sample_tip_update_def wf_Update_def wf_DownloadTxResult_def wf_counted_def over_capacity_def sample_env_def)

lemma sample_json_ok: "json_ok (cx_json sample_ctx)"
proof -
  have "list_all (\<lambda>c. (of_char c :: nat) \<noteq> 0) (to_lower_hex bs)" for bs
    by (induction bs) (use byte_digits in \<open>simp_all add: of_char_hex_digit\<close>)
  then have "list_all (list_all (\<lambda>c. (of_char c :: nat) \<noteq> 0)) (map txid_display ids)" for ids
    by (simp add: list_all_iff txid_display_def)
  then show ?thesis by (simp add: json_ok_def sample_ctx_def sample_unjson_json)
qed

lemma padded_build: "build padded_ctx MemoryStore MemoryStore sample_builder = Some (Inr sample_wollet)"
proof -
  have "unrestored padded_ctx sample_builder = Inr sample_wollet"
    by (simp add: unrestored_def sample_builder_def WolletBuilder_new_def sample_wollet_def padded_ctx_def sample_ctx_def
        definite_descriptor_def inner_descriptor_if_available_def wd_descriptor_def sample_wd_def sample_ms_def)
  moreover have "get_update (cx_env padded_ctx) (cx_sha256d padded_ctx) MemoryStore (w_persister sample_wollet) 0 = Inr None"
    by (simp add: get_update_def sample_wollet_def UpdatesPersister_new_def MemoryStore_def memory_get_def)
  then have "restore_updates padded_ctx MemoryStore MemoryStore sample_wollet = Some (Inr (), sample_wollet)"
    by (simp add: restore_updates_def restore_from.simps merge_updates_def)
      (simp add: sample_wollet_def UpdatesPersister_new_def)
  moreover have "add_txids_from_txs_store MemoryStore (cx_json padded_ctx) (w_cache sample_wollet) = w_cache sample_wollet"
    by (simp add: add_txids_from_txs_store_def sample_wollet_def Cache_new_def MemoryStore_def memory_get_def
        List.map_filter_def)
  ultimately show ?thesis by (simp add: build_def MemoryStore_def)
qed

lemma sample_fresh_start: "fresh_start padded_ctx MemoryStore MemoryStore sample_builder"
  by (simp add: fresh_start_def sample_builder_def WolletBuilder_new_def MemoryStore_def memory_get_def stored_def
      get_update_def UpdatesPersister_new_def)

lemma sample_scanned: "\<exists>us w. scanned padded_ctx MemoryStore MemoryStore sample_builder us w \<and> fst (cache_tip (w_cache w)) = 12"
proof -
  let ?u = sample_tip_update
  obtain hash where hash: "block_hash (cx_sha256d padded_ctx) sample_header = Inr hash"
    by (simp add: block_hash_def sample_header_def)
  define c where "c = after_tip False ?u ((Cache_new Map.empty)\<lparr>cache_tip := (12, hash)\<rparr> :: memory Cache)"
  have tip: "only_tip ?u" "4 \<le> upd_version ?u" "upd_tip ?u \<noteq> default_blockheader" "bh_height (upd_tip ?u) = 12"
    by (simp_all add: sample_tip_update_def only_tip_def DownloadTxResult_is_empty_def default_blockheader_def
        sample_header_def)
  have not_persisted: "\<not> dyn_is_persisted MemoryStore" by (simp add: MemoryStore_def)
  have st: "wollet_status ?u = 0" "w_utxo_only sample_wollet = False"
    by (simp_all add: sample_tip_update_def sample_wollet_def)
  have "move_tip (cx_sha256d padded_ctx) (upd_tip ?u) (w_cache sample_wollet) = Inr ((Cache_new Map.empty)\<lparr>cache_tip := (12, hash)\<rparr>)"
    using hash tip by (simp add: move_tip_Inr) (simp add: sample_tip_update_def sample_wollet_def Cache_new_def)
  then have inner: "apply_update_inner padded_ctx MemoryStore ?u sample_wollet = (Inr (), sample_wollet\<lparr>w_cache := c\<rparr>)"
    unfolding apply_inner_only_tip [OF tip(1,2)]
    using st by (simp add: c_def)
  have spec: "persist_spec None False [] ?u = [?u]"
    by (simp add: persist_spec_def merge_spec_def without_txs_def)
  have wf: "wf_Update (cx_env padded_ctx) (cx_sha256d padded_ctx) ?u"
    using wf_sample_tip_update by (simp add: padded_ctx_def sample_ctx_def)
  have "stored (cx_env padded_ctx) (cx_sha256d padded_ctx) MemoryStore (w_persister sample_wollet) []"
    using sample_fresh_start by (simp add: fresh_start_def sample_wollet_def sample_builder_def WolletBuilder_new_def)
  from memory_store.persist_stored [OF TrueI TrueI this, of False ?u] wf
  obtain p where "persist (cx_env padded_ctx) (cx_sha256d padded_ctx) MemoryStore ?u False (w_persister sample_wollet) = (Inr (), p)"
    by (auto simp: spec without_txs_def sample_wollet_def UpdatesPersister_new_def)
  then have "apply_update padded_ctx MemoryStore MemoryStore ?u sample_wollet =
      (Inr (), sample_wollet\<lparr>w_cache := c, w_persister := p\<rparr>)"
    by (simp add: apply_update_def inner persist_update_def not_persisted)
  moreover have "follows padded_ctx [] sample_wollet ?u"
    using wf tip by (simp add: follows_def spec) (simp add: sample_wollet_def Cache_new_def sample_tip_update_def)
  ultimately have "scanned padded_ctx MemoryStore MemoryStore sample_builder [?u] (sample_wollet\<lparr>w_cache := c, w_persister := p\<rparr>)"
    using scanned_update [OF scanned_new [OF padded_build]] spec by metis
  moreover have "fst (cache_tip c) = 12" by (simp add: c_def after_tip_tip)
  ultimately show ?thesis by fastforce
qed


end
