(* ===== verification/UtxoSet.thy ===== *)
theory UtxoSet
  imports ApplyUpdate
begin

text \<open>
  The unspent outputs after an update, against the outputs that no transaction of the wallet spends. The cache
  maintains them incrementally, from the listed and the deleted transactions only; the result is exact but
  for the outputs of a listed transaction that a wallet transaction which is not listed spends.
\<close>

section \<open>The incremental update against the specification\<close>

text \<open>A set of transactions as a chain and a mempool can hold them: no wallet output is spent twice, and a
  transaction that spends a wallet output comes with the transaction of that output.\<close>

definition consistent :: "(Txid \<Rightarrow> Transaction option) \<Rightarrow> (OutPoint \<Rightarrow> Script option) \<Rightarrow> Txid set \<Rightarrow> bool" where
  "consistent tx_of own H \<longleftrightarrow>
     (\<forall>op t t'. own op \<noteq> None \<longrightarrow> t \<in> H \<longrightarrow> t' \<in> H \<longrightarrow> spends tx_of t op \<longrightarrow> spends tx_of t' op \<longrightarrow> t = t') \<and>
     (\<forall>op t. own op \<noteq> None \<longrightarrow> t \<in> H \<longrightarrow> spends tx_of t op \<longrightarrow> op_txid op \<in> H)"

text \<open>With \<open>N\<close> listed and \<open>R\<close> deleted: an output of a listed transaction, spent only by transactions of
  the wallet that are neither listed nor deleted.\<close>

definition stale ::
    "(Txid \<Rightarrow> Transaction option) \<Rightarrow> (OutPoint \<Rightarrow> Script option) \<Rightarrow> Txid set \<Rightarrow> Txid set \<Rightarrow> Txid set \<Rightarrow> OutPoint \<Rightarrow> bool" where
  "stale tx_of own H N R op \<longleftrightarrow> own op \<noteq> None \<and> op_txid op \<in> N \<and>
     (\<exists>t \<in> H - R - N. spends tx_of t op) \<and> (\<forall>t \<in> N. \<not> spends tx_of t op)"

lemma update_unspent_spec:
  fixes E D c txs
  defines "tx_of \<equiv> \<lambda>t. tx_as_fallback E D c t txs"
  assumes disjoint: "set (map fst new) \<inter> set del = {}" and deleted: "set del \<subseteq> H"
    and cons: "consistent tx_of (owned tx_of c) H"
    and before: "map_of (unspent c) = utxo_spec tx_of (owned tx_of c) H"
  shows "map_of (unspent (update_unspent E D new del txs c)) op =
    (if stale tx_of (owned tx_of c) H (set (map fst new)) (set del) op then owned tx_of c op
     else utxo_spec tx_of (owned tx_of c) (H - set del \<union> set (map fst new)) op)"
proof -
  define N where "N = set (map fst new)"
  define R where "R = set del"
  define own where "own = owned tx_of c"
  note at = update_unspent_at [of E D new del txs c op, folded tx_of_def, folded N_def R_def own_def]
  have disj: "N \<inter> R = {}" "R \<subseteq> H" using disjoint deleted by (simp_all add: N_def R_def)
  have once: "own op \<noteq> None \<Longrightarrow> t \<in> H \<Longrightarrow> t' \<in> H \<Longrightarrow> spends tx_of t op \<Longrightarrow> spends tx_of t' op \<Longrightarrow> t = t'"
    and closed: "own op \<noteq> None \<Longrightarrow> t \<in> H \<Longrightarrow> spends tx_of t op \<Longrightarrow> op_txid op \<in> H" for t t'
    using cons unfolding consistent_def own_def by blast+
  have "map_of (unspent (update_unspent E D new del txs c)) op =
    (if stale tx_of own H N R op then own op else utxo_spec tx_of own (H - R \<union> N) op)"
  proof (cases "op_txid op \<in> R \<or> (\<exists>t \<in> N. spends tx_of t op)")
    case True
    then have "\<not> stale tx_of own H N R op" using disj by (auto simp: stale_def)
    moreover have "utxo_spec tx_of own (H - R \<union> N) op = None" using True disj by (auto simp: utxo_spec_def)
    ultimately show ?thesis unfolding at if_P [OF True] by simp
  next
    case no: False
    show ?thesis
    proof (cases "own op = None")
      case True
      then have "\<not> stale tx_of own H N R op" "utxo_spec tx_of own K op = None" for K
        by (simp_all add: stale_def utxo_spec_def)
      with no True before show ?thesis unfolding at by (simp add: own_def)
    next
      case own: False
      show ?thesis
      proof (cases "op_txid op \<in> N")
        case True
        then show ?thesis using no own unfolding at by (auto simp: stale_def utxo_spec_def)
      next
        case notin: False
        then have ns: "\<not> stale tx_of own H N R op" by (simp add: stale_def)
        show ?thesis
        proof (cases "\<exists>t \<in> R. spends tx_of t op")
          case True
          then obtain t where t: "t \<in> R" "spends tx_of t op" by blast
          have "op_txid op \<in> H" using closed [OF own, of t] t disj by blast
          moreover have "\<not> spends tx_of t' op" if "t' \<in> H - R" for t'
            using once [OF own, of t' t] that t disj by blast
          ultimately have "utxo_spec tx_of own (H - R \<union> N) op = own op" using no by (auto simp: utxo_spec_def)
          with True no own ns show ?thesis unfolding at by auto
        next
          case False
          have "utxo_spec tx_of own (H - R \<union> N) op = utxo_spec tx_of own H op"
            using False no notin disj by (auto simp: utxo_spec_def)
          with False no notin ns before show ?thesis unfolding at by (simp add: own_def)
        qed
      qed
    qed
  qed
  then show ?thesis by (simp only: N_def R_def own_def)
qed

section \<open>The wallet after an update\<close>

text \<open>The updates that bring something new: the transactions and the opened outputs are not of transactions the
  wallet lists, a new script is not that of an output opened before, deleted transactions are of the
  wallet and none is listed at the same time.\<close>

definition fresh_update :: "env \<Rightarrow> 's DynStore \<Rightarrow> 's Cache \<Rightarrow> Update \<Rightarrow> bool" where
  "fresh_update E T c u \<longleftrightarrow>
     (\<forall>(t, tx) \<in> set (dl_txs (new_txs u)). wf_Transaction E tx \<and> t \<notin> wallet_txids c) \<and>
     distinct (map fst (dl_txs (new_txs u))) \<and>
     (\<forall>(op, _) \<in> set (dl_unblinds (new_txs u)). op_txid op \<notin> wallet_txids c) \<and>
     (\<forall>(_, _, script, _) \<in> set (scripts_with_blinding_pubkey u). hm_contains (paths c) script \<or>
        (\<forall>op. hm_contains (unblinded c) op \<longrightarrow>
           Option.bind (cache_tx E T c (op_txid op)) (\<lambda>tx. tx_output_script tx (op_vout op)) \<noteq> Some script)) \<and>
     set (map fst (txid_height_new u)) \<inter> set (txid_height_delete u) = {} \<and>
     set (txid_height_delete u) \<subseteq> wallet_txids c"

lemma compute_scripts:
  "compute_blinding_pubkey_if_missing X d entries = Inr entries' \<Longrightarrow>
     map (\<lambda>(chain, child, script, pk). script) entries' = map (\<lambda>(chain, child, script, pk). script) entries"
proof (induction entries arbitrary: entries')
  case Nil
  then show ?case by (simp add: compute_blinding_pubkey_if_missing_def)
next
  case (Cons entry entries)
  obtain chain child script pk where e: "entry = (chain, child, script, pk)" by (cases entry) auto
  obtain e' es where es: "compute_blinding_pubkey X d entry = Inr e'"
    "compute_blinding_pubkey_if_missing X d entries = Inr es" "entries' = e' # es"
    using Cons.prems by (auto simp: compute_blinding_pubkey_if_missing_def rbind_eq_Inr)
  have "(\<lambda>(chain, child, script, pk). script) e' = script"
    using es(1) by (auto simp: compute_blinding_pubkey_def e rbind_eq_Inr split: option.splits sum.splits if_splits)
  with Cons.IH [OF es(2)] es(3) e show ?case by simp
qed

text \<open>An update of this kind does not change which outputs of the wallet's transactions are its own.\<close>

lemma opened_same:
  assumes fresh: "fresh_update E T c u" and entries: "map (\<lambda>(chain, child, script, pk). script) entries =
      map (\<lambda>(chain, child, script, pk). script) (scripts_with_blinding_pubkey u)"
    and op: "op_txid op \<in> wallet_txids c"
  shows "cache_tx E T c (op_txid op) = tx (op_txid op) \<Longrightarrow>
    owned (cache_tx E T c) c op = owned tx (add_scripts entries (extend_unblinded (dl_unblinds (new_txs u)) c)) op"
proof -
  assume tx: "cache_tx E T c (op_txid op) = tx (op_txid op)"
  let ?c = "add_scripts entries (extend_unblinded (dl_unblinds (new_txs u)) c)"
  have "map_of (rev (dl_unblinds (new_txs u))) op = None"
    using fresh op by (auto simp: fresh_update_def map_of_eq_None_iff)
  then have unb: "hm_contains (unblinded ?c) op = hm_contains (unblinded c) op"
    by (simp add: hm_contains_def add_scripts_def extend_unblinded_def map_of_extend map_add_def)
  have "hm_contains (paths ?c) script = hm_contains (paths c) script"
    if "hm_contains (unblinded c) op"
      "Option.bind (cache_tx E T c (op_txid op)) (\<lambda>tx. tx_output_script tx (op_vout op)) = Some script" for script
  proof (cases "script \<in> set (map (\<lambda>(chain, child, script, pk). script) entries)")
    case True
    then have "hm_contains (paths c) script"
      unfolding entries using fresh that by (fastforce simp: fresh_update_def)
    then show ?thesis by (auto simp: hm_contains_def add_scripts_def extend_unblinded_def map_of_extend map_add_def
        split: option.splits)
  next
    case False
    then have "map_of (rev (map (\<lambda>(chain, child, script, pk). (script, (chain, child))) entries)) script = None"
      by (force simp: map_of_eq_None_iff)
    then show ?thesis by (simp add: hm_contains_def add_scripts_def extend_unblinded_def map_of_extend map_add_def)
  qed
  then show ?thesis
    using unb tx by (auto simp: owned_def split: Option.bind_splits)
qed

context dyn_store
begin

lemma cache_update_utxos:
  assumes store: "inv (txs_store c)" "\<And>t. good (tx_key t)" "good TXIDS_KEY"
    and txs: "\<forall>(t, tx) \<in> set txs. wf_Transaction E tx" "distinct (map fst txs)"
    and lists: "set (map fst new) \<inter> set del = {}" "set del \<subseteq> wallet_txids c"
  shows "\<exists>d. cache_update E D J new del txs False ops c = (Inr (), d) \<and> inv (txs_store d) \<and>
    cache_tx E D d = tx_after E D c txs \<and> unblinded d = unblinded c \<and> paths d = paths c \<and>
    wallet_txids d = wallet_txids c - set del \<union> set (map fst new) \<and>
    (consistent (tx_after E D c txs) (owned (tx_after E D c txs) c) (wallet_txids c) \<longrightarrow>
     map_of (unspent c) = utxo_spec (tx_after E D c txs) (owned (tx_after E D c txs) c) (wallet_txids c) \<longrightarrow>
     (\<forall>op. map_of (unspent d) op =
       (if stale (tx_after E D c txs) (owned (tx_after E D c txs) c) (wallet_txids c) (set (map fst new)) (set del) op
        then owned (tx_after E D c txs) c op
        else utxo_spec (tx_after E D c txs) (owned (tx_after E D c txs) c) (wallet_txids d) op)))"
proof -
  obtain c1 where c1: "extend_all_txs D J txs c = (Inr (), c1)" "inv (txs_store c1)"
    "\<And>t. cache_tx E D c1 t = (case map_of (rev txs) t of Some tx \<Rightarrow> Some tx | None \<Rightarrow> cache_tx E D c t)"
    using extend_all_txs_tx [OF store txs(1), of J] by blast
  note same = extend_all_txs_frame [OF c1(1), unfolded same_but_store_def]
  have rev: "map_of (rev txs) = map_of txs" using txs(2) by (subst map_of_inject_set) (simp_all add: rev_map [symmetric])
  have tx1: "cache_tx E D c1 = tx_after E D c txs"
    by (auto simp: fun_eq_iff c1(3) rev tx_after_def tx_as_fallback_def split: option.splits)
  define c2 where "c2 = rebuild_sorted_txids (update_heights new del c1)"
  have c2: "unspent c2 = unspent c" "unblinded c2 = unblinded c" "paths c2 = paths c" "txs_store c2 = txs_store c1"
    "heights c2 = heights (update_heights new del c)"
    using same by (simp_all add: c2_def update_fields) (simp add: update_heights_def)
  have tx2: "(\<lambda>t. tx_as_fallback E D c2 t txs) = tx_after E D c txs"
    using cache_tx_cong [OF c2(4), of E D] tx1
    by (auto simp: fun_eq_iff tx_as_fallback_def tx_after_def split: option.splits)
  have own2: "owned tx c2 = owned tx c" for tx using c2 by (simp add: owned_def fun_eq_iff)
  define d where "d = update_unspent E D new del txs c2"
  have d: "unblinded d = unblinded c" "paths d = paths c" "txs_store d = txs_store c1" "heights d = heights c2"
    by (simp_all add: d_def update_fields c2)
  have ids: "wallet_txids d = wallet_txids c - set del \<union> set (map fst new)"
    using wallet_txids_update_heights [of new del c] by (simp add: wallet_txids_def d c2)
  have "map_of (unspent d) op =
      (if stale (tx_after E D c txs) (owned (tx_after E D c txs) c) (wallet_txids c) (set (map fst new)) (set del) op
       then owned (tx_after E D c txs) c op
       else utxo_spec (tx_after E D c txs) (owned (tx_after E D c txs) c) (wallet_txids d) op)"
    if "consistent (tx_after E D c txs) (owned (tx_after E D c txs) c) (wallet_txids c)"
      and "map_of (unspent c) = utxo_spec (tx_after E D c txs) (owned (tx_after E D c txs) c) (wallet_txids c)" for op
    unfolding ids unfolding d_def
    by (rule update_unspent_spec [of new del "wallet_txids c" E D c2 txs op, unfolded tx2 own2, OF lists that(1)])
      (simp add: c2(1) that(2))
  moreover have "cache_update E D J new del txs False ops c = (Inr (), d)"
    by (simp add: cache_update_def c1(1) Let_def d_def c2_def)
  moreover have "cache_tx E D d = tx_after E D c txs" using cache_tx_cong [OF d(3)] tx1 by metis
  ultimately show ?thesis using c1(2) d ids by auto
qed

lemma apply_to_cache_utxos:
  assumes store: "inv (txs_store c)" "\<And>t. good (tx_key t)" "good TXIDS_KEY"
    and exact: "unspent_exact (cx_env X) D c" and fresh: "fresh_update (cx_env X) D c u"
    and entries: "map (\<lambda>(chain, child, script, pk). script) entries =
      map (\<lambda>(chain, child, script, pk). script) (scripts_with_blinding_pubkey u)"
    and d: "apply_to_cache X D False u entries c = (r, d)"
    and cons: "consistent (cache_tx (cx_env X) D d) (owned (cache_tx (cx_env X) D d) d) (wallet_txids c)"
  shows "r = Inr () \<and> inv (txs_store d) \<and>
    (\<forall>t. cache_tx (cx_env X) D d t =
       (case map_of (dl_txs (new_txs u)) t of Some tx \<Rightarrow> Some tx | None \<Rightarrow> cache_tx (cx_env X) D c t)) \<and>
    unblinded d = hm_extend (unblinded c) (dl_unblinds (new_txs u)) \<and> paths d = paths (add_scripts entries c) \<and>
    wallet_txids d = wallet_txids c - set (txid_height_delete u) \<union> set (map fst (txid_height_new u)) \<and>
    (\<forall>op. map_of (unspent d) op =
       (if stale (cache_tx (cx_env X) D d) (owned (cache_tx (cx_env X) D d) d) (wallet_txids c)
            (set (map fst (txid_height_new u))) (set (txid_height_delete u)) op
        then owned (cache_tx (cx_env X) D d) d op
        else utxo_spec (cache_tx (cx_env X) D d) (owned (cache_tx (cx_env X) D d) d) (wallet_txids d) op))"
proof -
  let ?E = "cx_env X" and ?txs = "dl_txs (new_txs u)"
  let ?N = "map fst (txid_height_new u)" and ?R = "txid_height_delete u"
  define c0 where "c0 = add_scripts entries (extend_unblinded (dl_unblinds (new_txs u)) c)"
  define tx where "tx = tx_after ?E D c0 ?txs"
  have c0: "txs_store c0 = txs_store c" "heights c0 = heights c" "unspent c0 = unspent c"
    by (simp_all add: c0_def add_scripts_def extend_unblinded_def)
  have H: "wallet_txids c0 = wallet_txids c" by (simp add: wallet_txids_def c0)
  have txs: "\<forall>(t, tx) \<in> set ?txs. wf_Transaction ?E tx" "distinct (map fst ?txs)"
    and lists: "set ?N \<inter> set ?R = {}" "set ?R \<subseteq> wallet_txids c0"
    using fresh by (auto simp: fresh_update_def H)
  obtain d1 where d1: "cache_update ?E D (cx_json X) (txid_height_new u) ?R ?txs False (upd_unspent u) c0 = (Inr (), d1)"
    "inv (txs_store d1)" "cache_tx ?E D d1 = tx" "unblinded d1 = unblinded c0" "paths d1 = paths c0"
    "wallet_txids d1 = wallet_txids c - set ?R \<union> set ?N"
    "consistent tx (owned tx c0) (wallet_txids c) \<Longrightarrow>
     map_of (unspent c0) = utxo_spec tx (owned tx c0) (wallet_txids c) \<Longrightarrow>
     map_of (unspent d1) op = (if stale tx (owned tx c0) (wallet_txids c) (set ?N) (set ?R) op then owned tx c0 op
        else utxo_spec tx (owned tx c0) (wallet_txids d1) op)" for op
    using cache_update_utxos [OF _ store(2,3) txs lists, of "cx_json X" "upd_unspent u"] store(1) c0(1)
    unfolding H tx_def [symmetric] by fastforce
  have r: "r = Inr ()" and d_d1: "d = raise_last_unused ?E D u (d1\<lparr>timestamps := hm_extend (timestamps d1) (upd_timestamps u)\<rparr>)"
    using d d1(1) by (simp_all add: apply_to_cache_def c0_def [symmetric])
  have d_fields: "txs_store d = txs_store d1" "unblinded d = unblinded c0" "paths d = paths c0" "unspent d = unspent d1"
    "wallet_txids d = wallet_txids d1"
    by (simp_all add: d_d1 raise_last_unused_def Let_def d1 wallet_txids_def)
  have txd: "cache_tx ?E D d = tx" using cache_tx_cong [OF d_fields(1)] d1(3) by metis
  have own: "owned f d = owned f c0" for f by (simp add: owned_def fun_eq_iff d_fields)
  have agree: "cache_tx ?E D c t = tx t" if "t \<in> wallet_txids c" for t
  proof -
    have "map_of ?txs t = None" using fresh that by (auto simp: fresh_update_def map_of_eq_None_iff)
    then show ?thesis using cache_tx_cong [OF c0(1), of ?E D] by (simp add: tx_def tx_after_def tx_as_fallback_def)
  qed
  have "map_of (unspent c0) = utxo_spec tx (owned tx c0) (wallet_txids c)"
    unfolding c0(3) exact [unfolded unspent_exact_def]
  proof (rule utxo_spec_cong, erule agree)
    fix op :: OutPoint assume op: "op_txid op \<in> wallet_txids c"
    show "owned (cache_tx ?E D c) c op = owned tx c0 op"
      using opened_same [OF fresh entries op, where tx = tx] agree [OF op] by (simp add: c0_def)
  qed
  moreover have "tx t = (case map_of ?txs t of Some tx \<Rightarrow> Some tx | None \<Rightarrow> cache_tx ?E D c t)" for t
    using cache_tx_cong [OF c0(1), of ?E D] by (simp add: tx_def tx_after_def tx_as_fallback_def split: option.split)
  moreover have "unblinded c0 = hm_extend (unblinded c) (dl_unblinds (new_txs u))" "paths c0 = paths (add_scripts entries c)"
    by (simp_all add: c0_def add_scripts_def extend_unblinded_def)
  ultimately show ?thesis using cons d1(7) by (simp add: r txd own d_fields d1(2,6))
qed

end

section \<open>Properties\<close>

lemma apply_inner_parts:
  assumes "apply_update_inner X T u w = (Inr (), w')"
  obtains entries c d where
    "compute_blinding_pubkey_if_missing X (w_descriptor w) (scripts_with_blinding_pubkey u) = Inr entries"
    "move_tip (cx_sha256d X) (upd_tip u) (w_cache w) = Inr c"
    "apply_to_cache X T (w_utxo_only w) u entries c = (Inr (), d)" "w' = w\<lparr>w_cache := d\<rparr>"
  using assms by (auto simp: apply_update_inner_def split: if_splits sum.splits prod.splits)

lemma move_tip_same:
  assumes "move_tip h tip c = Inr d"
  shows "unspent_exact E T d = unspent_exact E T c" "fresh_update E T d u = fresh_update E T c u"
    "wallet_txids d = wallet_txids c" "txs_store d = txs_store c" "paths d = paths c" "unblinded d = unblinded c"
    "cache_tx E T d = cache_tx E T c"
proof -
  obtain t where t: "d = c\<lparr>cache_tip := t\<rparr>"
    using assms that [of "cache_tip c"] by (auto simp: move_tip_def rbind_eq_Inr split: if_splits)
  show tx: "cache_tx E T d = cache_tx E T c" by (rule cache_tx_cong) (simp add: t)
  show "wallet_txids d = wallet_txids c" "txs_store d = txs_store c" "paths d = paths c" "unblinded d = unblinded c"
    by (simp_all add: t wallet_txids_def)
  moreover have "owned f d = owned f c" for f by (simp add: owned_def fun_eq_iff t)
  moreover have "unspent d = unspent c" by (simp add: t)
  ultimately show "unspent_exact E T d = unspent_exact E T c" "fresh_update E T d u = fresh_update E T c u"
    using tx by (simp_all add: unspent_exact_def fresh_update_def)
qed

text \<open>C3. The unspent outputs after an update. Let the wallet's unspent outputs be exact, the update be fresh and
  the wallet's transactions consistent. After the update, the unspent outputs are exactly the opened
  outputs to scripts of the wallet, of the transactions the wallet now lists, that none of these
  transactions spends; with one exception: an output of a transaction that the update lists again
  (its height changed), spent by a wallet transaction that the update does not list, is put back.\<close>

theorem utxo_set_after_update:
  assumes T: "dyn_store T ok good" "\<And>t. good (tx_key t)" "good TXIDS_KEY" "ok (txs_store (w_cache w))"
    and w: "\<not> w_utxo_only w" "unspent_exact (cx_env X) T (w_cache w)" "fresh_update (cx_env X) T (w_cache w) u"
    and w': "apply_update_inner X T u w = (Inr (), w')"
    and cons: "consistent (cache_tx (cx_env X) T (w_cache w')) (owned (cache_tx (cx_env X) T (w_cache w')) (w_cache w'))
      (wallet_txids (w_cache w))"
  shows "map_of (unspent (w_cache w')) op =
    (if stale (cache_tx (cx_env X) T (w_cache w')) (owned (cache_tx (cx_env X) T (w_cache w')) (w_cache w'))
          (wallet_txids (w_cache w)) (set (map fst (txid_height_new u))) (set (txid_height_delete u)) op
     then owned (cache_tx (cx_env X) T (w_cache w')) (w_cache w') op
     else utxo_spec (cache_tx (cx_env X) T (w_cache w')) (owned (cache_tx (cx_env X) T (w_cache w')) (w_cache w'))
          (wallet_txids (w_cache w')) op)"
proof -
  obtain entries c d where parts:
    "compute_blinding_pubkey_if_missing X (w_descriptor w) (scripts_with_blinding_pubkey u) = Inr entries"
    "move_tip (cx_sha256d X) (upd_tip u) (w_cache w) = Inr c"
    "apply_to_cache X T (w_utxo_only w) u entries c = (Inr (), d)" "w' = w\<lparr>w_cache := d\<rparr>"
    using w' by (rule apply_inner_parts)
  note same = move_tip_same [OF parts(2)]
  have "apply_to_cache X T False u entries c = (Inr (), d)" using parts(3) w(1) by simp
  from dyn_store.apply_to_cache_utxos [OF T(1) _ T(2,3) _ _ compute_scripts [OF parts(1)] this]
  show ?thesis using T(4) w(2,3) cons by (simp add: same parts(4))
qed

definition sample_payment :: Transaction where
  "sample_payment = \<lparr>tx_version = 2, tx_lock_time = Blocks 0, tx_input = [sample_in],
     tx_output = [\<lparr>out_asset = AExplicit (replicate 32 1), out_value = VExplicit 5000, out_nonce = NNull,
       script_pubkey = [0x51], out_witness = TxOutWitness_empty\<rparr>]\<rparr>"

definition sample_payment_update :: Update where
  "sample_payment_update = \<lparr>upd_version = 4, wollet_status = 0,
     new_txs = \<lparr>dl_txs = [(replicate 32 9, sample_payment)],
       dl_unblinds = [(\<lparr>op_txid = replicate 32 9, op_vout = 0\<rparr>, explicit_secrets (replicate 32 1) 5000)]\<rparr>,
     txid_height_new = [(replicate 32 9, Some 7)], txid_height_delete = [], upd_timestamps = [(7, 1000)],
     scripts_with_blinding_pubkey = [(External, 0, [0x51], Some (2 # replicate 32 7))], upd_tip = default_blockheader,
     upd_unspent = [], upd_last_unused = \<lparr>lu_internal = 0, lu_external = 1\<rparr>\<rparr>"

lemma wf_sample_payment: "wf_Transaction sample_env sample_payment"
  using wf_sample_vout
  by (simp add: sample_payment_def wf_Transaction_def sample_env_def wf_vec_def wf_TxIn_def
    wf_TxOut_def wf_TxInWitness_def wf_TxOutWitness_def wf_box_option_def wf_byte_vec_def
    wf_AssetIssuance_def wf_OutPoint_def wf_commitment_def sample_in_def OutPoint_new_def
    TxInWitness_empty_def TxOutWitness_empty_def has_issuance_def AssetIssuance_is_null_def
    is_block_height_def LOCK_TIME_THRESHOLD_def)

lemma sample_payment_start:
  "unspent_exact sample_env MemoryStore (w_cache sample_wollet)"
  "fresh_update sample_env MemoryStore (w_cache sample_wollet) sample_payment_update"
  "wallet_txids (w_cache sample_wollet) = {}" "\<not> w_utxo_only sample_wollet"
  using wf_sample_payment
  by (simp_all add: unspent_exact_def utxo_spec_def wallet_txids_def sample_wollet_def Cache_new_def fun_eq_iff
      fresh_update_def sample_payment_update_def hm_contains_def)

lemma sample_payment_applied:
  "\<exists>w'. apply_update_inner sample_ctx MemoryStore sample_payment_update sample_wollet = (Inr (), w') \<and>
     cache_tx sample_env MemoryStore (w_cache w') (replicate 32 9) = Some sample_payment \<and>
     hm_contains (unblinded (w_cache w')) \<lparr>op_txid = replicate 32 9, op_vout = 0\<rparr> \<and>
     hm_contains (paths (w_cache w')) [0x51] \<and> wallet_txids (w_cache w') = {replicate 32 9}"
proof -
  let ?u = sample_payment_update and ?c = "w_cache sample_wollet"
  let ?es = "scripts_with_blinding_pubkey ?u"
  obtain r d where d: "apply_to_cache sample_ctx MemoryStore False ?u ?es ?c = (r, d)" by fastforce
  have X: "cx_env sample_ctx = sample_env" by (simp add: sample_ctx_def)
  have cons: "consistent tx own (wallet_txids ?c)" for tx own by (simp add: consistent_def sample_payment_start(3))
  from memory_store.apply_to_cache_utxos [OF TrueI TrueI TrueI _ _ refl d cons, unfolded X, OF sample_payment_start(1,2)]
  have d': "r = Inr ()" "cache_tx sample_env MemoryStore d (replicate 32 9) = Some sample_payment"
    "hm_contains (unblinded d) \<lparr>op_txid = replicate 32 9, op_vout = 0\<rparr>" "hm_contains (paths d) [0x51]"
    "wallet_txids d = {replicate 32 9}"
    by (simp_all add: sample_payment_update_def sample_payment_start(3) hm_contains_def map_of_extend add_scripts_def)
  have "compute_blinding_pubkey_if_missing sample_ctx (w_descriptor sample_wollet) ?es = Inr ?es"
    by (simp add: compute_blinding_pubkey_if_missing_def compute_blinding_pubkey_def sample_payment_update_def)
  moreover have "move_tip (cx_sha256d sample_ctx) (upd_tip ?u) ?c = Inr ?c"
    by (simp add: move_tip_def sample_payment_update_def)
  moreover have "wollet_status ?u = 0" by (simp add: sample_payment_update_def)
  ultimately have "apply_update_inner sample_ctx MemoryStore ?u sample_wollet = (Inr (), sample_wollet\<lparr>w_cache := d\<rparr>)"
    using d d'(1) sample_payment_start(4) by (simp add: apply_update_inner_def)
  with d' show ?thesis by simp
qed

theorem utxo_set_after_update_witness:
  "\<exists>w'. apply_update_inner sample_ctx MemoryStore sample_payment_update sample_wollet = (Inr (), w') \<and>
     map_of (unspent (w_cache w')) \<lparr>op_txid = replicate 32 9, op_vout = 0\<rparr> = Some [0x51]"
proof -
  let ?op = "\<lparr>op_txid = replicate 32 9, op_vout = 0\<rparr> :: OutPoint"
  obtain w' where w': "apply_update_inner sample_ctx MemoryStore sample_payment_update sample_wollet = (Inr (), w')"
    "cache_tx sample_env MemoryStore (w_cache w') (replicate 32 9) = Some sample_payment"
    "hm_contains (unblinded (w_cache w')) ?op" "hm_contains (paths (w_cache w')) [0x51]"
    "wallet_txids (w_cache w') = {replicate 32 9}" using sample_payment_applied by blast
  have X: "cx_env sample_ctx = sample_env" by (simp add: sample_ctx_def)
  have cons: "consistent tx own (wallet_txids (w_cache sample_wollet))" for tx own
    by (simp add: consistent_def sample_payment_start(3))
  have "map_of (unspent (w_cache w')) ?op =
      utxo_spec (cache_tx sample_env MemoryStore (w_cache w'))
        (owned (cache_tx sample_env MemoryStore (w_cache w')) (w_cache w')) (wallet_txids (w_cache w')) ?op"
    using utxo_set_after_update [OF memory_store.dyn_store_axioms TrueI TrueI TrueI sample_payment_start(4) _ _ w'(1) cons,
        unfolded X, OF sample_payment_start(1,2), of ?op]
    by (simp add: stale_def sample_payment_start(3))
  then show ?thesis
    using w'
    by (simp add: utxo_spec_def spends_def owned_def inputs_of_def tx_output_script_def)
      (simp add: sample_payment_def sample_in_def OutPoint_new_def)
qed

end
