(* ===== verification/Scan.thy ===== *)
theory Scan
  imports Restart UtxoSet
begin

text \<open>
  Scanning the chain for the wallet (\<^verbatim>\<open>lwk_wollet/src/clients/blocking/mod.rs\<close>, the state of \<^verbatim>\<open>wollet.rs\<close> that a
  scan works on, and the data of \<^verbatim>\<open>clients/mod.rs\<close>). The required methods of a backend are parameters, given as functions: during
  one scan a backend answers the same query in the same way. The methods that the trait provides are the definitions here.
\<close>

section \<open>Data\<close>

text \<open>The height is an \<open>i32\<close>, read with \<open>sint\<close>.\<close>

record History =
  h_txid :: Txid
  h_height :: "32 word"
  h_block_hash :: "BlockHash option"
  h_block_timestamp :: "Timestamp option"
  h_v :: "32 word"

record Data =
  d_txid_height :: "(Txid, Height option) hashmap"
  d_scripts :: "(Script, Chain \<times> ChildNumber \<times> BlindingPublicKey option) hashmap"
  d_last_unused :: LastUnused
  d_height_blockhash :: "(Height, BlockHash) hashmap"
  d_height_timestamp :: "(Height, Timestamp) hashmap"
  d_tip :: "BlockHash option"
  d_unspent :: "OutPoint list"

definition Data_default :: Data where
  "Data_default = \<lparr>d_txid_height = [], d_scripts = [], d_last_unused = \<lparr>lu_internal = 0, lu_external = 0\<rparr>,
     d_height_blockhash = [], d_height_timestamp = [], d_tip = None, d_unspent = []\<rparr>"

definition last_unused_at :: "LastUnused \<Rightarrow> Chain \<Rightarrow> u32" where
  "last_unused_at l chain = (case chain of External \<Rightarrow> lu_external l | Internal \<Rightarrow> lu_internal l)"

record ('k, 'd) WolletConciseState =
  st_wollet_status :: u64
  st_descriptor :: "('k, 'd) WolletDescriptor"
  st_txs :: "Txid list"
  st_paths :: "(Script, Chain \<times> ChildNumber) hashmap"
  st_scripts :: "(Chain \<times> ChildNumber, Script \<times> BlindingPublicKey option) hashmap"
  st_heights :: "(Txid, Height option) hashmap"
  st_tip :: "Height \<times> BlockHash"
  st_last_unused :: LastUnused
  st_utxo_only :: bool

definition wallet_state :: "('k, 'd, 'x) wctx \<Rightarrow> ('k, 'd, 's, 'u) Wollet \<Rightarrow> ('k, 'd) WolletConciseState" where
  "wallet_state X w =
     \<lparr>st_wollet_status = status X w, st_descriptor = w_descriptor w, st_txs = cache_txids (w_cache w),
      st_paths = paths (w_cache w), st_scripts = scripts (w_cache w), st_heights = heights (w_cache w),
      st_tip = cache_tip (w_cache w), st_last_unused = wallet_last_unused w, st_utxo_only = w_utxo_only w\<rparr>"

definition state_get_or_derive ::
    "('k, 'd, 'x) wctx \<Rightarrow> ('k, 'd) WolletConciseState \<Rightarrow> Chain \<Rightarrow> ChildNumber \<Rightarrow>
      wollet_error fault + (Script \<times> BlindingPublicKey option \<times> bool)" where
  "state_get_or_derive X st ext_int child =
     (case map_of (st_scripts st) (ext_int, child) of
        Some (script, pk) \<Rightarrow> Inr (script, pk, True)
      | None \<Rightarrow> rbind (derive_script_and_blinding_key (cx_ms X) (cx_secp X) (st_descriptor st) ext_int child) (\<lambda>(script, pk).
          Inr (script, pk, False)))"

definition state_get_script_batch ::
    "('k, 'd, 'x) wctx \<Rightarrow> ('k, 'd) WolletConciseState \<Rightarrow> u32 \<Rightarrow> Chain \<Rightarrow> wollet_error fault + ScriptBatch" where
  "state_get_script_batch X st batch ext_int =
     (let result = \<lparr>sb_cached = True, sb_value = []\<rparr>
      in case spk_count (st_descriptor st) of
          Some n \<Rightarrow>
            if 0 < batch then Inr result
            else batch_loop (state_get_or_derive X st) External (map of_nat [0..<unat (of_nat n :: u32)]) result
        | None \<Rightarrow>
            if 2 ^ 32 \<le> unat batch * unat BATCH_SIZE
            then Inl (Panic ''attempt to multiply with overflow'')
            else if 2 ^ 32 \<le> unat batch * unat BATCH_SIZE + unat BATCH_SIZE
            then Inl (Panic ''attempt to add with overflow'')
            else let start = unat batch * unat BATCH_SIZE in
              batch_loop (state_get_or_derive X st) ext_int (map of_nat [start..<start + unat BATCH_SIZE]) result)"

section \<open>The backend\<close>

record ('k, 'd) backend =
  bk_tip :: "wollet_error fault + BlockHeader"
  bk_get_transactions :: "Txid list \<Rightarrow> wollet_error fault + Transaction list"
  bk_get_headers :: "Height list \<Rightarrow> (Height, BlockHash) hashmap \<Rightarrow> wollet_error fault + BlockHeader list"
  bk_get_scripts_history :: "Script list \<Rightarrow> wollet_error fault + History list list"
  bk_waterfalls :: bool
  bk_utxo_only :: bool
  bk_get_history_waterfalls ::
    "('k, 'd) WolletDescriptor \<Rightarrow> ('k, 'd) WolletConciseState \<Rightarrow> u32 \<Rightarrow> wollet_error fault + Data"

definition default_get_history_waterfalls ::
    "('k, 'd) WolletDescriptor \<Rightarrow> ('k, 'd) WolletConciseState \<Rightarrow> u32 \<Rightarrow> wollet_error fault + Data" where
  "default_get_history_waterfalls d st to_index = Inl (Err WaterfallsUnimplemented)"

definition checked_times :: "'a::len word \<Rightarrow> 'a word \<Rightarrow> 'e fault + 'a word" where
  "checked_times a b =
     (if unat a * unat b < 2 ^ LENGTH('a) then Inr (a * b) else Inl (Panic ''attempt to multiply with overflow''))"

text \<open>The index of the last script with a history, cut to 32 bits before the maximum is taken.\<close>

definition max_used :: "History list list \<Rightarrow> u32 option" where
  "max_used result = (case [of_nat i. (i, v) \<leftarrow> List.enumerate 0 result, v \<noteq> []] of
      [] \<Rightarrow> None | i # is \<Rightarrow> Some (fold max is i))"

definition bump_last_unused :: "Chain \<Rightarrow> u32 \<Rightarrow> History list list \<Rightarrow> Data \<Rightarrow> wollet_error fault + Data" where
  "bump_last_unused chain batch_count result data =
     (case max_used result of
        None \<Rightarrow> Inr data
      | Some m \<Rightarrow>
          rbind (checked_plus 1 m) (\<lambda>next.
          rbind (checked_times batch_count BATCH_SIZE) (\<lambda>start.
          rbind (checked_plus next start) (\<lambda>i.
          Inr (data\<lparr>d_last_unused := (case chain of
             External \<Rightarrow> (d_last_unused data)\<lparr>lu_external := i\<rparr>
           | Internal \<Rightarrow> (d_last_unused data)\<lparr>lu_internal := i\<rparr>)\<rparr>)))))"

definition record_history :: "History \<Rightarrow> Data \<Rightarrow> Data" where
  "record_history el data =
     (if sint (h_height el) \<le> 0 then data\<lparr>d_txid_height := hm_insert (h_txid el) None (d_txid_height data)\<rparr>
      else let data = data\<lparr>d_txid_height := hm_insert (h_txid el) (Some (h_height el)) (d_txid_height data)\<rparr>
           in case h_block_hash el of
                Some hash \<Rightarrow> data\<lparr>d_height_blockhash := hm_insert (h_height el) hash (d_height_blockhash data)\<rparr>
              | None \<Rightarrow> data)"

lemma rbind_cong [fundef_cong]:
  "m = m' \<Longrightarrow> (\<And>x. m' = Inr x \<Longrightarrow> f x = g x) \<Longrightarrow> rbind m f = rbind m' g"
  by (cases m') simp_all

lemma checked_plus_one_less: "checked_plus b 1 = Inr (n :: u32) \<Longrightarrow> unat n = unat b + 1"
  by (auto simp: checked_plus_def unat_plus_simple split: if_splits)

text \<open>The loop over the batches of one chain. The flag of the result tells whether \<open>get_history\<close> returns from inside the loop.\<close>

function history_loop ::
    "('k, 'd, 'x) wctx \<Rightarrow> ('k, 'd) backend \<Rightarrow> ('k, 'd) WolletConciseState \<Rightarrow> bool \<Rightarrow> Chain \<Rightarrow> u32 \<Rightarrow> u32 \<Rightarrow> Data \<Rightarrow>
      wollet_error fault + bool \<times> Data" where
  "history_loop X B st wildcard chain index batch_count data =
     rbind (state_get_script_batch X st batch_count chain) (\<lambda>batch.
     rbind (bk_get_scripts_history B (map fst (sb_value batch))) (\<lambda>result.
     let data = (if sb_cached batch then data else data\<lparr>d_scripts := hm_extend (d_scripts data) (sb_value batch)\<rparr>)
     in rbind (bump_last_unused chain batch_count result data) (\<lambda>data.
     rbind (if concat result = []
            then rbind (checked_times batch_count BATCH_SIZE) (\<lambda>start.
                 rbind (checked_plus 1 start) (\<lambda>reach. Inr (index \<le> reach)))
            else Inr False) (\<lambda>stop.
     if stop then Inr (False, data)
     else let data = fold record_history (concat result) data
       in rbind (checked_plus batch_count 1) (\<lambda>next.
          if \<not> wildcard then Inr (True, data)
          else history_loop X B st wildcard chain index next data)))))"
  by pat_completeness auto

termination
proof (relation "measure (\<lambda>(X, B, st, wildcard, chain, index, batch_count, data). 2 ^ 32 - unat batch_count)", goal_cases)
  case (2 X B st wildcard chain index batch_count data batch result data1 data2 stop data3 b')
  have "unat b' = unat batch_count + 1" "unat b' < 2 ^ 32"
    using 2 checked_plus_one_less unat_bounds(3) [of b'] by (blast, simp)
  then show ?case by simp
qed simp

declare history_loop.simps [simp del]

fun history_of_singles ::
    "('k, 'd, 'x) wctx \<Rightarrow> ('k, 'd) backend \<Rightarrow> ('k, 'd) WolletConciseState \<Rightarrow> u32 \<Rightarrow> LastUnused \<Rightarrow>
      ('k, 'd) WolletDescriptor list \<Rightarrow> Data \<Rightarrow> wollet_error fault + Data" where
  "history_of_singles X B st index last_unused [] data = Inr data"
| "history_of_singles X B st index last_unused (d # ds) data =
     (let chain = (case Chain_of_WolletDescriptor (cx_ms X) d of Some c \<Rightarrow> c | None \<Rightarrow> External)
      in rbind (history_loop X B st (wd_has_wildcard (cx_ms X) d) chain (max index (last_unused_at last_unused chain)) 0 data)
           (\<lambda>(returned, data). if returned then Inr data else history_of_singles X B st index last_unused ds data))"

definition get_history ::
    "('k, 'd, 'x) wctx \<Rightarrow> ('k, 'd) backend \<Rightarrow> ('k, 'd) WolletDescriptor \<Rightarrow> ('k, 'd) WolletConciseState \<Rightarrow> u32 \<Rightarrow> LastUnused \<Rightarrow>
      wollet_error fault + Data" where
  "get_history X B d st index last_unused =
     rbind (map_err Err (as_single_descriptors (cx_ms X) d)) (\<lambda>ds.
     history_of_singles X B st index last_unused ds Data_default)"

definition download_txs ::
    "('k, 'd, 'x) wctx \<Rightarrow> ('k, 'd) backend \<Rightarrow> Txid list \<Rightarrow> (Script, Chain \<times> ChildNumber \<times> BlindingPublicKey option) hashmap \<Rightarrow>
      ('k, 'd) WolletConciseState \<Rightarrow> ('k, 'd) WolletDescriptor \<Rightarrow> wollet_error fault + DownloadTxResult" where
  "download_txs X B history_txs_id new_scripts st d =
     rbind (bk_get_transactions B (filter (\<lambda>t. t \<notin> set (st_txs st)) history_txs_id)) (\<lambda>txs.
     Inr \<lparr>dl_txs = map (\<lambda>tx. (txid (cx_sha256d X) tx, tx)) txs,
       dl_unblinds = concat (map (\<lambda>tx.
         List.map_filter (\<lambda>(op, out). case try_unblind X out d of Inr secrets \<Rightarrow> Some (op, secrets) | Inl _ \<Rightarrow> None)
           (filter (\<lambda>(op, out). hm_contains (st_paths st) (script_pubkey out) \<or> hm_contains new_scripts (script_pubkey out))
             (indexed_outputs (txid (cx_sha256d X) tx) tx))) txs)\<rparr>)"

definition download_headers ::
    "('k, 'd) backend \<Rightarrow> Height list \<Rightarrow> (Height, BlockHash) hashmap \<Rightarrow> ('k, 'd) WolletConciseState \<Rightarrow>
      wollet_error fault + (Height \<times> Timestamp) list" where
  "download_headers B history_heights height_blockhash st =
     (let heights_in_db = List.map_filter snd (st_heights st);
          heights_to_download = filter (\<lambda>h. h \<notin> set heights_in_db) history_heights
      in if heights_to_download = [] then Inr []
         else rbind (bk_get_headers B heights_to_download height_blockhash) (\<lambda>hs.
              Inr (map (\<lambda>h. (bh_height h, bh_time h)) hs)))"

text \<open>Whether there is anything to report; the tips are compared only when nothing else has changed.\<close>

definition scan_changed ::
    "('k, 'd, 'x) wctx \<Rightarrow> ('k, 'd) WolletConciseState \<Rightarrow> Data \<Rightarrow> DownloadTxResult \<Rightarrow> (Height \<times> Timestamp) list \<Rightarrow> BlockHeader \<Rightarrow>
      wollet_error fault + bool" where
  "scan_changed X st data txs stamps tip =
     (if dl_txs txs \<noteq> [] \<or> lu_external (st_last_unused st) \<noteq> lu_external (d_last_unused data) \<or>
         lu_internal (st_last_unused st) \<noteq> lu_internal (d_last_unused data) \<or> d_scripts data \<noteq> [] \<or> stamps \<noteq> []
      then Inr True
      else rbind (map_err (map_fault ElementsEncode) (block_hash (cx_sha256d X) tip)) (\<lambda>hash.
           Inr (st_tip st \<noteq> (bh_height tip, hash))))"

definition scan_update ::
    "('k, 'd) WolletConciseState \<Rightarrow> Data \<Rightarrow> DownloadTxResult \<Rightarrow> (Height \<times> Timestamp) list \<Rightarrow> BlockHeader \<Rightarrow> Update" where
  "scan_update st data txs stamps tip =
     \<lparr>upd_version = 4, wollet_status = st_wollet_status st, new_txs = txs,
      txid_height_new = filter (\<lambda>(t, h). map_of (st_heights st) t \<noteq> Some h) (d_txid_height data),
      txid_height_delete = filter (\<lambda>t. \<not> hm_contains (d_txid_height data) t) (hm_keys (st_heights st)),
      upd_timestamps = stamps,
      scripts_with_blinding_pubkey = map (\<lambda>(script, chain, child, pk). (chain, child, script, pk)) (d_scripts data),
      upd_tip = tip, upd_unspent = d_unspent data, upd_last_unused = d_last_unused data\<rparr>"

definition scan_data ::
    "('k, 'd, 'x) wctx \<Rightarrow> ('k, 'd) backend \<Rightarrow> ('k, 'd) WolletConciseState \<Rightarrow> u32 \<Rightarrow> wollet_error fault + Data" where
  "scan_data X B st index =
     (let by_scripts = get_history X B (st_descriptor st) st index (st_last_unused st)
      in if bk_waterfalls B
         then (case bk_get_history_waterfalls B (st_descriptor st) st index of
              Inr d \<Rightarrow> Inr d
            | Inl e \<Rightarrow> if e = Err UsingWaterfallsWithElip151 then by_scripts else Inl e)
         else by_scripts)"

definition full_scan_to_index ::
    "('k, 'd, 'x) wctx \<Rightarrow> ('k, 'd) backend \<Rightarrow> ('k, 'd) WolletConciseState \<Rightarrow> u32 \<Rightarrow> wollet_error fault + Update option" where
  "full_scan_to_index X B st index =
     (if st_utxo_only st \<noteq> bk_utxo_only B then Inl (Err UtxoOnlyIncompatible)
      else rbind (scan_data X B st index) (\<lambda>data.
           rbind (bk_tip B) (\<lambda>tip.
           rbind (download_txs X B (hm_keys (d_txid_height data)) (d_scripts data) st (st_descriptor st)) (\<lambda>txs.
           rbind (download_headers B (remdups (List.map_filter snd (d_txid_height data) @ [bh_height tip]))
               (d_height_blockhash data) st) (\<lambda>stamps.
           rbind (scan_changed X st data txs stamps tip) (\<lambda>changed.
           Inr (if changed then Some (scan_update st data txs stamps tip) else None)))))))"

definition full_scan ::
    "('k, 'd, 'x) wctx \<Rightarrow> ('k, 'd) backend \<Rightarrow> ('k, 'd) WolletConciseState \<Rightarrow> wollet_error fault + Update option" where
  "full_scan X B st = full_scan_to_index X B st 0"

definition get_transaction :: "('k, 'd) backend \<Rightarrow> Txid \<Rightarrow> wollet_error fault + Transaction" where
  "get_transaction B t =
     rbind (bk_get_transactions B [t]) (\<lambda>txs. case txs of [] \<Rightarrow> Inl (Err MissingTransaction) | tx # _ \<Rightarrow> Inr tx)"

definition has_txs ::
    "('k, 'd, 'x) wctx \<Rightarrow> ('k, 'd) backend \<Rightarrow> ('k, 'd) WolletDescriptor \<Rightarrow> u32 option \<Rightarrow> wollet_error fault + bool" where
  "has_txs X B d gap_limit =
     rbind (derive_scripts_to_gap_limit (cx_ms X) d (case gap_limit of Some n \<Rightarrow> n | None \<Rightarrow> 20)) (\<lambda>ss.
     if ss = [] then Inr False
     else rbind (bk_get_scripts_history B ss) (\<lambda>hs. Inr (list_ex (\<lambda>h. h \<noteq> []) hs)))"

text \<open>The concise state gives the same scripts as the wallet it was taken from.\<close>

lemma state_get_script_batch_wallet:
  "state_get_script_batch X (wallet_state X w) b chain =
     get_script_batch (cx_ms X) (cx_secp X) (w_cache w) b (w_descriptor w) chain"
proof -
  have "state_get_or_derive X (wallet_state X w) =
      (\<lambda>e i. get_or_derive (cx_ms X) (cx_secp X) (w_cache w) e i (w_descriptor w))"
    by (simp add: state_get_or_derive_def get_or_derive_def wallet_state_def fun_eq_iff split: option.split)
  moreover have "st_descriptor (wallet_state X w) = w_descriptor w" by (simp add: wallet_state_def)
  ultimately show ?thesis unfolding state_get_script_batch_def get_script_batch_def Let_def by (simp only:)
qed

section \<open>What a scan finds on one chain\<close>

text \<open>The answer to the query for a batch of scripts, and the batch that ends the scan: no history in it, and
  the requested index is covered.\<close>

definition scan_batch ::
    "('k, 'd, 'x) wctx \<Rightarrow> ('k, 'd) backend \<Rightarrow> ('k, 'd) WolletConciseState \<Rightarrow> Chain \<Rightarrow> nat \<Rightarrow>
      wollet_error fault + ScriptBatch \<times> History list list" where
  "scan_batch X B st chain b =
     rbind (state_get_script_batch X st (of_nat b) chain) (\<lambda>batch.
     rbind (bk_get_scripts_history B (map fst (sb_value batch))) (\<lambda>r. Inr (batch, r)))"

definition histories ::
    "('k, 'd, 'x) wctx \<Rightarrow> ('k, 'd) backend \<Rightarrow> ('k, 'd) WolletConciseState \<Rightarrow> Chain \<Rightarrow> nat \<Rightarrow> History list list" where
  "histories X B st chain b = (case scan_batch X B st chain b of Inr (_, r) \<Rightarrow> r | Inl _ \<Rightarrow> [])"

definition quiet ::
    "('k, 'd, 'x) wctx \<Rightarrow> ('k, 'd) backend \<Rightarrow> ('k, 'd) WolletConciseState \<Rightarrow> Chain \<Rightarrow> u32 \<Rightarrow> nat \<Rightarrow> bool" where
  "quiet X B st chain index b \<longleftrightarrow> concat (histories X B st chain b) = [] \<and> unat index \<le> 1 + 20 * b"

definition answered ::
    "('k, 'd, 'x) wctx \<Rightarrow> ('k, 'd) backend \<Rightarrow> ('k, 'd) WolletConciseState \<Rightarrow> Chain \<Rightarrow> nat \<Rightarrow> bool" where
  "answered X B st chain b \<longleftrightarrow> 20 * b + 20 < 2 ^ 32 \<and>
     (\<exists>batch r. scan_batch X B st chain b = Inr (batch, r) \<and> length r \<le> 20 \<and>
        (\<forall>(script, c, child, pk) \<in> set (sb_value batch). pk \<noteq> None))"

definition scan_end ::
    "('k, 'd, 'x) wctx \<Rightarrow> ('k, 'd) backend \<Rightarrow> ('k, 'd) WolletConciseState \<Rightarrow> Chain \<Rightarrow> u32 \<Rightarrow> nat" where
  "scan_end X B st chain index = (LEAST b. quiet X B st chain index b)"

lemma max_used_props:
  assumes "length r \<le> 20"
  shows "max_used r = None \<longleftrightarrow> concat r = []"
    "max_used r = Some m \<Longrightarrow> unat m < length r \<and> (\<forall>i < length r. r ! i \<noteq> [] \<longrightarrow> i \<le> unat m)"
proof -
  define L where "L = [of_nat i :: u32. (i, v) \<leftarrow> List.enumerate 0 r, v \<noteq> []]"
  have L: "m \<in> set L \<longleftrightarrow> (\<exists>i < length r. r ! i \<noteq> [] \<and> m = of_nat i)" for m
    by (force simp: L_def in_set_enumerate_eq)
  have unat: "i < length r \<Longrightarrow> unat (of_nat i :: u32) = i" for i
    using assms by (simp add: unat_of_nat)
  have used: "max_used r = (if L = [] then None else Some (Max (set L)))"
    unfolding max_used_def L_def [symmetric] by (cases L) (simp_all add: Max.set_eq_fold [symmetric])
  have "concat r = [] \<longleftrightarrow> (\<forall>i < length r. r ! i = [])" by (simp add: all_set_conv_all_nth)
  also have "\<dots> \<longleftrightarrow> set L = {}" unfolding all_not_in_conv [symmetric] L by auto
  finally show "max_used r = None \<longleftrightarrow> concat r = []" using used by simp
  assume m: "max_used r = Some m"
  then have "set L \<noteq> {}" "m = Max (set L)" using used by (auto split: if_splits)
  then have "m \<in> set L" and le: "\<And>x. x \<in> set L \<Longrightarrow> x \<le> m" by simp_all
  then have "unat m < length r" using L unat by auto
  moreover have "i \<le> unat m" if "i < length r" "r ! i \<noteq> []" for i
    using le [of "of_nat i"] L unat that by (auto simp: word_le_nat_alt)
  ultimately show "unat m < length r \<and> (\<forall>i < length r. r ! i \<noteq> [] \<longrightarrow> i \<le> unat m)" by blast
qed

lemma batch_start:
  assumes "20 * b + 20 < 2 ^ 32"
  shows "checked_times (of_nat b :: u32) BATCH_SIZE = Inr (of_nat (20 * b))" "unat (of_nat (20 * b) :: u32) = 20 * b"
    "unat (of_nat b :: u32) = b"
proof -
  show "unat (of_nat (20 * b) :: u32) = 20 * b" unfolding unat_of_nat using assms by simp
  show "unat (of_nat b :: u32) = b" using assms by (simp add: unat_of_nat)
  then show "checked_times (of_nat b :: u32) BATCH_SIZE = Inr (of_nat (20 * b))"
    using assms by (simp add: checked_times_def BATCH_SIZE_def)
qed

text \<open>The index recorded after a batch with a history lies above every used index of the batch.\<close>

lemma bump_last_unused_Inr:
  assumes "20 * b + 20 < 2 ^ 32" "length r \<le> 20"
  shows "\<exists>l. bump_last_unused chain (of_nat b) r data = Inr (data\<lparr>d_last_unused := l\<rparr>) \<and>
    (\<forall>c. c \<noteq> chain \<longrightarrow> last_unused_at l c = last_unused_at (d_last_unused data) c) \<and>
    (\<forall>i < length r. r ! i \<noteq> [] \<longrightarrow> 20 * b + i < unat (last_unused_at l chain)) \<and>
    (l = d_last_unused data \<or> 20 * b < unat (last_unused_at l chain) \<and> unat (last_unused_at l chain) \<le> 20 * b + 20)"
proof (cases "max_used r")
  case None
  then have "concat r = []" using max_used_props(1) assms(2) by blast
  then have "\<forall>i < length r. r ! i = []" by (simp add: all_set_conv_all_nth)
  with None show ?thesis by (intro exI [of _ "d_last_unused data"]) (simp add: bump_last_unused_def)
next
  case (Some m)
  note m = max_used_props(2) [OF assms(2) Some]
  define i :: u32 where "i = 1 + m + of_nat (20 * b)"
  have m1: "unat (1 + m) = 1 + unat m" using m assms(2) by (simp add: unat_plus_simple)
  then have i: "unat i = 1 + unat m + 20 * b"
    using batch_start(2) [OF assms(1)] m assms by (simp add: i_def unat_plus_simple)
  have "checked_plus 1 m = (Inr (1 + m) :: wollet_error fault + u32)"
    "checked_plus (1 + m) (of_nat (20 * b)) = (Inr i :: wollet_error fault + u32)"
    using m1 batch_start(2) [OF assms(1)] m assms by (simp_all add: checked_plus_def i_def)
  then have "bump_last_unused chain (of_nat b) r data = Inr (data\<lparr>d_last_unused := (case chain of
      External \<Rightarrow> (d_last_unused data)\<lparr>lu_external := i\<rparr> | Internal \<Rightarrow> (d_last_unused data)\<lparr>lu_internal := i\<rparr>)\<rparr>)"
    using Some by (simp add: bump_last_unused_def batch_start(1) [OF assms(1)])
  moreover define l where "l = (case chain of
      External \<Rightarrow> (d_last_unused data)\<lparr>lu_external := i\<rparr> | Internal \<Rightarrow> (d_last_unused data)\<lparr>lu_internal := i\<rparr>)"
  moreover have "last_unused_at l chain = i" "\<forall>c. c \<noteq> chain \<longrightarrow> last_unused_at l c = last_unused_at (d_last_unused data) c"
    by (cases chain; simp add: l_def last_unused_at_def split: Chain.split)+
  moreover have "\<forall>i' < length r. r ! i' \<noteq> [] \<longrightarrow> 20 * b + i' < unat i" using m i by fastforce
  moreover have "20 * b < unat i" "unat i \<le> 20 * b + 20" using m assms(2) unfolding i by simp_all
  ultimately show ?thesis by (intro exI [of _ l]) simp
qed

definition entry_height :: "History \<Rightarrow> Height option" where
  "entry_height el = (if sint (h_height el) \<le> 0 then None else Some (h_height el))"

definition note_height :: "History \<Rightarrow> (Txid, Height option) hashmap \<Rightarrow> (Txid, Height option) hashmap" where
  "note_height el = hm_insert (h_txid el) (entry_height el)"

lemma record_histories:
  "d_txid_height (fold record_history es data) = fold note_height es (d_txid_height data)"
  "d_scripts (fold record_history es data) = d_scripts data"
  "d_last_unused (fold record_history es data) = d_last_unused data"
  "d_unspent (fold record_history es data) = d_unspent data"
  by (induction es arbitrary: data)
    (simp_all add: record_history_def note_height_def entry_height_def Let_def split: option.split)

text \<open>The loop started at a batch \<open>b\<close> collects the histories of the batches up to the quiet one.\<close>

definition keys_known :: "(Script, Chain \<times> ChildNumber \<times> BlindingPublicKey option) hashmap \<Rightarrow> bool" where
  "keys_known m \<longleftrightarrow> (\<forall>(script, chain, child, pk) \<in> set m. pk \<noteq> None)"

lemma set_hm_insert: "set (hm_insert k v m) \<subseteq> insert (k, v) (set m)"
  unfolding hm_insert_def by (induction m) auto

lemma keys_known_extend: "keys_known m \<Longrightarrow> keys_known kvs \<Longrightarrow> keys_known (hm_extend m kvs)"
proof (induction kvs arbitrary: m)
  case (Cons kv kvs)
  have kvs: "keys_known kvs" "keys_known (kv # m)" using Cons.prems by (simp_all add: keys_known_def)
  have "set (hm_insert (fst kv) (snd kv) m) \<subseteq> set (kv # m)" using set_hm_insert [of "fst kv" "snd kv" m] by simp
  then have "keys_known (hm_insert (fst kv) (snd kv) m)"
    using kvs(2) unfolding keys_known_def by blast
  then show ?case using Cons.IH kvs(1) by simp
qed simp

lemma history_loop_step:
  fixes data
  assumes b: "answered X B st chain b"
  defines "r \<equiv> histories X B st chain b"
  obtains data1 where
    "history_loop X B st True chain index (of_nat b) data =
       (if quiet X B st chain index b then Inr (False, data1)
        else history_loop X B st True chain index (of_nat (Suc b)) (fold record_history (concat r) data1))"
    "d_txid_height data1 = d_txid_height data" "d_unspent data1 = d_unspent data"
    "keys_known (d_scripts data) \<Longrightarrow> keys_known (d_scripts data1)"
    "\<And>c. c \<noteq> chain \<Longrightarrow> last_unused_at (d_last_unused data1) c = last_unused_at (d_last_unused data) c"
    "\<And>i. i < length r \<Longrightarrow> r ! i \<noteq> [] \<Longrightarrow> 20 * b + i < unat (last_unused_at (d_last_unused data1) chain)"
    "d_last_unused data1 = d_last_unused data \<or> 20 * b < unat (last_unused_at (d_last_unused data1) chain) \<and>
       unat (last_unused_at (d_last_unused data1) chain) \<le> 20 * b + 20"
proof -
  obtain batch r' where r': "20 * b + 20 < 2 ^ 32" "scan_batch X B st chain b = Inr (batch, r')" "length r' \<le> 20"
    "keys_known (sb_value batch)"
    using b unfolding answered_def keys_known_def by blast
  moreover from r'(2) have "r' = r" by (simp add: r_def histories_def)
  ultimately have len: "20 * b + 20 < 2 ^ 32" "length r \<le> 20" "keys_known (sb_value batch)"
    and batch: "state_get_script_batch X st (of_nat b) chain = Inr batch"
      "bk_get_scripts_history B (map fst (sb_value batch)) = Inr r"
    by (auto simp: scan_batch_def rbind_eq_Inr)
  define data0 where "data0 = (if sb_cached batch then data else data\<lparr>d_scripts := hm_extend (d_scripts data) (sb_value batch)\<rparr>)"
  have data0: "d_txid_height data0 = d_txid_height data" "d_unspent data0 = d_unspent data"
    "d_last_unused data0 = d_last_unused data" "keys_known (d_scripts data) \<Longrightarrow> keys_known (d_scripts data0)"
    using keys_known_extend len(3) by (simp_all add: data0_def)
  obtain l where l: "bump_last_unused chain (of_nat b) r data0 = Inr (data0\<lparr>d_last_unused := l\<rparr>)"
    "\<And>c. c \<noteq> chain \<Longrightarrow> last_unused_at l c = last_unused_at (d_last_unused data) c"
    "\<And>i. i < length r \<Longrightarrow> r ! i \<noteq> [] \<Longrightarrow> 20 * b + i < unat (last_unused_at l chain)"
    "l = d_last_unused data \<or> 20 * b < unat (last_unused_at l chain) \<and> unat (last_unused_at l chain) \<le> 20 * b + 20"
    using bump_last_unused_Inr [OF len(1,2), of chain data0] unfolding data0(3) by blast
  have reach: "checked_plus 1 (of_nat (20 * b)) = (Inr (1 + of_nat (20 * b)) :: wollet_error fault + u32)"
    "unat (1 + of_nat (20 * b) :: u32) = 1 + 20 * b"
    using batch_start(2) [OF len(1)] len(1) by (simp_all add: checked_plus_def unat_plus_simple)
  have stop: "(if concat r = [] then rbind (checked_times (of_nat b) BATCH_SIZE) (\<lambda>start.
      rbind (checked_plus 1 start) (\<lambda>reach. Inr (index \<le> reach))) else Inr False) =
      (Inr (quiet X B st chain index b) :: wollet_error fault + bool)"
    by (cases "concat r = []") (simp_all only: if_True if_False rbind_simps batch_start(1) [OF len(1)] reach(1)
      word_le_nat_alt reach(2) quiet_def r_def [symmetric] simp_thms)
  have step: "checked_plus (of_nat b) 1 = (Inr (of_nat (Suc b)) :: wollet_error fault + u32)"
    unfolding checked_plus_def batch_start(3) [OF len(1)] using len(1) by simp
  have "history_loop X B st True chain index (of_nat b) data =
       (if quiet X B st chain index b then Inr (False, data0\<lparr>d_last_unused := l\<rparr>)
        else history_loop X B st True chain index (of_nat (Suc b)) (fold record_history (concat r) (data0\<lparr>d_last_unused := l\<rparr>)))"
    by (subst history_loop.simps) (simp only: batch rbind_simps Let_def data0_def [symmetric] l(1) stop step if_False not_True_eq_False)
  then show thesis by (rule that) (use l(2-4) data0 in simp_all)
qed

text \<open>The histories of a chain from the batch \<open>b\<close> up to \<open>K\<close>, and what a scan of them leaves.\<close>

definition found ::
    "('k, 'd, 'x) wctx \<Rightarrow> ('k, 'd) backend \<Rightarrow> ('k, 'd) WolletConciseState \<Rightarrow> Chain \<Rightarrow> nat \<Rightarrow> nat \<Rightarrow> History list" where
  "found X B st chain b K = concat (map (\<lambda>b. concat (histories X B st chain b)) [b..<K])"

definition covers ::
    "('k, 'd, 'x) wctx \<Rightarrow> ('k, 'd) backend \<Rightarrow> ('k, 'd) WolletConciseState \<Rightarrow> Chain \<Rightarrow> nat \<Rightarrow> nat \<Rightarrow> LastUnused \<Rightarrow> bool" where
  "covers X B st chain b K l \<longleftrightarrow> (\<forall>n i. b \<le> n \<longrightarrow> n < K \<longrightarrow> i < length (histories X B st chain n) \<longrightarrow>
     histories X B st chain n ! i \<noteq> [] \<longrightarrow> 20 * n + i < unat (last_unused_at l chain))"

lemma history_loop_ends:
  assumes "quiet X B st chain index K" "\<And>n. n < K \<Longrightarrow> \<not> quiet X B st chain index n" "\<And>n. n \<le> K \<Longrightarrow> answered X B st chain n"
    and "b \<le> K" "keys_known (d_scripts data)"
  shows "\<exists>data'. history_loop X B st True chain index (of_nat b) data = Inr (False, data') \<and>
    d_txid_height data' = fold note_height (found X B st chain b K) (d_txid_height data) \<and>
    d_unspent data' = d_unspent data \<and> keys_known (d_scripts data') \<and>
    (\<forall>c. c \<noteq> chain \<longrightarrow> last_unused_at (d_last_unused data') c = last_unused_at (d_last_unused data) c) \<and>
    covers X B st chain b K (d_last_unused data') \<and>
    (last_unused_at (d_last_unused data') chain = last_unused_at (d_last_unused data) chain \<or>
     20 * b < unat (last_unused_at (d_last_unused data') chain))"
  using assms(4,5)
proof (induction "K - b" arbitrary: b data)
  case 0
  then have b: "b = K" by simp
  obtain data1 where data1: "history_loop X B st True chain index (of_nat b) data = Inr (False, data1)"
    "d_txid_height data1 = d_txid_height data" "d_unspent data1 = d_unspent data" "keys_known (d_scripts data1)"
    "\<And>c. c \<noteq> chain \<Longrightarrow> last_unused_at (d_last_unused data1) c = last_unused_at (d_last_unused data) c"
    "d_last_unused data1 = d_last_unused data \<or> 20 * b < unat (last_unused_at (d_last_unused data1) chain)"
    by (rule history_loop_step [OF assms(3) [of b], of index data]) (use 0 b assms(1) in auto)
  then show ?case by (intro exI [of _ data1]) (auto simp: found_def covers_def b)
next
  case (Suc k)
  then have b: "b < K" "\<not> quiet X B st chain index b" using assms(2) by simp_all
  define r where "r = histories X B st chain b"
  have len: "length r \<le> 20" using assms(3) [of b] b(1) by (auto simp: answered_def r_def histories_def)
  obtain data1 where data1: "history_loop X B st True chain index (of_nat b) data =
      (if quiet X B st chain index b then Inr (False, data1)
       else history_loop X B st True chain index (of_nat (Suc b)) (fold record_history (concat r) data1))"
    "d_txid_height data1 = d_txid_height data" "d_unspent data1 = d_unspent data"
    "keys_known (d_scripts data) \<Longrightarrow> keys_known (d_scripts data1)"
    "\<And>c. c \<noteq> chain \<Longrightarrow> last_unused_at (d_last_unused data1) c = last_unused_at (d_last_unused data) c"
    "\<And>i. i < length r \<Longrightarrow> r ! i \<noteq> [] \<Longrightarrow> 20 * b + i < unat (last_unused_at (d_last_unused data1) chain)"
    "d_last_unused data1 = d_last_unused data \<or> 20 * b < unat (last_unused_at (d_last_unused data1) chain) \<and>
       unat (last_unused_at (d_last_unused data1) chain) \<le> 20 * b + 20"
    by (rule history_loop_step [OF assms(3) [OF less_imp_le [OF b(1)]], of index data, folded r_def]) (rule that)
  let ?data = "fold record_history (concat r) data1"
  have "k = K - Suc b" "Suc b \<le> K" "keys_known (d_scripts ?data)"
    using Suc.hyps(2) b(1) data1(4) Suc.prems(2) by (simp_all add: record_histories)
  from Suc.hyps(1) [OF this] obtain data' where
    data': "history_loop X B st True chain index (of_nat (Suc b)) ?data = Inr (False, data')"
    "d_txid_height data' = fold note_height (found X B st chain (Suc b) K) (d_txid_height ?data)"
    "d_unspent data' = d_unspent ?data" "keys_known (d_scripts data')"
    "\<And>c. c \<noteq> chain \<Longrightarrow> last_unused_at (d_last_unused data') c = last_unused_at (d_last_unused ?data) c"
    "covers X B st chain (Suc b) K (d_last_unused data')"
    "last_unused_at (d_last_unused data') chain = last_unused_at (d_last_unused ?data) chain \<or>
     20 * Suc b < unat (last_unused_at (d_last_unused data') chain)"
    by blast
  have "found X B st chain b K = concat r @ found X B st chain (Suc b) K"
    using b(1) by (simp add: found_def r_def upt_conv_Cons)
  moreover have "20 * b + i < unat (last_unused_at (d_last_unused data') chain)" if "i < length r" "r ! i \<noteq> []" for i
    using data'(7) data1(6) [OF that] that(1) len by (auto simp: record_histories)
  then have "covers X B st chain b K (d_last_unused data')"
    using data'(6) unfolding covers_def r_def by (metis Suc_leI le_neq_implies_less)
  ultimately show ?case
    using b(2) data' data1(1-3,5,7) by (intro exI [of _ data']) (auto simp: record_histories)
qed

section \<open>What a scan finds on all chains\<close>

definition single_chain :: "('k, 'd, 'x) wctx \<Rightarrow> ('k, 'd) WolletDescriptor \<Rightarrow> Chain" where
  "single_chain X d = (case Chain_of_WolletDescriptor (cx_ms X) d of Some c \<Rightarrow> c | None \<Rightarrow> External)"

definition single_end ::
    "('k, 'd, 'x) wctx \<Rightarrow> ('k, 'd) backend \<Rightarrow> ('k, 'd) WolletConciseState \<Rightarrow> u32 \<Rightarrow> LastUnused \<Rightarrow> Chain \<Rightarrow> nat" where
  "single_end X B st index l chain = scan_end X B st chain (max index (last_unused_at l chain))"

text \<open>A descriptor with a wildcard, on whose chain some batch beyond the requested index has no history; the
  backend has answered up to there.\<close>

definition scannable ::
    "('k, 'd, 'x) wctx \<Rightarrow> ('k, 'd) backend \<Rightarrow> ('k, 'd) WolletConciseState \<Rightarrow> u32 \<Rightarrow> LastUnused \<Rightarrow> ('k, 'd) WolletDescriptor \<Rightarrow> bool" where
  "scannable X B st index l d \<longleftrightarrow> wd_has_wildcard (cx_ms X) d \<and>
     (\<exists>K. quiet X B st (single_chain X d) (max index (last_unused_at l (single_chain X d))) K \<and>
        (\<forall>n \<le> K. answered X B st (single_chain X d) n))"

definition wallet_history ::
    "('k, 'd, 'x) wctx \<Rightarrow> ('k, 'd) backend \<Rightarrow> ('k, 'd) WolletConciseState \<Rightarrow> u32 \<Rightarrow> LastUnused \<Rightarrow> ('k, 'd) WolletDescriptor list \<Rightarrow>
      History list" where
  "wallet_history X B st index l ds =
     concat (map (\<lambda>d. found X B st (single_chain X d) 0 (single_end X B st index l (single_chain X d))) ds)"

lemma single_loop_ends:
  assumes "scannable X B st index l d" "keys_known (d_scripts data)"
  defines "chain \<equiv> single_chain X d"
  defines "K \<equiv> single_end X B st index l chain"
  shows "\<exists>data'. history_loop X B st (wd_has_wildcard (cx_ms X) d) chain (max index (last_unused_at l chain)) 0 data = Inr (False, data') \<and>
    d_txid_height data' = fold note_height (found X B st chain 0 K) (d_txid_height data) \<and>
    d_unspent data' = d_unspent data \<and> keys_known (d_scripts data') \<and>
    (\<forall>c. c \<noteq> chain \<longrightarrow> last_unused_at (d_last_unused data') c = last_unused_at (d_last_unused data) c) \<and>
    covers X B st chain 0 K (d_last_unused data')"
proof -
  let ?index = "max index (last_unused_at l chain)"
  obtain K' where K': "quiet X B st chain ?index K'" "\<forall>n \<le> K'. answered X B st chain n"
    and wildcard: "wd_has_wildcard (cx_ms X) d"
    using assms(1) by (auto simp: scannable_def chain_def)
  have K: "K = (LEAST n. quiet X B st chain ?index n)" by (simp add: K_def single_end_def scan_end_def)
  have end_: "quiet X B st chain ?index K" unfolding K by (rule LeastI [of "quiet X B st chain ?index", OF K'(1)])
  have before: "\<not> quiet X B st chain ?index n" if "n < K" for n using not_less_Least that unfolding K by blast
  have "K \<le> K'" unfolding K by (rule Least_le [of "quiet X B st chain ?index", OF K'(1)])
  then have ans: "answered X B st chain n" if "n \<le> K" for n using K'(2) that by simp
  show ?thesis using history_loop_ends [OF end_ before ans zero_le assms(2)] wildcard by auto
qed

lemma history_of_singles_ends:
  assumes "\<forall>d \<in> set ds. scannable X B st index l d" "keys_known (d_scripts data)"
  shows "\<exists>data'. history_of_singles X B st index l ds data = Inr data' \<and>
    d_txid_height data' = fold note_height (wallet_history X B st index l ds) (d_txid_height data) \<and>
    d_unspent data' = d_unspent data \<and> keys_known (d_scripts data') \<and>
    (\<forall>c. c \<notin> single_chain X ` set ds \<longrightarrow> last_unused_at (d_last_unused data') c = last_unused_at (d_last_unused data) c) \<and>
    (\<forall>c \<in> single_chain X ` set ds. covers X B st c 0 (single_end X B st index l c) (d_last_unused data'))"
  using assms
proof (induction ds arbitrary: data)
  case Nil
  then show ?case by (simp add: wallet_history_def)
next
  case (Cons d ds)
  define chain where "chain = single_chain X d"
  define K where "K = single_end X B st index l chain"
  obtain data1 where data1:
    "history_loop X B st (wd_has_wildcard (cx_ms X) d) chain (max index (last_unused_at l chain)) 0 data = Inr (False, data1)"
    "d_txid_height data1 = fold note_height (found X B st chain 0 K) (d_txid_height data)"
    "d_unspent data1 = d_unspent data" "keys_known (d_scripts data1)"
    "\<And>c. c \<noteq> chain \<Longrightarrow> last_unused_at (d_last_unused data1) c = last_unused_at (d_last_unused data) c"
    "covers X B st chain 0 K (d_last_unused data1)"
    using single_loop_ends [of X B st index l d data] Cons.prems unfolding chain_def K_def by auto
  have "\<forall>d \<in> set ds. scannable X B st index l d" using Cons.prems(1) by simp
  from Cons.IH [OF this data1(4)] obtain data' where data': "history_of_singles X B st index l ds data1 = Inr data'"
    "d_txid_height data' = fold note_height (wallet_history X B st index l ds) (d_txid_height data1)"
    "d_unspent data' = d_unspent data1" "keys_known (d_scripts data')"
    "\<And>c. c \<notin> single_chain X ` set ds \<Longrightarrow> last_unused_at (d_last_unused data') c = last_unused_at (d_last_unused data1) c"
    "\<And>c. c \<in> single_chain X ` set ds \<Longrightarrow> covers X B st c 0 (single_end X B st index l c) (d_last_unused data')"
    by blast
  have "covers X B st chain 0 K (d_last_unused data')"
    using data'(5) [of chain] data'(6) [of chain] data1(6)
    by (cases "chain \<in> single_chain X ` set ds") (simp_all add: K_def covers_def)
  with data' data1 show ?case
    by (intro exI [of _ data']) (auto simp: single_chain_def [symmetric] chain_def wallet_history_def K_def Let_def)
qed

text \<open>C4. A scan ends and misses nothing before its gap. Let every chain of the wallet have, at or beyond the requested index,
  a batch of twenty scripts without history, up to which the backend answers. Then \<open>get_history\<close>
  returns, the heights it returns are those of the histories of all scripts before the first such batch, each
  transaction with the height that was reported last, and the unused index it returns for each chain lies above the index of every
  script with a history.\<close>

theorem get_history_complete:
  assumes "as_single_descriptors (cx_ms X) d = Inr ds" "\<forall>s \<in> set ds. scannable X B st index l s"
  shows "\<exists>data. get_history X B d st index l = Inr data \<and>
    d_txid_height data = fold note_height (wallet_history X B st index l ds) [] \<and>
    (\<forall>c \<in> single_chain X ` set ds. \<forall>n < single_end X B st index l c. \<forall>i < length (histories X B st c n).
       histories X B st c n ! i \<noteq> [] \<longrightarrow> 20 * n + i < unat (last_unused_at (d_last_unused data) c))"
proof -
  have "keys_known (d_scripts Data_default)" by (simp add: Data_default_def keys_known_def)
  from history_of_singles_ends [OF assms(2) this] obtain data where
    "history_of_singles X B st index l ds Data_default = Inr data"
    "d_txid_height data = fold note_height (wallet_history X B st index l ds) (d_txid_height Data_default)"
    "\<forall>c \<in> single_chain X ` set ds. covers X B st c 0 (single_end X B st index l c) (d_last_unused data)" by blast
  then show ?thesis
    using assms(1) by (intro exI [of _ data]) (simp add: get_history_def covers_def Data_default_def)
qed

section \<open>Applying what a scan found\<close>

lemma compute_known:
  "(\<forall>(chain, child, script, pk) \<in> set es. pk \<noteq> None) \<Longrightarrow> compute_blinding_pubkey_if_missing X d es = Inr es"
  by (induction es) (auto simp: compute_blinding_pubkey_if_missing_def compute_blinding_pubkey_def)

context dyn_store
begin

lemma apply_to_cache_succeeds:
  assumes "inv (txs_store c)" "\<And>t. good (tx_key t)" "good TXIDS_KEY" "upd_version u = 4"
  shows "\<exists>d. apply_to_cache X D utxo_only u entries c = (Inr (), d) \<and> cache_tip d = cache_tip c \<and>
    heights d = hm_extend (hm_retain (\<lambda>k _. k \<notin> set (txid_height_delete u)) (heights c)) (txid_height_new u) \<and>
    cache_txids d = fold List.insert (map fst (dl_txs (new_txs u))) (cache_txids c) \<and>
    last_unused_external d = max (last_unused_external c) (lu_external (upd_last_unused u)) \<and>
    last_unused_internal d = max (last_unused_internal c) (lu_internal (upd_last_unused u)) \<and>
    (utxo_only \<longrightarrow> upd_unspent u = [] \<longrightarrow> unspent d = [])"
proof -
  let ?c = "add_scripts entries (extend_unblinded (dl_unblinds (new_txs u)) c)"
  have "inv (txs_store ?c)" using assms(1) by (simp add: add_scripts_def extend_unblinded_def)
  from extend_all_txs_contents [OF this assms(2,3), of "cx_json X" "dl_txs (new_txs u)"] obtain c1 where
    c1: "extend_all_txs D (cx_json X) (dl_txs (new_txs u)) ?c = (Inr (), c1)"
      "cache_txids c1 = fold List.insert (map fst (dl_txs (new_txs u))) (cache_txids ?c)" by blast
  note same = extend_all_txs_frame [OF c1(1), unfolded same_but_store_def]
  show ?thesis
    using c1 same assms(4)
    by (simp add: apply_to_cache_def cache_update_def Let_def raise_last_unused_def update_unspent_def
        update_unspent_utxos_only_def rebuild_sorted_txids_def update_heights_def add_scripts_def extend_unblinded_def
        List.map_filter_def)
qed

end

text \<open>The changes of the heights that a scan reports turn the heights of the wallet into those of the history.\<close>

lemma heights_after_scan:
  assumes "hm_ok new"
  shows "map_of (hm_extend (hm_retain (\<lambda>k _. k \<notin> set (filter (\<lambda>t. \<not> hm_contains new t) (hm_keys hs))) hs)
      (filter (\<lambda>(t, h). map_of hs t \<noteq> Some h) new)) = map_of new"
proof -
  define f where "f t = (case map_of new t of None \<Rightarrow> None | Some h \<Rightarrow> if map_of hs t = Some h then None else Some h)" for t
  have "(t, h) \<in> set new \<longleftrightarrow> map_of new t = Some h" for t h
    using assms by (simp add: hm_ok_def)
  then have f: "(t, h) \<in> set (filter (\<lambda>(t, h). map_of hs t \<noteq> Some h) new) \<longleftrightarrow> f t = Some h" for t h
    by (auto simp: f_def split: option.splits)
  show ?thesis
    unfolding map_of_extend_fun [OF f]
    by (rule ext) (auto simp: map_add_def map_of_retain_key f_def hm_contains_def split: option.splits)
qed

lemma note_heights: "hm_ok m \<Longrightarrow> hm_ok (fold note_height es m)"
  "dom (map_of (fold note_height es m)) = h_txid ` set es \<union> dom (map_of m)"
  by (induction es arbitrary: m) (auto simp: note_height_def)

text \<open>What the wallet relies on: a tip with a hash, the transactions with the ids it asks for, and headers.\<close>

definition serves ::
    "('k, 'd, 'x) wctx \<Rightarrow> ('k, 'd) backend \<Rightarrow> ('k, 'd) WolletConciseState \<Rightarrow> BlockHeader \<Rightarrow> BlockHash \<Rightarrow> Txid set \<Rightarrow> bool" where
  "serves X B st tip hash ids \<longleftrightarrow>
     (bk_waterfalls B \<longrightarrow> bk_get_history_waterfalls B (st_descriptor st) st 0 = Inl (Err UsingWaterfallsWithElip151)) \<and>
     bk_utxo_only B = st_utxo_only st \<and>
     bk_tip B = Inr tip \<and> block_hash (cx_sha256d X) tip = Inr hash \<and> tip \<noteq> default_blockheader \<and>
     (\<forall>ts. set ts \<subseteq> ids \<longrightarrow> (\<exists>txs. bk_get_transactions B ts = Inr txs \<and> map (txid (cx_sha256d X)) txs = ts)) \<and>
     (\<forall>hs m. \<exists>headers. bk_get_headers B hs m = Inr headers)"

lemma scan_changed_Inr:
  "block_hash (cx_sha256d X) tip = Inr hash \<Longrightarrow> \<exists>changed. scan_changed X st data dl stamps tip = Inr changed \<and>
     (\<not> changed \<longrightarrow> dl_txs dl = [] \<and> st_tip st = (bh_height tip, hash))"
  by (simp add: scan_changed_def) blast

lemma full_scan_succeeds:
  assumes B: "serves X B st tip hash (h_txid ` set es)"
    and data: "get_history X B (st_descriptor st) st 0 (st_last_unused st) = Inr data"
      "d_txid_height data = fold note_height es []"
  shows "\<exists>txs stamps changed. full_scan X B st = Inr (if changed then Some (scan_update st data txs stamps tip) else None) \<and>
    h_txid ` set es \<subseteq> set (st_txs st) \<union> set (map fst (dl_txs txs)) \<and>
    (\<not> changed \<longrightarrow> dl_txs txs = [] \<and> st_tip st = (bh_height tip, hash))"
proof -
  let ?ts = "filter (\<lambda>t. t \<notin> set (st_txs st)) (hm_keys (d_txid_height data))"
  have "scan_data X B st 0 = Inr data" using B data(1) by (simp add: scan_data_def serves_def Let_def)
  moreover have ts: "set ?ts = h_txid ` set es - set (st_txs st)"
    using note_heights(2) [of es "[]"] by (auto simp: data(2))
  have "set ?ts \<subseteq> h_txid ` set es" unfolding ts by blast
  then obtain txs where txs: "bk_get_transactions B ?ts = Inr txs" "map (txid (cx_sha256d X)) txs = ?ts"
    using B unfolding serves_def by blast
  then obtain dl where dl: "download_txs X B (hm_keys (d_txid_height data)) (d_scripts data) st (st_descriptor st) = Inr dl"
    "map fst (dl_txs dl) = ?ts"
    by (simp add: download_txs_def comp_def)
  moreover obtain stamps where "download_headers B (remdups (List.map_filter snd (d_txid_height data) @ [bh_height tip]))
      (d_height_blockhash data) st = Inr stamps"
  proof -
    have "\<exists>stamps. download_headers B hs m st = Inr stamps" for hs m
      using B by (fastforce simp: download_headers_def serves_def Let_def rbind_eq_Inr)
    then show thesis using that by blast
  qed
  moreover obtain changed where "scan_changed X st data dl stamps tip = Inr changed"
    "\<not> changed \<longrightarrow> dl_txs dl = [] \<and> st_tip st = (bh_height tip, hash)"
    using B scan_changed_Inr unfolding serves_def by blast
  moreover have "st_utxo_only st = bk_utxo_only B" "bk_tip B = Inr tip" using B by (simp_all add: serves_def)
  ultimately show ?thesis
    using ts by (intro exI [of _ dl] exI [of _ stamps] exI [of _ changed]) (auto simp: full_scan_def full_scan_to_index_def)
qed

text \<open>C2. A wallet catches up with the chain. Let the backend serve the wallet, let the wallet be scannable, and let
  the tip of the backend be at most one block below the wallet's. Then \<open>full_scan\<close> returns, and an update
  that it returns is accepted: after it the wallet has the tip of the backend, its transactions and their heights are
  exactly those of the history, all of them are stored or downloaded, and no index with a history is offered as unused. When
  \<open>full_scan\<close> returns no update, the wallet already has the tip and all transactions of the history.\<close>

theorem scan_synchronises:
  fixes X :: "('k, 'd, 'x) wctx" and w :: "('k, 'd, 's, 'u) Wollet"
  defines "st \<equiv> wallet_state X w" and "l \<equiv> wallet_last_unused w"
  assumes T: "dyn_store T ok good" "\<And>t. good (tx_key t)" "good TXIDS_KEY" "ok (txs_store (w_cache w))"
    and ds: "as_single_descriptors (cx_ms X) (w_descriptor w) = Inr ds" "\<forall>d \<in> set ds. scannable X B st 0 l d"
    and B: "serves X B st tip hash (h_txid ` set (wallet_history X B st 0 l ds))"
      "unat (bh_height tip) + 1 < 2 ^ 32" "unat (fst (cache_tip (w_cache w))) \<le> unat (bh_height tip) + 1"
  shows "\<exists>r. full_scan X B st = Inr r \<and>
    (r = None \<longrightarrow> cache_tip (w_cache w) = (bh_height tip, hash) \<and>
       h_txid ` set (wallet_history X B st 0 l ds) \<subseteq> set (cache_txids (w_cache w))) \<and>
    (\<forall>u. r = Some u \<longrightarrow> (\<exists>w'. apply_update_inner X T u w = (Inr (), w') \<and>
       cache_tip (w_cache w') = (bh_height tip, hash) \<and>
       map_of (heights (w_cache w')) = map_of (fold note_height (wallet_history X B st 0 l ds) []) \<and>
       h_txid ` set (wallet_history X B st 0 l ds) \<subseteq> set (cache_txids (w_cache w')) \<and>
       (\<forall>c \<in> single_chain X ` set ds. covers X B st c 0 (single_end X B st 0 l c) (wallet_last_unused w'))))"
proof -
  define es where "es = wallet_history X B st 0 l ds"
  have st: "st_descriptor st = w_descriptor w" "st_last_unused st = l" "st_txs st = cache_txids (w_cache w)"
    "st_tip st = cache_tip (w_cache w)" "st_heights st = heights (w_cache w)" "st_wollet_status st = status X w"
    by (simp_all add: st_def l_def wallet_state_def)
  have "keys_known (d_scripts Data_default)" by (simp add: Data_default_def keys_known_def)
  from history_of_singles_ends [OF ds(2) this] obtain data where data:
    "get_history X B (st_descriptor st) st 0 (st_last_unused st) = Inr data" "d_txid_height data = fold note_height es []"
    "keys_known (d_scripts data)" "\<And>c. c \<in> single_chain X ` set ds \<Longrightarrow> covers X B st c 0 (single_end X B st 0 l c) (d_last_unused data)"
    using ds(1) by (auto simp: get_history_def st es_def Data_default_def)
  obtain txs stamps changed where scan:
    "full_scan X B st = Inr (if changed then Some (scan_update st data txs stamps tip) else None)"
    "h_txid ` set es \<subseteq> set (st_txs st) \<union> set (map fst (dl_txs txs))"
    "\<not> changed \<longrightarrow> dl_txs txs = [] \<and> st_tip st = (bh_height tip, hash)"
    using full_scan_succeeds [OF B(1) [folded es_def] data(1,2)] by blast
  let ?u = "scan_update st data txs stamps tip"
  let ?c = "(w_cache w)\<lparr>cache_tip := (bh_height tip, hash)\<rparr>" and ?entries = "scripts_with_blinding_pubkey ?u"
  have "\<forall>(chain, child, script, pk) \<in> set ?entries. pk \<noteq> None"
    using data(3) by (fastforce simp: scan_update_def keys_known_def)
  then have keys: "compute_blinding_pubkey_if_missing X (w_descriptor w) ?entries = Inr ?entries" by (rule compute_known)
  have u: "upd_version ?u = 4" "upd_tip ?u = tip" "wollet_status ?u = status X w" "new_txs ?u = txs"
    "upd_last_unused ?u = d_last_unused data" by (simp_all add: scan_update_def st)
  have moved: "move_tip (cx_sha256d X) (upd_tip ?u) (w_cache w) = Inr ?c"
    using B by (simp add: u(2) move_tip_Inr serves_def)
  have "ok (txs_store ?c)" using T(4) by simp
  from dyn_store.apply_to_cache_succeeds [OF T(1) this T(2,3) u(1), of X "w_utxo_only w" ?entries] obtain d where
    d: "apply_to_cache X T (w_utxo_only w) ?u ?entries ?c = (Inr (), d)" "cache_tip d = (bh_height tip, hash)"
      "heights d = hm_extend (hm_retain (\<lambda>k _. k \<notin> set (txid_height_delete ?u)) (heights (w_cache w))) (txid_height_new ?u)"
      "cache_txids d = fold List.insert (map fst (dl_txs txs)) (cache_txids (w_cache w))"
      "last_unused_external d = max (last_unused_external (w_cache w)) (lu_external (d_last_unused data))"
      "last_unused_internal d = max (last_unused_internal (w_cache w)) (lu_internal (d_last_unused data))"
    by (auto simp: u)
  have "apply_update_inner X T ?u w = (Inr (), w\<lparr>w_cache := d\<rparr>)"
    using keys moved d(1) by (simp add: apply_update_inner_def u)
  moreover have "map_of (heights d) = map_of (fold note_height es [])"
    using heights_after_scan [OF note_heights(1) [OF hm_ok_Nil], of es "heights (w_cache w)"]
    by (simp add: d(3) scan_update_def data(2) st)
  moreover have "h_txid ` set es \<subseteq> set (cache_txids d)" using scan(2) by (auto simp: d(4) set_fold_insert st)
  moreover have "unat (last_unused_at (d_last_unused data) c) \<le> unat (last_unused_at (wallet_last_unused (w\<lparr>w_cache := d\<rparr>)) c)" for c
    by (cases c) (simp_all add: last_unused_at_def wallet_last_unused_def d(5,6) word_le_nat_alt [symmetric])
  then have "\<forall>c \<in> single_chain X ` set ds. covers X B st c 0 (single_end X B st 0 l c) (wallet_last_unused (w\<lparr>w_cache := d\<rparr>))"
    using data(4) unfolding covers_def by (meson less_le_trans)
  ultimately show ?thesis
    using scan d(2) unfolding es_def [symmetric] st by (cases changed) auto
qed

text \<open>A wallet that tracks only its unspent outputs takes them from the update. A scan by scripts, to which
  \<open>full_scan\<close> turns for \<open>elip151\<close> descriptors, leaves them empty: after its update the wallet has none.\<close>

lemma scan_by_scripts_clears_utxos:
  assumes "\<forall>s \<in> set ds. scannable X B st index l s" "history_of_singles X B st index l ds Data_default = Inr data"
    and "w_utxo_only w" "apply_update_inner X T (scan_update st data txs stamps tip) w = (Inr (), w')"
  shows "unspent (w_cache w') = []"
proof -
  have "keys_known (d_scripts Data_default)" by (simp add: Data_default_def keys_known_def)
  from history_of_singles_ends [OF assms(1) this] assms(2) have "d_unspent data = []" by (auto simp: Data_default_def)
  then show ?thesis
    using assms(3,4) by (elim apply_inner_parts)
      (auto simp: apply_to_cache_def cache_update_def mbind_eq_Inr Let_def update_unspent_utxos_only_def scan_update_def
        raise_last_unused_def List.map_filter_def)
qed

section \<open>A sample backend\<close>

text \<open>A chain with one transaction of the sample wallet, at the first external script.\<close>

definition sample_script :: "Chain \<Rightarrow> u32 \<Rightarrow> Script" where
  "sample_script chain i = witness_script 0 (sample_program (case chain of External \<Rightarrow> 1 | Internal \<Rightarrow> 2, i))"

definition sample_entry :: History where
  "sample_entry = \<lparr>h_txid = txid id sample_payment, h_height = 7, h_block_hash = None, h_block_timestamp = None, h_v = 0\<rparr>"

definition sample_backend :: "(unit, nat) backend" where
  "sample_backend = \<lparr>bk_tip = Inr sample_header, bk_get_transactions = (\<lambda>ts. Inr (map (\<lambda>_. sample_payment) ts)),
     bk_get_headers = (\<lambda>_ _. Inr []),
     bk_get_scripts_history = (\<lambda>ss. Inr (map (\<lambda>s. if s = sample_script External 0 then [sample_entry] else []) ss)),
     bk_waterfalls = False, bk_utxo_only = False, bk_get_history_waterfalls = default_get_history_waterfalls\<rparr>"

abbreviation sample_state :: "(unit, nat) WolletConciseState" where
  "sample_state \<equiv> wallet_state sample_ctx sample_wollet"

lemma sample_get_or_derive:
  "i < 0x80000000 \<Longrightarrow>
     state_get_or_derive sample_ctx sample_state chain i = Inr (sample_script chain i, Some (2 # replicate 32 7), False)"
  by (cases chain)
    (simp_all add: state_get_or_derive_def wallet_state_def sample_wollet_def Cache_new_def derive_script_and_blinding_key_def
      sample_ctx_def sample_ms_def sample_wd_def inner_descriptor_if_available_def wd_ct_descriptor_def script_of_payload
      sample_script_def sample_program_def)

lemma batch_loop_map:
  "(\<And>j. j \<in> set js \<Longrightarrow> j < 0x80000000 \<and> get chain j = Inr (f j, pk, False)) \<Longrightarrow>
     batch_loop get chain js r = Inr \<lparr>sb_cached = (js = [] \<and> sb_cached r), sb_value = sb_value r @ map (\<lambda>j. (f j, chain, j, pk)) js\<rparr>"
  by (induction js arbitrary: r) (simp_all add: from_normal_idx_def)

lemma sample_scan_batch:
  assumes "n < 2"
  shows "scan_batch sample_ctx sample_backend sample_state chain n =
    Inr (\<lparr>sb_cached = False, sb_value = map (\<lambda>j. (sample_script chain j, chain, j, Some (2 # replicate 32 7)))
        (map of_nat [20 * n..<20 * n + 20])\<rparr>,
      map (\<lambda>j. if chain = External \<and> j = 0 then [sample_entry] else []) [20 * n..<20 * n + 20])"
proof -
  have js: "j \<in> set (map of_nat [20 * n..<20 * n + 20]) \<Longrightarrow> j < (0x80000000 :: u32)" for j
    using assms by (auto simp: word_less_nat_alt unat_of_nat)
  have "state_get_script_batch sample_ctx sample_state (of_nat n) chain =
      batch_loop (state_get_or_derive sample_ctx sample_state) chain (map of_nat [20 * n..<20 * n + 20]) \<lparr>sb_cached = True, sb_value = []\<rparr>"
    using assms
    by (simp add: state_get_script_batch_def Let_def BATCH_SIZE_def unat_of_nat mult.commute spk_count_def
        wallet_state_def sample_wollet_def sample_wd_def)
  also have "\<dots> = Inr \<lparr>sb_cached = False, sb_value = map (\<lambda>j. (sample_script chain j, chain, j, Some (2 # replicate 32 7)))
      (map of_nat [20 * n..<20 * n + 20])\<rparr>"
    using batch_loop_map [of "map of_nat [20 * n..<20 * n + 20]" "state_get_or_derive sample_ctx sample_state" chain
        "sample_script chain" "Some (2 # replicate 32 7)"] js sample_get_or_derive by simp
  finally have "state_get_script_batch sample_ctx sample_state (of_nat n) chain = \<dots>" .
  moreover have "sample_script chain (of_nat j) = sample_script External 0 \<longleftrightarrow> chain = External \<and> j = 0" if "j < 40" for j
  proof -
    have "(of_nat j :: u8) = 0 \<longleftrightarrow> j = 0" using that by (auto simp: word_of_nat_eq_0_iff dest: dvd_imp_le)
    moreover have "ucast (of_nat j :: u32) = (of_nat j :: u8)"
      using that by (simp add: unsigned_of_nat take_bit_nat_eq_self)
    ultimately show ?thesis by (cases chain) (simp_all add: sample_script_def witness_script_def sample_program_def)
  qed
  ultimately show ?thesis
    using assms by (simp add: scan_batch_def sample_backend_def)
qed

lemma sample_histories:
  "concat (histories sample_ctx sample_backend sample_state External 0) = [sample_entry]"
  "concat (histories sample_ctx sample_backend sample_state Internal 0) = []"
  "concat (histories sample_ctx sample_backend sample_state chain 1) = []"
  using sample_scan_batch [of 1 chain] by (simp_all add: histories_def sample_scan_batch upt_conv_Cons)

lemma sample_answered: "n < 2 \<Longrightarrow> answered sample_ctx sample_backend sample_state chain n"
  by (auto simp: answered_def sample_scan_batch)

definition sample_ds :: "(unit, nat) WolletDescriptor list" where
  "sample_ds = [\<lparr>wd_inner = Desc () 1, wd_is_amp0 = False\<rparr>, \<lparr>wd_inner = Desc () 2, wd_is_amp0 = False\<rparr>]"

lemma sample_singles:
  "as_single_descriptors (cx_ms sample_ctx) (w_descriptor sample_wollet) =
     Inr sample_ds"
  "single_chain sample_ctx \<lparr>wd_inner = Desc () 1, wd_is_amp0 = False\<rparr> = External"
  "single_chain sample_ctx \<lparr>wd_inner = Desc () 2, wd_is_amp0 = False\<rparr> = Internal"
  "wd_has_wildcard (cx_ms sample_ctx) \<lparr>wd_inner = Desc () d, wd_is_amp0 = False\<rparr>"
  by (simp_all add: sample_ds_def as_single_descriptors_def sample_wollet_def sample_wd_def sample_ctx_def sample_ms_def single_chain_def
      Chain_of_WolletDescriptor_def Chain_of_desc_def Chain_of_child_def sample_key_def wd_has_wildcard_def)

lemma sample_quiet:
  "quiet sample_ctx sample_backend sample_state chain 0 1" "quiet sample_ctx sample_backend sample_state Internal 0 0"
  "\<not> quiet sample_ctx sample_backend sample_state External 0 0"
  unfolding quiet_def sample_histories by simp_all

lemma sample_last_unused: "max 0 (last_unused_at (wallet_last_unused sample_wollet) chain) = 0"
  by (cases chain) (simp_all add: last_unused_at_def wallet_last_unused_def sample_wollet_def Cache_new_def)

lemma sample_scannable:
  "\<forall>d \<in> set sample_ds.
     scannable sample_ctx sample_backend sample_state 0 (wallet_last_unused sample_wollet) d"
proof -
  have "\<exists>K. quiet sample_ctx sample_backend sample_state c 0 K \<and> (\<forall>n \<le> K. answered sample_ctx sample_backend sample_state c n)" for c
    using sample_quiet(1) [of c] sample_answered by (intro exI [of _ 1]) auto
  then show ?thesis using sample_singles(2-4) by (auto simp: sample_ds_def scannable_def sample_last_unused)
qed

lemma sample_history:
  "wallet_history sample_ctx sample_backend sample_state 0 (wallet_last_unused sample_wollet)
     sample_ds = [sample_entry]"
proof -
  have "scan_end sample_ctx sample_backend sample_state External 0 = 1"
    unfolding scan_end_def
    by (rule Least_equality) (rule sample_quiet(1), use sample_quiet(3) in \<open>metis One_nat_def Suc_leI not_gr_zero\<close>)
  moreover have "scan_end sample_ctx sample_backend sample_state Internal 0 = 0"
    unfolding scan_end_def by (rule Least_equality) (rule sample_quiet(2), simp)
  ultimately show ?thesis
    using sample_singles(2,3) sample_histories(1)
    by (simp add: sample_ds_def wallet_history_def found_def single_end_def sample_last_unused)
qed

theorem get_history_complete_witness:
  "\<exists>data. get_history sample_ctx sample_backend (w_descriptor sample_wollet) sample_state 0 (wallet_last_unused sample_wollet) = Inr data \<and>
     map_of (d_txid_height data) (txid id sample_payment) = Some (Some 7)"
  using get_history_complete [OF sample_singles(1) sample_scannable]
  by (auto simp: sample_history note_height_def entry_height_def sample_entry_def)

lemma sample_serves:
  "\<exists>hash. serves sample_ctx sample_backend sample_state sample_header hash (h_txid ` set [sample_entry])"
proof -
  obtain hash where "block_hash id sample_header = Inr hash"
    by (auto simp: block_hash_def sample_header_def)
  moreover have "sample_header \<noteq> default_blockheader" by (simp add: sample_header_def default_blockheader_def)
  moreover have "map (txid id) (map (\<lambda>_. sample_payment) ts) = ts" if "set ts \<subseteq> {txid id sample_payment}" for ts
    using that by (induction ts) auto
  ultimately show ?thesis
    by (intro exI [of _ hash]) (simp add: serves_def sample_backend_def sample_entry_def wallet_state_def sample_wollet_def sample_ctx_def)
qed

theorem scan_synchronises_witness:
  "\<exists>u w'. full_scan sample_ctx sample_backend sample_state = Inr (Some u) \<and>
     apply_update_inner sample_ctx MemoryStore u sample_wollet = (Inr (), w') \<and>
     map_of (heights (w_cache w')) (txid id sample_payment) = Some (Some 7)"
proof -
  obtain hash where "serves sample_ctx sample_backend sample_state sample_header hash (h_txid ` set [sample_entry])"
    using sample_serves by blast
  note B = this [folded sample_history]
  have "unat (bh_height sample_header) + 1 < 2 ^ 32"
    "unat (fst (cache_tip (w_cache sample_wollet))) \<le> unat (bh_height sample_header) + 1"
    "txid id sample_payment \<notin> set (cache_txids (w_cache sample_wollet))"
    by (simp_all add: sample_header_def sample_wollet_def Cache_new_def)
  with scan_synchronises [OF memory_store.dyn_store_axioms TrueI TrueI TrueI sample_singles(1) sample_scannable B]
  obtain r where r: "full_scan sample_ctx sample_backend sample_state = Inr r" "r \<noteq> None"
    "\<forall>u. r = Some u \<longrightarrow> (\<exists>w'. apply_update_inner sample_ctx MemoryStore u sample_wollet = (Inr (), w') \<and>
       map_of (heights (w_cache w')) = map_of (fold note_height [sample_entry] []))"
    unfolding sample_history by (auto simp: sample_entry_def)
  then show ?thesis by (fastforce simp: note_height_def entry_height_def sample_entry_def)
qed

end
