(* ===== verification/Balances.thy ===== *)
theory Balances
  imports Scan
begin

text \<open>
  The balance against the unspent outputs: the exact sum per asset, or a panic when a sum leaves 64 bits.
\<close>

section \<open>Sums per asset\<close>

definition amount :: "WalletTxOut list \<Rightarrow> AssetId \<Rightarrow> nat" where
  "amount us a = sum_list (map (\<lambda>u. unat (sec_value (wo_unblinded u))) (filter (\<lambda>u. sec_asset (wo_unblinded u) = a) us))"

lemma amount_simps [simp]:
  "amount [] a = 0"
  "amount (u # us) a = (if sec_asset (wo_unblinded u) = a then unat (sec_value (wo_unblinded u)) else 0) + amount us a"
  by (simp_all add: amount_def)

lemma amount_mset: "mset us = mset vs \<Longrightarrow> amount us a = amount vs a"
proof -
  assume "mset us = mset vs"
  then have "mset (map (\<lambda>u. unat (sec_value (wo_unblinded u))) (filter (\<lambda>u. sec_asset (wo_unblinded u) = a) us)) =
      mset (map (\<lambda>u. unat (sec_value (wo_unblinded u))) (filter (\<lambda>u. sec_asset (wo_unblinded u) = a) vs))" by simp
  then show ?thesis unfolding amount_def by (metis sum_mset_sum_list)
qed

lemma balance_loop_exact:
  assumes "\<And>a. unat (hm_get_or 0 r a) + amount us a < 2 ^ 64"
  shows "\<exists>b. (balance_loop r us :: 'e fault + Balance) = Inr b \<and> (\<forall>a. map_of b a =
    (if map_of r a \<noteq> None \<or> a \<in> (\<lambda>u. sec_asset (wo_unblinded u)) ` set us
     then Some (of_nat (unat (hm_get_or 0 r a) + amount us a)) else None))"
  using assms
proof (induction us arbitrary: r)
  case Nil
  then show ?case by (auto simp: hm_get_or_def split: option.splits)
next
  case (Cons u us)
  define a where "a = sec_asset (wo_unblinded u)"
  define v where "v = hm_get_or 0 r a + sec_value (wo_unblinded u)"
  have "unat (hm_get_or 0 r a) + unat (sec_value (wo_unblinded u)) < 2 ^ 64"
    using Cons.prems [of a] by (simp add: a_def)
  then have v: "checked_plus (hm_get_or 0 r a) (sec_value (wo_unblinded u)) = (Inr v :: 'e fault + u64)"
    "unat v = unat (hm_get_or 0 r a) + unat (sec_value (wo_unblinded u))"
    by (simp_all add: checked_plus_def v_def unat_plus_simple)
  have r': "hm_get_or 0 (hm_insert a v r) c = (if c = a then v else hm_get_or 0 r c)" for c
    by (simp add: hm_get_or_def)
  have "unat (hm_get_or 0 (hm_insert a v r) c) + amount us c < 2 ^ 64" for c
    using Cons.prems [of c] unfolding r' by (auto simp: v(2) a_def [symmetric])
  from Cons.IH [OF this] obtain b where b: "(balance_loop (hm_insert a v r) us :: 'e fault + Balance) = Inr b" "\<forall>c. map_of b c =
      (if map_of (hm_insert a v r) c \<noteq> None \<or> c \<in> (\<lambda>u. sec_asset (wo_unblinded u)) ` set us
       then Some (of_nat (unat (hm_get_or 0 (hm_insert a v r) c) + amount us c)) else None)" by blast
  have "(balance_loop r (u # us) :: 'e fault + Balance) = Inr b" using v(1) b(1) by (simp add: a_def)
  moreover have "map_of b c = (if map_of r c \<noteq> None \<or> c \<in> (\<lambda>u. sec_asset (wo_unblinded u)) ` set (u # us)
      then Some (of_nat (unat (hm_get_or 0 r c) + amount (u # us) c)) else None)" for c
    unfolding b(2) [rule_format] r' by (auto simp: v(2) v_def a_def [symmetric])
  ultimately show ?case by blast
qed

lemma balance_loop_overflow:
  assumes "2 ^ 64 \<le> unat (hm_get_or 0 r a) + amount us a"
  shows "(balance_loop r us :: 'e fault + Balance) = Inl (Panic ''attempt to add with overflow'')"
  using assms
proof (induction us arbitrary: r)
  case Nil
  then show ?case using unat_bounds(4) [of "hm_get_or 0 r a"] by simp
next
  case (Cons u us)
  define c where "c = sec_asset (wo_unblinded u)"
  define v where "v = hm_get_or 0 r c + sec_value (wo_unblinded u)"
  show ?case
  proof (cases "unat (hm_get_or 0 r c) + unat (sec_value (wo_unblinded u)) < 2 ^ 64")
    case True
    then have v: "checked_plus (hm_get_or 0 r c) (sec_value (wo_unblinded u)) = (Inr v :: 'e fault + u64)"
      "unat v = unat (hm_get_or 0 r c) + unat (sec_value (wo_unblinded u))"
      by (simp_all add: checked_plus_def v_def unat_plus_simple)
    have "2 ^ 64 \<le> unat (hm_get_or 0 (hm_insert c v r) a) + amount us a"
      using Cons.prems v(2) by (cases "a = c") (auto simp: hm_get_or_def c_def [symmetric])
    from Cons.IH [OF this] v(1) show ?thesis by (simp add: c_def)
  qed (simp add: checked_plus_def c_def)
qed

section \<open>The balance of a wallet\<close>

text \<open>What the wallet holds of an asset: the values of its unspent outputs.\<close>

definition holding :: "('k, 'd, 's, 'u) Wollet \<Rightarrow> AssetId \<Rightarrow> nat" where
  "holding w a = sum_list (map (\<lambda>(op, script). case map_of (unblinded (w_cache w)) op of
       Some secrets \<Rightarrow> if sec_asset secrets = a then unat (sec_value secrets) else 0
     | None \<Rightarrow> 0) (unspent (w_cache w)))"

definition held_assets :: "('k, 'd, 's, 'u) Wollet \<Rightarrow> AssetId set" where
  "held_assets w = {sec_asset secrets | op script secrets.
     (op, script) \<in> set (unspent (w_cache w)) \<and> map_of (unblinded (w_cache w)) op = Some secrets}"

lemma collect_results_Cons: "collect_results (x # xs) = Inr ys \<longleftrightarrow> (\<exists>y zs. x = Inr y \<and> collect_results xs = Inr zs \<and> ys = y # zs)"
  by (auto simp: rbind_eq_Inr)

lemma utxo_secrets: "utxo_of w op script = Inr u \<Longrightarrow> map_of (unblinded (w_cache w)) op = Some (wo_unblinded u)"
  by (auto simp: utxo_of_def split: option.splits sum.splits)

lemma utxos_inner_holding:
  assumes "utxos_inner w = Inr us"
  shows "amount us a = holding w a" "(\<lambda>u. sec_asset (wo_unblinded u)) ` set us = held_assets w"
proof -
  have "amount us a = sum_list (map (\<lambda>(op, script). case map_of (unblinded (w_cache w)) op of
       Some secrets \<Rightarrow> if sec_asset secrets = a then unat (sec_value secrets) else 0 | None \<Rightarrow> 0) ops) \<and>
    (\<lambda>u. sec_asset (wo_unblinded u)) ` set us = {sec_asset secrets | op script secrets.
     (op, script) \<in> set ops \<and> map_of (unblinded (w_cache w)) op = Some secrets}"
    if "collect_results (map (\<lambda>(op, script). utxo_of w op script) ops) = Inr us" for ops us
    using that
  proof (induction ops arbitrary: us)
    case (Cons p ops)
    obtain op script where p: "p = (op, script)" by fastforce
    obtain u vs where u: "utxo_of w op script = Inr u" "us = u # vs"
      "collect_results (map (\<lambda>(op, script). utxo_of w op script) ops) = Inr vs"
      using Cons.prems by (auto simp: p rbind_eq_Inr)
    show ?case using Cons.IH [OF u(3)] utxo_secrets [OF u(1)] by (auto simp: u(2) p)
  qed simp
  from this [OF assms [unfolded utxos_inner_def]]
  show "amount us a = holding w a" "(\<lambda>u. sec_asset (wo_unblinded u)) ` set us = held_assets w"
    by (simp_all add: holding_def held_assets_def)
qed


definition sample_op :: OutPoint where
  "sample_op = \<lparr>op_txid = replicate 32 9, op_vout = 0\<rparr>"

definition rich_wollet :: "(unit, nat, memory, memory) Wollet" where
  "rich_wollet = sample_wollet\<lparr>w_cache := (Cache_new Map.empty)\<lparr>unspent := [(sample_op, sample_script External 0)],
     unblinded := [(sample_op, explicit_secrets (replicate 32 1) 5000)], paths := [(sample_script External 0, (External, 0))]\<rparr>\<rparr>"


end
