(* ===== verification/Merging.thy ===== *)
theory Merging
  imports Balances
begin

text \<open>
  Merged and coalesced updates against the updates they stand for (\<^verbatim>\<open>Update::merge\<close>, \<^verbatim>\<open>UpdatesPersister::persist\<close>): what the merged
  update leaves in the wallet, and the sequences of operations after which what was persisted no longer leads to the
  wallet that was running.
\<close>

section \<open>The contents after an update\<close>

lemma store_txs_set:
  "store_txs T txs c = (Inr (), d) \<Longrightarrow> set (cache_txids d) = set (map fst txs) \<union> set (cache_txids c)"
proof (induction txs arbitrary: c)
  case (Cons p txs)
  obtain t tx where p: "p = (t, tx)" by fastforce
  obtain c1 where c1: "store_put T (tx_key t) (encode_Transaction tx) c = (Inr (), c1)"
    "store_txs T txs (c1\<lparr>cache_txids := List.insert t (cache_txids c1)\<rparr>) = (Inr (), d)"
    using Cons.prems by (auto simp: p mbind_eq_Inr)
  show ?case using Cons.IH [OF c1(2)] store_put_frame [OF c1(1)] by (auto simp: p)
qed simp

lemma extend_all_txs_set:
  assumes "extend_all_txs T J txs c = (Inr (), d)"
  shows "set (cache_txids d) = set (map fst txs) \<union> set (cache_txids c)"
proof -
  obtain c1 where c1: "store_txs T txs c = (Inr (), c1)"
    "(if txs = [] then (Inr (), c1) else store_put T TXIDS_KEY (js_to_vec J (map txid_display (cache_txids c1))) c1) = (Inr (), d)"
    using assms by (auto simp: extend_all_txs_def mbind_eq_Inr)
  have "cache_txids d = cache_txids c1"
    using c1(2) store_put_frame [of T TXIDS_KEY _ c1 "Inr ()" d] by (auto split: if_splits)
  then show ?thesis using store_txs_set [OF c1(1)] by simp
qed

lemma apply_inner_contents:
  assumes "apply_update_inner X T u w = (Inr (), w')" "upd_version u = 4"
    and es: "compute_blinding_pubkey_if_missing X (w_descriptor w) (scripts_with_blinding_pubkey u) = Inr es"
  shows "\<exists>c. move_tip (cx_sha256d X) (upd_tip u) (w_cache w) = Inr c \<and> cache_tip (w_cache w') = cache_tip c \<and>
    w' = w\<lparr>w_cache := w_cache w'\<rparr> \<and>
    set (cache_txids (w_cache w')) = set (map fst (dl_txs (new_txs u))) \<union> set (cache_txids (w_cache w)) \<and>
    paths (w_cache w') = hm_extend (paths (w_cache w)) (map (\<lambda>(chain, child, script, pk). (script, (chain, child))) es) \<and>
    scripts (w_cache w') = hm_extend (scripts (w_cache w)) (map (\<lambda>(chain, child, script, pk). ((chain, child), (script, pk))) es) \<and>
    heights (w_cache w') = hm_extend (hm_retain (\<lambda>k _. k \<notin> set (txid_height_delete u)) (heights (w_cache w))) (txid_height_new u) \<and>
    unblinded (w_cache w') = hm_extend (unblinded (w_cache w)) (dl_unblinds (new_txs u)) \<and>
    timestamps (w_cache w') = hm_extend (timestamps (w_cache w)) (upd_timestamps u) \<and>
    last_unused_external (w_cache w') = max (last_unused_external (w_cache w)) (lu_external (upd_last_unused u)) \<and>
    last_unused_internal (w_cache w') = max (last_unused_internal (w_cache w)) (lu_internal (upd_last_unused u))"
proof -
  obtain c d where parts: "move_tip (cx_sha256d X) (upd_tip u) (w_cache w) = Inr c"
    "apply_to_cache X T (w_utxo_only w) u es c = (Inr (), d)" "w' = w\<lparr>w_cache := d\<rparr>"
    using assms(1) es by (elim apply_inner_parts) auto
  let ?c = "add_scripts es (extend_unblinded (dl_unblinds (new_txs u)) c)"
  obtain c1 where c1: "extend_all_txs T (cx_json X) (dl_txs (new_txs u)) ?c = (Inr (), c1)"
    using parts(2) by (auto simp: apply_to_cache_def cache_update_def mbind_eq_Inr)
  note same = extend_all_txs_frame [OF c1, unfolded same_but_store_def]
  obtain t where t: "c = (w_cache w)\<lparr>cache_tip := t\<rparr>"
    using parts(1) that [of "cache_tip (w_cache w)"] by (auto simp: move_tip_Inr split: if_splits)
  have ids: "set (cache_txids c1) = set (map fst (dl_txs (new_txs u))) \<union> set (cache_txids ?c)"
    using extend_all_txs_set [OF c1] .
  let ?c1 = "rebuild_sorted_txids (update_heights (txid_height_new u) (txid_height_delete u) c1)"
  define c2 where "c2 = (if w_utxo_only w then update_unspent_utxos_only (cx_env X) T (upd_unspent u) (dl_txs (new_txs u)) ?c1
    else update_unspent (cx_env X) T (txid_height_new u) (txid_height_delete u) (dl_txs (new_txs u)) ?c1)"
  have c2: "cache_txids c2 = cache_txids c1" "paths c2 = paths c1" "scripts c2 = scripts c1" "unblinded c2 = unblinded c1"
    "heights c2 = hm_extend (hm_retain (\<lambda>k _. k \<notin> set (txid_height_delete u)) (heights c1)) (txid_height_new u)"
    "cache_tip c2 = cache_tip c1" "timestamps c2 = timestamps c1"
    "last_unused_external c2 = last_unused_external c1" "last_unused_internal c2 = last_unused_internal c1"
    by (simp_all add: c2_def update_unspent_def update_unspent_utxos_only_def rebuild_sorted_txids_def update_heights_def Let_def)
  have "d = raise_last_unused (cx_env X) T u (c2\<lparr>timestamps := hm_extend (timestamps c2) (upd_timestamps u)\<rparr>)"
    using parts(2) by (simp add: apply_to_cache_def cache_update_def c1 c2_def Let_def)
  then have d: "d = c2\<lparr>timestamps := hm_extend (timestamps c2) (upd_timestamps u),
      last_unused_external := max (last_unused_external c2) (lu_external (upd_last_unused u)),
      last_unused_internal := max (last_unused_internal c2) (lu_internal (upd_last_unused u))\<rparr>"
    using assms(2) by (simp add: raise_last_unused_def)
  show ?thesis
    by (rule exI [of _ c], intro conjI) (simp_all add: parts(1,3) d c2 ids same, simp_all add: t add_scripts_def extend_unblinded_def)
qed

section \<open>Merged updates\<close>

lemma map_of_push_heights:
  "map_of (rev (foldl push_height hs following)) k =
     (case map_of (rev following) k of Some v \<Rightarrow> Some v | None \<Rightarrow> map_of (rev hs) k)"
proof (induction following rule: rev_induct)
  case (snoc p following)
  have "map_of (rev (push_height xs p)) k = (if fst p = k then Some (snd p) else map_of (rev xs) k)" for xs
    using map_of_filter_fst [of "\<lambda>t. t \<noteq> fst p" "rev xs" k] by (simp add: push_height_def rev_filter)
  with snoc show ?case by simp
qed simp

lemma merged_heights:
  "map_of (hm_extend (hm_retain (\<lambda>k _. k \<notin> set (del1 @ del2)) hs) (merge_heights new1 del2 new2)) =
     map_of (hm_extend (hm_retain (\<lambda>k _. k \<notin> set del2) (hm_extend (hm_retain (\<lambda>k _. k \<notin> set del1) hs) new1)) new2)"
proof
  fix k
  have "map_of (rev (filter (\<lambda>p. fst p \<notin> set del2) new1)) k = (if k \<notin> set del2 then map_of (rev new1) k else None)"
    using map_of_filter_fst [of "\<lambda>t. t \<notin> set del2" "rev new1" k] by (simp add: rev_filter)
  then show "map_of (hm_extend (hm_retain (\<lambda>k _. k \<notin> set (del1 @ del2)) hs) (merge_heights new1 del2 new2)) k =
     map_of (hm_extend (hm_retain (\<lambda>k _. k \<notin> set del2) (hm_extend (hm_retain (\<lambda>k _. k \<notin> set del1) hs) new1)) new2) k"
    by (simp add: map_of_extend map_add_def map_of_retain_key merge_heights_def map_of_push_heights split: option.split)
qed

lemma collect_results_append:
  "collect_results xs = Inr as \<Longrightarrow> collect_results ys = Inr bs \<Longrightarrow> collect_results (xs @ ys) = Inr (as @ bs)"
  by (induction xs arbitrary: as) (auto simp: rbind_eq_Inr)

lemma compute_append:
  "compute_blinding_pubkey_if_missing X d es = Inr as \<Longrightarrow> compute_blinding_pubkey_if_missing X d fs = Inr bs \<Longrightarrow>
     compute_blinding_pubkey_if_missing X d (es @ fs) = Inr (as @ bs)"
  by (simp add: compute_blinding_pubkey_if_missing_def collect_results_append)

lemma deleted_not_unspent:
  "op_txid op \<in> set del \<Longrightarrow> map_of (unspent (update_unspent E T new del txs c)) op = None"
proof -
  assume "op_txid op \<in> set del"
  then have "map_of (hm_retain (\<lambda>op _. \<forall>t \<in> set del. t \<noteq> op_txid op) m) op = None" for m :: "(OutPoint, Script) hashmap"
    using map_of_retain_key [of "\<lambda>op. \<forall>t \<in> set del. t \<noteq> op_txid op" m op] by auto
  then show ?thesis by (simp add: update_unspent_def Let_def)
qed

context dyn_store
begin

lemma apply_inner_succeeds:
  assumes store: "inv (txs_store (w_cache w))" "\<And>t. good (tx_key t)" "good TXIDS_KEY" and u: "upd_version u = 4"
    and guard: "wollet_status u = 0 \<or> status X w = wollet_status u"
    and es: "compute_blinding_pubkey_if_missing X (w_descriptor w) (scripts_with_blinding_pubkey u) = Inr es"
    and tip: "move_tip (cx_sha256d X) (upd_tip u) (w_cache w) = Inr c"
  shows "\<exists>w'. apply_update_inner X D u w = (Inr (), w')"
proof -
  have "txs_store c = txs_store (w_cache w)" using tip by (auto simp: move_tip_Inr split: if_splits)
  then have "inv (txs_store c)" using store(1) by simp
  from apply_to_cache_succeeds [OF this store(2,3) u, of X "w_utxo_only w" es] obtain d where
    "apply_to_cache X D (w_utxo_only w) u es c = (Inr (), d)" by blast
  then show ?thesis using guard es tip by (auto simp: apply_update_inner_def)
qed

end

lemma merged_not_unspent:
  assumes "apply_update_inner X T u w = (Inr (), w')" "\<not> w_utxo_only w" "op_txid op \<in> set (txid_height_delete u)"
  shows "map_of (unspent (w_cache w')) op = None"
proof -
  obtain es c d where parts: "apply_to_cache X T False u es c = (Inr (), d)" "w' = w\<lparr>w_cache := d\<rparr>"
    using assms(1,2) by (elim apply_inner_parts) auto
  obtain c1 where "unspent d = unspent (update_unspent (cx_env X) T (txid_height_new u) (txid_height_delete u) (dl_txs (new_txs u)) c1)"
    using parts(1) by (auto simp: apply_to_cache_def cache_update_def mbind_eq_Inr Let_def raise_last_unused_def)
  with deleted_not_unspent [OF assms(3)] parts(2) show ?thesis by simp
qed

lemma merged_tip:
  assumes "move_tip h (upd_tip u1) c = Inr c1" "move_tip h (upd_tip u2) d = Inr d1" "cache_tip d = cache_tip c1"
    and "upd_tip u2 \<noteq> default_blockheader \<longrightarrow> unat (fst (cache_tip c)) \<le> unat (bh_height (upd_tip u2)) + 1"
  shows "\<exists>e. move_tip h (upd_tip (Update_merge u1 u2)) c = Inr e \<and> cache_tip e = cache_tip d1"
proof (cases "upd_tip u2 = default_blockheader")
  case True
  then have "upd_tip (Update_merge u1 u2) = upd_tip u1" "d1 = d" using assms(2) by (simp_all add: Update_merge_def move_tip_Inr)
  then show ?thesis using assms(1,3) by simp
next
  case False
  then have "upd_tip (Update_merge u1 u2) = upd_tip u2" by (simp add: Update_merge_def)
  then show ?thesis using assms(2,4) False by (auto simp: move_tip_Inr)
qed

text \<open>C7. A merged update stands for the two updates. Let one update and then another be accepted, and
  let the tip of the second be at most one block below the tip before both. Then the merged update is accepted in
  their place and leaves the same transactions, scripts, heights, opened outputs, timestamps, unused indexes and
  tip, so that the next update finds the status it was made for. The unspent outputs are not
  among them: no output of a transaction that either update deletes is unspent after the merged
  update, not even when the second update lists the transaction again.\<close>

theorem merge_equivalent:
  assumes T: "dyn_store T ok good" "\<And>t. good (tx_key t)" "good TXIDS_KEY" "ok (txs_store (w_cache w))"
    and v: "upd_version u1 = 4" "upd_version u2 = 4" and c: "cache_ok (w_cache w)"
    and w1: "apply_update_inner X T u1 w = (Inr (), w1)" and w2: "apply_update_inner X T u2 w1 = (Inr (), w2)"
    and tip: "upd_tip u2 \<noteq> default_blockheader \<longrightarrow> unat (fst (cache_tip (w_cache w))) \<le> unat (bh_height (upd_tip u2)) + 1"
  shows "\<exists>w'. apply_update_inner X T (Update_merge u1 u2) w = (Inr (), w') \<and>
    same_contents (w_cache w') (w_cache w2) \<and> status X w' = status X w2 \<and>
    (\<not> w_utxo_only w \<longrightarrow> (\<forall>op. op_txid op \<in> set (txid_height_delete u1) \<union> set (txid_height_delete u2) \<longrightarrow>
       map_of (unspent (w_cache w')) op = None))"
proof -
  let ?m = "Update_merge u1 u2"
  obtain es1 where es1: "compute_blinding_pubkey_if_missing X (w_descriptor w) (scripts_with_blinding_pubkey u1) = Inr es1"
    using w1 by (rule apply_inner_parts)
  obtain es2 where es2: "compute_blinding_pubkey_if_missing X (w_descriptor w1) (scripts_with_blinding_pubkey u2) = Inr es2"
    using w2 by (rule apply_inner_parts)
  obtain c1 where c1: "move_tip (cx_sha256d X) (upd_tip u1) (w_cache w) = Inr c1" "cache_tip (w_cache w1) = cache_tip c1"
    and id1: "w1 = w\<lparr>w_cache := w_cache w1\<rparr>"
    using apply_inner_contents [OF w1 v(1) es1] by blast
  obtain c2 where c2: "move_tip (cx_sha256d X) (upd_tip u2) (w_cache w1) = Inr c2" "cache_tip (w_cache w2) = cache_tip c2"
    and id2: "w2 = w1\<lparr>w_cache := w_cache w2\<rparr>"
    using apply_inner_contents [OF w2 v(2) es2] by blast
  note id = arg_cong [OF id1, where f = w_descriptor, simplified] arg_cong [OF id2, where f = w_descriptor, simplified]
    arg_cong [OF id1, where f = w_network, simplified] arg_cong [OF id2, where f = w_network, simplified]
  have guard: "wollet_status ?m = 0 \<or> status X w = wollet_status ?m"
    using w1 by (auto simp: Update_merge_def apply_update_inner_def split: if_splits)
  have es: "compute_blinding_pubkey_if_missing X (w_descriptor w) (scripts_with_blinding_pubkey ?m) = Inr (es1 @ es2)"
    using es1 es2 by (simp add: Update_merge_def compute_append id)
  obtain e where e: "move_tip (cx_sha256d X) (upd_tip ?m) (w_cache w) = Inr e" "cache_tip e = cache_tip c2"
    using merged_tip [OF c1(1) c2(1) c1(2) tip] by blast
  have vm: "upd_version ?m = 4" using v(2) by (simp add: Update_merge_def)
  obtain w' where w': "apply_update_inner X T ?m w = (Inr (), w')"
    using dyn_store.apply_inner_succeeds [OF T(1,4,2,3) vm guard es e(1)] by blast
  note parts = apply_inner_contents [OF w1 v(1) es1] apply_inner_contents [OF w2 v(2) es2] apply_inner_contents [OF w' vm es]
  have same: "same_contents (w_cache w') (w_cache w2)"
    using parts e c2 merged_heights [of "txid_height_delete u1" "txid_height_delete u2" "heights (w_cache w)" "txid_height_new u1"
        "txid_height_new u2"]
    by (auto simp: same_contents_def Update_merge_def hm_extend_append max.assoc)
  have "cache_ok (w_cache w')" "cache_ok (w_cache w2)"
    using c later_inner [OF w'] later_inner [OF w1] later_inner [OF w2] by (auto simp: later_def grows_def)
  then have "Cache_hash (w_cache w') = Cache_hash (w_cache w2)" using same by (rule Cache_hash_cong)
  moreover have "w_descriptor w' = w_descriptor w" "w_network w' = w_network w"
    using later_inner [OF w'] by (simp_all add: later_def)
  ultimately have "status X w' = status X w2" by (simp add: status_def id)
  moreover have "\<not> w_utxo_only w \<longrightarrow> (\<forall>op. op_txid op \<in> set (txid_height_delete u1) \<union> set (txid_height_delete u2) \<longrightarrow>
       map_of (unspent (w_cache w')) op = None)"
    using merged_not_unspent [OF w'] by (auto simp: Update_merge_def)
  ultimately show ?thesis using w' same by blast
qed

theorem merge_equivalent_witness:
  "\<exists>w1 w2 w'. apply_update_inner sample_ctx MemoryStore sample_payment_update sample_wollet = (Inr (), w1) \<and>
     apply_update_inner sample_ctx MemoryStore sample_tip_update w1 = (Inr (), w2) \<and>
     apply_update_inner sample_ctx MemoryStore (Update_merge sample_payment_update sample_tip_update) sample_wollet = (Inr (), w') \<and>
     same_contents (w_cache w') (w_cache w2)"
proof -
  obtain w1 where w1: "apply_update_inner sample_ctx MemoryStore sample_payment_update sample_wollet = (Inr (), w1)"
    using sample_payment_applied by blast
  have v: "upd_version sample_payment_update = 4" "upd_version sample_tip_update = 4" "upd_tip sample_payment_update = default_blockheader"
    by (simp_all add: sample_payment_update_def sample_tip_update_def)
  have low: "fst (cache_tip (w_cache sample_wollet)) = 0" "cache_ok (w_cache sample_wollet)"
    by (simp_all add: sample_wollet_def Cache_new_ok) (simp add: Cache_new_def)
  have tip: "fst (cache_tip (w_cache w1)) = 0"
    using w1 by (rule apply_inner_parts)
      (use apply_inner_contents [OF w1 v(1)] v(3) low(1) in \<open>auto simp: move_tip_Inr\<close>)
  have only: "only_tip sample_tip_update" by (simp add: sample_tip_update_def only_tip_def DownloadTxResult_is_empty_def)
  obtain c where "move_tip (cx_sha256d sample_ctx) (upd_tip sample_tip_update) (w_cache w1) = Inr c"
    using tip by (auto simp: move_tip_Inr sample_tip_update_def sample_header_def block_hash_def default_blockheader_def)
  then obtain w2 where w2: "apply_update_inner sample_ctx MemoryStore sample_tip_update w1 = (Inr (), w2)"
    using apply_inner_only_tip [OF only, of sample_ctx MemoryStore w1] v(2) by (auto simp: sample_tip_update_def)
  have "upd_tip sample_tip_update \<noteq> default_blockheader \<longrightarrow>
      unat (fst (cache_tip (w_cache sample_wollet))) \<le> unat (bh_height (upd_tip sample_tip_update)) + 1"
    by (simp add: low(1))
  then show ?thesis
    using merge_equivalent [OF memory_store.dyn_store_axioms TrueI TrueI TrueI v(1,2) low(2) w1 w2] w1 w2 by blast
qed

section \<open>What is persisted and what was applied\<close>

text \<open>Two updates that only move the tip, each to the block below, are accepted one after the other; the update they are
  coalesced into is refused, and with it the restart of the wallet.\<close>

lemma coalesced_reorg_rejected:
  assumes tips: "only_tip prev" "4 \<le> upd_version prev" "only_tip u"
    and prev: "apply_update_inner X T prev wa = (Inr (), wb)"
    and low: "upd_tip u \<noteq> default_blockheader" "unat (bh_height (upd_tip u)) + 1 < unat (fst (cache_tip (w_cache wa)))"
  shows "apply_update_inner X T (coalesce prev u) wa =
    (Inl (Err (UpdateHeightTooOld (bh_height (upd_tip u)) (fst (cache_tip (w_cache wa))))), wa)"
proof -
  have "wollet_status prev = 0 \<or> status X wa = wollet_status prev"
    using prev apply_inner_only_tip [OF tips(1,2)] by blast
  moreover have "bh_height (upd_tip u) + 1 < fst (cache_tip (w_cache wa))"
    "unat (bh_height (upd_tip u)) + 1 < 2 ^ 32"
    using low(2) unat_bounds(3) [of "fst (cache_tip (w_cache wa))"] by (simp_all add: word_less_nat_alt unat_plus_simple)
  then have "move_tip (cx_sha256d X) (upd_tip u) (w_cache wa) =
      Inl (Err (UpdateHeightTooOld (bh_height (upd_tip u)) (fst (cache_tip (w_cache wa)))))"
    using low(1) by (simp add: move_tip_def checked_plus_def)
  moreover have "scripts_with_blinding_pubkey u = []" using tips(3) by (simp add: only_tip_def)
  ultimately show ?thesis
    by (auto simp: apply_update_inner_def coalesce_def compute_blinding_pubkey_if_missing_def)
qed

text \<open>Opening outputs again changes what the status covers, although nothing is persisted, and leaves the unspent
  outputs as they were: the opened outputs are not counted.\<close>

lemma reunblind_changes_view:
  assumes "reunblind X T w = (ops, w')" "ops \<noteq> []"
  shows "Cache_hash (w_cache w') \<noteq> Cache_hash (w_cache w)" "unspent (w_cache w') = unspent (w_cache w)"
    "w_persister w' = w_persister w"
proof -
  define new where "new = List.map_filter (\<lambda>(op, out, tx). case try_unblind X out (w_descriptor w) of
      Inr secrets \<Rightarrow> Some (op, secrets) | Inl _ \<Rightarrow> None) (closed_outputs X T w)"
  have w': "ops = map fst new" "w' = w\<lparr>w_cache := extend_unblinded (hm_extend [] new) (w_cache w)\<rparr>"
    using assms(1) by (auto simp: reunblind_def Let_def new_def)
  show "unspent (w_cache w') = unspent (w_cache w)" "w_persister w' = w_persister w"
    by (simp_all add: w'(2) extend_unblinded_def)
  obtain op s where op: "(op, s) \<in> set new" using assms(2) w'(1) by (cases new) auto
  then obtain out tx where "(op, out, tx) \<in> set (closed_outputs X T w)"
    unfolding new_def set_map_filter by (auto split: sum.splits)
  then have closed: "map_of (unblinded (w_cache w)) op = None"
    by (auto simp: closed_outputs_def hm_contains_def)
  have "op \<in> fst ` set new" using op by force
  then have "op \<in> dom (map_of (rev new))" by (simp add: dom_map_of_conv_image_fst)
  then have "op \<in> dom (map_of (hm_extend [] new))" unfolding map_of_extend dom_map_add by blast
  then have "op \<in> dom (map_of (rev (hm_extend [] new)))" by (simp add: dom_map_of_conv_image_fst)
  then have "op \<in> dom (map_of (unblinded (w_cache w')))"
    unfolding w'(2) by (simp add: extend_unblinded_def map_of_extend dom_map_add)
  then have "op \<in> fst ` set (unblinded (w_cache w'))" "op \<notin> fst ` set (unblinded (w_cache w))"
    using closed by (simp_all add: dom_map_of_conv_image_fst map_of_eq_None_iff)
  then have "set (unblinded (w_cache w')) \<noteq> set (unblinded (w_cache w))" by metis
  then show "Cache_hash (w_cache w') \<noteq> Cache_hash (w_cache w)"
    by (metis Cache_hash_def cache_view.select_convs(5) set_sort)
qed

end
