(* ===== verification/StakingRewards.thy ===== *)
theory StakingRewards
  imports Cache
begin

text \<open>
  Staking rewards (\<^verbatim>\<open>lwk_wollet/src/staking_rewards.rs\<close>): which coins of a wallet are rewards, when they can be spent, how they are
  gathered into batches per asset, and when a batch is converted.
\<close>

section \<open>Attribution\<close>

definition SEQUENTIA_COINBASE_MATURITY :: u32 where "SEQUENTIA_COINBASE_MATURITY = 1000"

datatype RewardSource = Solo | Direct | Lottery | Split

definition RewardSource_as_str :: "RewardSource \<Rightarrow> string" where
  "RewardSource_as_str s = (case s of Solo \<Rightarrow> ''solo'' | Direct \<Rightarrow> ''direct'' | Lottery \<Rightarrow> ''lottery'' | Split \<Rightarrow> ''split'')"

record StakingReward =
  sr_outpoint :: OutPoint
  sr_asset :: AssetId
  sr_value :: u64
  sr_source :: RewardSource
  sr_height :: "u32 option"
  sr_blocks_to_maturity :: u32
  sr_spent :: bool

definition mature :: "StakingReward \<Rightarrow> bool" where
  "mature r \<longleftrightarrow> sr_blocks_to_maturity r = 0"

definition convertible :: "StakingReward \<Rightarrow> bool" where
  "convertible r \<longleftrightarrow> mature r \<and> \<not> sr_spent r"

record OwnedOutput =
  oo_vout :: u32
  oo_script_pubkey :: Script
  oo_asset :: AssetId
  oo_value :: u64
  oo_spent :: bool

record TxFacts =
  tf_txid :: Txid
  tf_height :: "u32 option"
  tf_is_coinbase :: bool
  tf_from_me :: bool
  tf_owned_outputs :: "OwnedOutput list"

type_synonym StakingScripts = "(Script, bytes) hashmap"

datatype SignerRelation = SelfSigning | Delegated

definition blocks_to_maturity :: "u32 option \<Rightarrow> u32 \<Rightarrow> u32 \<Rightarrow> u32" where
  "blocks_to_maturity height tip_height coinbase_maturity =
     (case height of
        None \<Rightarrow> saturating_add coinbase_maturity 1
      | Some h \<Rightarrow>
          let depth = saturating_add (saturating_sub tip_height h) 1
          in saturating_sub (saturating_add coinbase_maturity 1) depth)"

text \<open>The reward that an owned output is, if it is one.\<close>

definition reward_of ::
    "StakingScripts \<Rightarrow> (bytes, SignerRelation) hashmap \<Rightarrow> u32 \<Rightarrow> u32 \<Rightarrow> TxFacts \<Rightarrow> OwnedOutput \<Rightarrow> StakingReward option" where
  "reward_of staking_scripts signer_relation tip_height coinbase_maturity tx out =
     (if oo_value out = 0 then None
      else let staking_key = map_of staking_scripts (oo_script_pubkey out)
        in if \<not> tf_is_coinbase tx \<and> staking_key = None then None
           else map_option (\<lambda>source.
             \<lparr>sr_outpoint = \<lparr>op_txid = tf_txid tx, op_vout = oo_vout out\<rparr>, sr_asset = oo_asset out, sr_value = oo_value out,
              sr_source = source, sr_height = tf_height tx,
              sr_blocks_to_maturity =
                (if tf_is_coinbase tx then blocks_to_maturity (tf_height tx) tip_height coinbase_maturity else 0),
              sr_spent = oo_spent out\<rparr>)
             (case (tf_is_coinbase tx, staking_key) of
                (False, Some _) \<Rightarrow> Some Split
              | (True, Some k) \<Rightarrow> Some (if map_of signer_relation k = Some Delegated then Lottery else Solo)
              | (True, None) \<Rightarrow> Some Direct
              | (False, None) \<Rightarrow> None))"

text \<open>Newest first, unconfirmed before all, then by outpoint.\<close>

definition reward_before :: "StakingReward \<Rightarrow> StakingReward \<Rightarrow> bool" where
  "reward_before a b =
     (let ha = (case sr_height a of Some h \<Rightarrow> h | None \<Rightarrow> 0xffffffff); hb = (case sr_height b of Some h \<Rightarrow> h | None \<Rightarrow> 0xffffffff)
      in hb < ha \<or> hb = ha \<and> outpoint_key (sr_outpoint a) \<le> outpoint_key (sr_outpoint b))"

definition attribute_rewards ::
    "TxFacts list \<Rightarrow> StakingScripts \<Rightarrow> (bytes, SignerRelation) hashmap \<Rightarrow> u32 \<Rightarrow> u32 \<Rightarrow> StakingReward list" where
  "attribute_rewards txs staking_scripts signer_relation tip_height coinbase_maturity =
     sort_by reward_before (concat (map (\<lambda>tx.
       if \<not> tf_is_coinbase tx \<and> tf_from_me tx then []
       else List.map_filter (reward_of staking_scripts signer_relation tip_height coinbase_maturity tx) (tf_owned_outputs tx)) txs))"

section \<open>Policy\<close>

datatype ConvertTarget = NativeBtc | ToAsset AssetId

definition is_target_asset :: "ConvertTarget \<Rightarrow> AssetId \<Rightarrow> bool" where
  "is_target_asset t a = (case t of ToAsset b \<Rightarrow> b = a | NativeBtc \<Rightarrow> False)"

definition is_cross_chain :: "ConvertTarget \<Rightarrow> bool" where
  "is_cross_chain t \<longleftrightarrow> t = NativeBtc"

record AutoConvertSettings =
  ac_enabled :: bool
  ac_target :: ConvertTarget
  ac_exclude :: "AssetId list"
  ac_min_receive :: u64
  ac_max_slippage_bp :: u32

definition AutoConvertSettings_default :: AutoConvertSettings where
  "AutoConvertSettings_default =
     \<lparr>ac_enabled = False, ac_target = NativeBtc, ac_exclude = [], ac_min_receive = 10000, ac_max_slippage_bp = 200\<rparr>"

record RewardBatch =
  rb_asset :: AssetId
  rb_inputs :: "OutPoint list"
  rb_value :: u64

record Quote =
  q_receives :: u64
  q_reference :: u64

text \<open>The product is taken in 128 bits, which it cannot leave.\<close>

definition slippage_bp :: "Quote \<Rightarrow> u32" where
  "slippage_bp q =
     (if q_reference q = 0 \<or> q_reference q \<le> q_receives q then 0
      else let shortfall = unat (q_reference q) - unat (q_receives q)
           in of_nat (min (shortfall * 10000 div unat (q_reference q)) 10000))"

datatype Decision =
    Convert u64
  | Disabled
  | NotConverted
  | NoMarket
  | TooSmallToPrice
  | BelowFloor u64 u64
  | SlippageTooHigh u32 u32

definition Decision_converts :: "Decision \<Rightarrow> bool" where
  "Decision_converts d = (case d of Convert _ \<Rightarrow> True | _ \<Rightarrow> False)"

definition eligible :: "AutoConvertSettings \<Rightarrow> OutPoint set \<Rightarrow> StakingReward \<Rightarrow> bool" where
  "eligible settings already_converted r \<longleftrightarrow>
     convertible r \<and> sr_outpoint r \<notin> already_converted \<and>
     \<not> is_target_asset (ac_target settings) (sr_asset r) \<and> sr_asset r \<notin> set (ac_exclude settings)"

definition add_reward :: "StakingReward \<Rightarrow> (AssetId, RewardBatch) hashmap \<Rightarrow> (AssetId, RewardBatch) hashmap" where
  "add_reward r by_asset =
     (let e = (case map_of by_asset (sr_asset r) of
            Some e \<Rightarrow> e | None \<Rightarrow> \<lparr>rb_asset = sr_asset r, rb_inputs = [], rb_value = 0\<rparr>)
      in hm_insert (sr_asset r) (e\<lparr>rb_inputs := rb_inputs e @ [sr_outpoint r],
           rb_value := saturating_add (rb_value e) (sr_value r)\<rparr>) by_asset)"

definition batch_before :: "RewardBatch \<Rightarrow> RewardBatch \<Rightarrow> bool" where
  "batch_before a b \<longleftrightarrow> rb_value b < rb_value a \<or> rb_value b = rb_value a \<and> rb_asset a \<le> rb_asset b"

definition batches :: "StakingReward list \<Rightarrow> AutoConvertSettings \<Rightarrow> OutPoint set \<Rightarrow> RewardBatch list" where
  "batches rewards settings already_converted =
     sort_by batch_before (map snd (fold add_reward (filter (eligible settings already_converted) rewards) []))"

definition decide :: "RewardBatch \<Rightarrow> Quote option \<Rightarrow> AutoConvertSettings \<Rightarrow> Decision" where
  "decide batch quote settings =
     (if \<not> ac_enabled settings then Disabled
      else if is_target_asset (ac_target settings) (rb_asset batch) \<or> rb_asset batch \<in> set (ac_exclude settings) then NotConverted
      else case quote of
          None \<Rightarrow> NoMarket
        | Some q \<Rightarrow>
            if q_receives q = 0 then (if 0 < q_reference q then TooSmallToPrice else NoMarket)
            else if ac_max_slippage_bp settings < slippage_bp q
            then SlippageTooHigh (slippage_bp q) (ac_max_slippage_bp settings)
            else if q_receives q < ac_min_receive settings then BelowFloor (q_receives q) (ac_min_receive settings)
            else Convert (q_receives q))"

section \<open>Which coins are rewards, and when they can be spent\<close>

lemma descending_then:
  fixes a b c :: "'a::linorder" and k l m :: "'b::linorder"
  shows "(b < a \<or> b = a \<and> k \<le> l) \<or> (a < b \<or> a = b \<and> l \<le> k)"
    "b < a \<or> b = a \<and> k \<le> l \<Longrightarrow> c < b \<or> c = b \<and> l \<le> m \<Longrightarrow> c < a \<or> c = a \<and> k \<le> m"
  by auto

lemma reward_order:
  "reward_before a b \<or> reward_before b a" "reward_before a b \<Longrightarrow> reward_before b c \<Longrightarrow> reward_before a c"
  unfolding reward_before_def Let_def by (rule descending_then(1), rule descending_then(2))

lemma batch_order:
  "batch_before a b \<or> batch_before b a" "batch_before a b \<Longrightarrow> batch_before b c \<Longrightarrow> batch_before a c"
  unfolding batch_before_def by (rule descending_then(1), rule descending_then(2))

lemma set_sort_rewards: "set (sort_by reward_before rs) = set rs" "set (sort_by batch_before bs) = set bs"
  by (rule mset_eq_setD, rule sort_by_props(1), rule reward_order(1), erule (1) reward_order(2))
    (rule mset_eq_setD, rule sort_by_props(1), rule batch_order(1), erule (1) batch_order(2))

lemma attribute_rewards_iff:
  "r \<in> set (attribute_rewards txs S R tip m) \<longleftrightarrow> (\<exists>tx \<in> set txs. (tf_is_coinbase tx \<or> \<not> tf_from_me tx) \<and>
     (\<exists>out \<in> set (tf_owned_outputs tx). reward_of S R tip m tx out = Some r))"
  unfolding attribute_rewards_def set_sort_rewards by (force simp: set_map_filter)

text \<open>A coinbase is spendable once its depth exceeds the maturity.\<close>

lemma matured:
  assumes "unat m < 2 ^ 32 - 1"
  shows "blocks_to_maturity height tip m = 0 \<longleftrightarrow> (\<exists>h. height = Some h \<and> unat m \<le> unat tip - unat h)"
proof (cases height)
  case None
  have "unat (saturating_add m 1) = unat m + 1" using assms by (simp add: unat_saturating_add)
  then have "saturating_add m 1 \<noteq> 0" by (metis add_is_0 one_neq_zero unat_0)
  with None show ?thesis by (simp add: blocks_to_maturity_def)
next
  case (Some h)
  let ?depth = "saturating_add (saturating_sub tip h) 1"
  have d: "unat ?depth = min (unat tip - unat h + 1) (2 ^ 32 - 1)"
    by (simp add: unat_saturating_add unat_saturating_sub)
  have "unat (saturating_sub (saturating_add m 1) ?depth) = unat m + 1 - unat ?depth"
    using assms by (simp add: unat_saturating_add unat_saturating_sub)
  then have "saturating_sub (saturating_add m 1) ?depth = 0 \<longleftrightarrow> unat m + 1 \<le> unat ?depth"
    by (metis diff_is_0_eq unat_0 unat_eq_zero)
  also have "\<dots> \<longleftrightarrow> unat m \<le> unat tip - unat h" unfolding d using assms by linarith
  finally show ?thesis by (simp add: Some blocks_to_maturity_def Let_def)
qed

section \<open>Batches\<close>

definition gathered :: "AssetId \<Rightarrow> StakingReward list \<Rightarrow> RewardBatch" where
  "gathered a rs = \<lparr>rb_asset = a, rb_inputs = map sr_outpoint rs,
     rb_value = of_nat (min (sum_list (map (\<lambda>r. unat (sr_value r)) rs)) (2 ^ 64 - 1))\<rparr>"

lemma saturating_step:
  "saturating_add (of_nat (min n (2 ^ 64 - 1))) v = (of_nat (min (n + unat v) (2 ^ 64 - 1)) :: u64)"
proof -
  define M where "M = (2 ^ 64 - 1 :: nat)"
  have M: "unat (of_nat (min k M) :: u64) = min k M" for k
    unfolding unat_of_nat by (rule mod_less) (simp add: M_def min_def)
  have "min (min n M + k) M = min (n + k) M" for k by (simp add: min_def)
  then have "unat (saturating_add (of_nat (min n M)) v) = unat (of_nat (min (n + unat v) M) :: u64)"
    unfolding unat_saturating_add M by (simp add: M_def)
  then show ?thesis unfolding M_def by (simp only: word_unat_eq_iff)
qed

lemma add_rewards:
  "map_of (fold add_reward rs []) a =
     (let rs' = filter (\<lambda>r. sr_asset r = a) rs in if rs' = [] then None else Some (gathered a rs'))"
proof (induction rs arbitrary: a rule: rev_induct)
  case (snoc r rs)
  let ?m = "fold add_reward rs []" and ?rs = "filter (\<lambda>r'. sr_asset r' = sr_asset r) rs"
  have "gathered (sr_asset r) [] = \<lparr>rb_asset = sr_asset r, rb_inputs = [], rb_value = 0\<rparr>" by (simp add: gathered_def)
  then have e: "(case map_of ?m (sr_asset r) of Some e \<Rightarrow> e | None \<Rightarrow> \<lparr>rb_asset = sr_asset r, rb_inputs = [], rb_value = 0\<rparr>) =
      gathered (sr_asset r) ?rs"
    using snoc.IH [of "sr_asset r"] by (simp add: Let_def)
  have "(gathered (sr_asset r) ?rs)\<lparr>rb_inputs := rb_inputs (gathered (sr_asset r) ?rs) @ [sr_outpoint r],
      rb_value := saturating_add (rb_value (gathered (sr_asset r) ?rs)) (sr_value r)\<rparr> = gathered (sr_asset r) (?rs @ [r])"
    using saturating_step [of "sum_list (map (\<lambda>r. unat (sr_value r)) ?rs)" "sr_value r"] by (simp add: gathered_def)
  then have "map_of (fold add_reward (rs @ [r]) []) = (map_of ?m)(sr_asset r \<mapsto> gathered (sr_asset r) (?rs @ [r]))"
    by (simp add: add_reward_def e Let_def)
  then show ?case using snoc.IH by (simp add: Let_def)
qed simp

lemma hm_ok_add_rewards: "hm_ok m \<Longrightarrow> hm_ok (fold add_reward rs m)"
  by (induction rs arbitrary: m) (simp_all add: add_reward_def Let_def)

lemma batches_iff:
  "b \<in> set (batches rewards settings spent) \<longleftrightarrow>
     (\<exists>a rs. rs = filter (\<lambda>r. eligible settings spent r \<and> sr_asset r = a) rewards \<and> rs \<noteq> [] \<and> b = gathered a rs)"
proof -
  let ?m = "fold add_reward (filter (eligible settings spent) rewards) []"
  have m: "(a, b) \<in> set ?m \<longleftrightarrow> map_of ?m a = Some b" for a b
    using hm_ok_add_rewards [of "[]"] by (simp add: hm_ok_def)
  have filter: "filter (\<lambda>r. sr_asset r = a) (filter (eligible settings spent) rewards) =
      filter (\<lambda>r. eligible settings spent r \<and> sr_asset r = a) rewards" for a
    by (simp add: conj_commute)
  have "b \<in> set (batches rewards settings spent) \<longleftrightarrow> (\<exists>a. map_of ?m a = Some b)"
    unfolding batches_def set_sort_rewards using m by force
  also have "\<dots> \<longleftrightarrow> (\<exists>a rs. rs = filter (\<lambda>r. eligible settings spent r \<and> sr_asset r = a) rewards \<and> rs \<noteq> [] \<and> b = gathered a rs)"
    unfolding add_rewards Let_def filter by auto
  finally show ?thesis .
qed

text \<open>C9. Only rewards are sold. Every coin of a batch is an output of the wallet's transactions that has a value,
  is not spent and was not converted before, of the asset of the batch, which is neither the target nor excluded; and
  it is either the output of a coinbase whose depth exceeds the maturity, or the output of another transaction, not
  sent by the wallet, that pays a staking key.\<close>

theorem converted_coins_are_rewards:
  assumes "b \<in> set (batches (attribute_rewards txs S R tip m) settings spent)" "op \<in> set (rb_inputs b)" "unat m < 2 ^ 32 - 1"
  shows "op \<notin> spent \<and> \<not> is_target_asset (ac_target settings) (rb_asset b) \<and> rb_asset b \<notin> set (ac_exclude settings) \<and>
    (\<exists>tx \<in> set txs. \<exists>out \<in> set (tf_owned_outputs tx). op = \<lparr>op_txid = tf_txid tx, op_vout = oo_vout out\<rparr> \<and>
       oo_asset out = rb_asset b \<and> oo_value out \<noteq> 0 \<and> \<not> oo_spent out \<and>
       (tf_is_coinbase tx \<and> (\<exists>h. tf_height tx = Some h \<and> unat m \<le> unat tip - unat h) \<or>
        \<not> tf_is_coinbase tx \<and> \<not> tf_from_me tx \<and> map_of S (oo_script_pubkey out) \<noteq> None))"
proof -
  obtain r where r: "r \<in> set (attribute_rewards txs S R tip m)" "eligible settings spent r" "sr_asset r = rb_asset b" "op = sr_outpoint r"
    using assms(1,2) unfolding batches_iff by (auto simp: gathered_def)
  obtain tx out where tx: "tx \<in> set txs" "tf_is_coinbase tx \<or> \<not> tf_from_me tx" "out \<in> set (tf_owned_outputs tx)"
    "reward_of S R tip m tx out = Some r"
    using r(1) unfolding attribute_rewards_iff by blast
  have out: "oo_value out \<noteq> 0" "tf_is_coinbase tx \<or> map_of S (oo_script_pubkey out) \<noteq> None"
    "sr_outpoint r = \<lparr>op_txid = tf_txid tx, op_vout = oo_vout out\<rparr>" "sr_asset r = oo_asset out" "sr_spent r = oo_spent out"
    "tf_is_coinbase tx \<Longrightarrow> sr_blocks_to_maturity r = blocks_to_maturity (tf_height tx) tip m"
    using tx(4) by (auto simp: reward_of_def Let_def split: if_splits)
  have el: "op \<notin> spent" "\<not> is_target_asset (ac_target settings) (rb_asset b)" "rb_asset b \<notin> set (ac_exclude settings)"
    "sr_blocks_to_maturity r = 0" "\<not> sr_spent r"
    using r by (simp_all add: eligible_def convertible_def mature_def)
  have "tf_is_coinbase tx \<Longrightarrow> \<exists>h. tf_height tx = Some h \<and> unat m \<le> unat tip - unat h"
    using out(6) el(4) matured [OF assms(3)] by simp
  then show ?thesis using el r(3,4) tx(1-3) out by metis
qed

definition sample_reward_tx :: TxFacts where
  "sample_reward_tx = \<lparr>tf_txid = replicate 32 9, tf_height = Some 10, tf_is_coinbase = True, tf_from_me = False,
     tf_owned_outputs = [\<lparr>oo_vout = 3, oo_script_pubkey = [0x51], oo_asset = replicate 32 1, oo_value = 5000, oo_spent = False\<rparr>]\<rparr>"

theorem converted_coins_are_rewards_witness:
  "\<exists>b \<in> set (batches (attribute_rewards [sample_reward_tx] [] [] 2000 SEQUENTIA_COINBASE_MATURITY) AutoConvertSettings_default {}).
     \<lparr>op_txid = replicate 32 9, op_vout = 3\<rparr> \<in> set (rb_inputs b) \<and> rb_asset b = replicate 32 1"
proof -
  let ?rs = "attribute_rewards [sample_reward_tx] [] [] 2000 SEQUENTIA_COINBASE_MATURITY"
  let ?op = "\<lparr>op_txid = replicate 32 9, op_vout = 3\<rparr> :: OutPoint"
  define r where "r = \<lparr>sr_outpoint = ?op, sr_asset = replicate 32 1, sr_value = 5000, sr_source = Direct, sr_height = Some 10,
    sr_blocks_to_maturity = 0, sr_spent = False\<rparr>"
  have m: "unat SEQUENTIA_COINBASE_MATURITY < 2 ^ 32 - 1" by (simp add: SEQUENTIA_COINBASE_MATURITY_def)
  have "blocks_to_maturity (Some 10) 2000 SEQUENTIA_COINBASE_MATURITY = 0"
    unfolding matured [OF m] by (simp add: SEQUENTIA_COINBASE_MATURITY_def)
  then have "?rs = [r]"
    by (simp add: attribute_rewards_def sample_reward_tx_def reward_of_def r_def sort_by_def List.map_filter_def)
  moreover have "eligible AutoConvertSettings_default {} r"
    by (simp add: eligible_def convertible_def mature_def r_def AutoConvertSettings_default_def is_target_asset_def)
  ultimately have b: "gathered (replicate 32 1) [r] \<in> set (batches ?rs AutoConvertSettings_default {})"
    unfolding batches_iff by (intro exI [of _ "replicate 32 1"] exI [of _ "[r]"]) (simp add: r_def)
  have op: "?op \<in> set (rb_inputs (gathered (replicate 32 1) [r]))" by (simp add: gathered_def r_def)
  have "rb_asset (gathered (replicate 32 1) [r]) = replicate 32 1"
    using converted_coins_are_rewards [OF b op m] by (auto simp: sample_reward_tx_def)
  with b op show ?thesis by blast
qed

text \<open>C10. When a batch is sold. A batch is converted exactly when conversion is enabled, its asset is neither the
  target nor excluded, and the book offers something for it, at least the floor, and short of the reference price by less
  than one basis point more than the cap; the decision carries what the book offers.\<close>

theorem decide_converts_iff:
  "decide batch quote settings = Convert v \<longleftrightarrow>
     ac_enabled settings \<and> \<not> is_target_asset (ac_target settings) (rb_asset batch) \<and> rb_asset batch \<notin> set (ac_exclude settings) \<and>
     (\<exists>q. quote = Some q \<and> q_receives q = v \<and> v \<noteq> 0 \<and> ac_min_receive settings \<le> v \<and>
        (q_reference q \<le> v \<or>
         (unat (q_reference q) - unat v) * 10000 < (unat (ac_max_slippage_bp settings) + 1) * unat (q_reference q)))"
proof -
  have slippage: "\<not> ac_max_slippage_bp settings < slippage_bp q \<longleftrightarrow> q_reference q \<le> q_receives q \<or>
      (unat (q_reference q) - unat (q_receives q)) * 10000 < (unat (ac_max_slippage_bp settings) + 1) * unat (q_reference q)" for q
  proof (cases "q_reference q \<le> q_receives q")
    case True
    then show ?thesis by (simp add: slippage_bp_def)
  next
    case False
    let ?short = "unat (q_reference q) - unat (q_receives q)" and ?ref = "unat (q_reference q)"
    have ref: "0 < ?ref" "q_reference q \<noteq> 0" using False by (auto simp: word_le_nat_alt)
    have short: "?short * 10000 \<le> 10000 * ?ref" by simp
    have "?short * 10000 div ?ref \<le> 10000" using div_le_mono [OF short, of ?ref] ref(1) by simp
    then have "unat (slippage_bp q) = ?short * 10000 div ?ref"
      using False ref by (simp add: slippage_bp_def Let_def unat_of_nat)
    moreover have "?short * 10000 div ?ref \<le> unat (ac_max_slippage_bp settings) \<longleftrightarrow>
        ?short * 10000 < (unat (ac_max_slippage_bp settings) + 1) * ?ref"
      using div_less_iff_less_mult [OF ref(1), of "?short * 10000" "unat (ac_max_slippage_bp settings) + 1"] by linarith
    ultimately show ?thesis using False by (simp add: word_less_nat_alt not_less)
  qed
  have "decide batch quote settings = Convert v \<longleftrightarrow>
     ac_enabled settings \<and> \<not> is_target_asset (ac_target settings) (rb_asset batch) \<and> rb_asset batch \<notin> set (ac_exclude settings) \<and>
     (\<exists>q. quote = Some q \<and> q_receives q = v \<and> v \<noteq> 0 \<and> ac_min_receive settings \<le> v \<and>
        \<not> ac_max_slippage_bp settings < slippage_bp q)"
    by (cases quote) (auto simp: decide_def)
  then show ?thesis unfolding slippage by blast
qed

end
