(* ===== verification/Spec2Isabelle.thy ===== *)
theory Spec2Isabelle
  imports Merging StakingRewards
begin

text \<open>
  \<^bold>\<open>The Sequentia wallet kit.\<close> The repository is a watch-only wallet for Sequentia, a chain of the Elements family: a
  consensus library (\<^verbatim>\<open>src/rust-elements\<close>), helpers shared by the crates (\<^verbatim>\<open>src/lwk_common\<close>), the wallet (\<^verbatim>\<open>src/lwk_wollet\<close>) and
  applications around it. This development models the consensus data, the stores and the wallet, and proves that
  they do what they are for.

  \<^bold>\<open>How the parts interact.\<close> A backend tells a scan which transactions touch the scripts of a descriptor. The scan makes an
  update, the difference between what the wallet has and what the chain has. The wallet checks the update
  against its status, applies it to its cache and persists it. Building a wallet replays the persisted updates. Balances, outputs,
  transactions and addresses are queries on the cache. Everything that is stored or hashed goes
  through the consensus encoding.

  \<^bold>\<open>Conventions.\<close> Machine integers are words of their width. A fallible function returns a sum whose left side is \<open>Err e\<close> or \<open>Panic m\<close>
  (theory \<open>Prelude\<close>); arithmetic that Rust checks in debug builds is \<open>checked_plus\<close> and its relatives, which panic. A
  function on \<open>&mut self\<close> returns its outcome with the state it leaves, also when it fails. Hash maps and sets
  are association lists and lists with distinct keys; their order stands for an iteration order, on which no property depends.
  Hash functions, the curve library, miniscript, the bech32 and base58 crates, JSON text, the cipher and the backends are parameters; what
  a property needs of them is a hypothesis, and each such property has a witness with concrete functions.

  \<^bold>\<open>Consensus library\<close> (\<^verbatim>\<open>rust-elements/src\<close>).
  \<^item> \<open>Encode\<close>, \<open>Decimal\<close>, \<open>Hex\<close>: \<^verbatim>\<open>encode.rs\<close>, number texts and \<^verbatim>\<open>hex.rs\<close>. The locale of codecs gives round trip, canonicity
    and prefix-freeness once for all types; variable-length integers are canonical.
  \<^item> \<open>TimeLocks\<close>: \<^verbatim>\<open>locktime.rs\<close> and sequence numbers; bijection with the consensus integers and bounds of the conversions.
  \<^item> \<open>Confidential\<close>, \<open>Transaction\<close>, \<open>TxSize\<close>: \<^verbatim>\<open>confidential.rs\<close>, \<^verbatim>\<open>transaction.rs\<close>. The deserializer accepts exactly the
    serializations of well-formed transactions; ids identify transactions; sizes, weights, discounts and fees
    against the bytes really written.
  \<^item> \<open>Merkle\<close>, \<open>BlockHeader\<close>: \<^verbatim>\<open>fast_merkle_root.rs\<close>, \<^verbatim>\<open>dynafed.rs\<close>, \<^verbatim>\<open>block.rs\<close>, \<^verbatim>\<open>issuance.rs\<close>. The iterative root equals the recursive
    one; headers round trip; the hash ignores the witness; compaction keeps the root.
  \<^item> \<open>Script\<close>, \<open>Address\<close>: \<^verbatim>\<open>script.rs\<close>, \<^verbatim>\<open>opcodes.rs\<close>, \<^verbatim>\<open>address.rs\<close>, \<^verbatim>\<open>blech32\<close>. The instructions of a built script are those it was built
    from, the iterator ends, templates are recognised exactly, and addresses round trip through scripts and text.

  \<^bold>\<open>Stores and persistence\<close> (\<^verbatim>\<open>lwk_common/src/store.rs\<close>, \<^verbatim>\<open>lwk_wollet/src/update.rs\<close>).
  \<^item> \<open>Store\<close>: the store interface as the locale \<open>dyn_store\<close>, interpreted on the memory and the file store; the encrypting
    wrapper refines the store it wraps. \<open>HashMap\<close> holds the maps.
  \<^item> \<open>UpdateCodec\<close>, \<open>Persister\<close>: the five versions of the update format, and the persister as an implementation of a list of updates with
    coalescing and merging, also when a removal is interrupted.

  \<^bold>\<open>The wallet\<close> (\<^verbatim>\<open>lwk_wollet/src\<close>).
  \<^item> \<open>Descriptor\<close>, \<open>Network\<close>, \<open>Cache\<close>, \<open>Wollet\<close>: \<^verbatim>\<open>descriptor.rs\<close>, \<^verbatim>\<open>lwk_common/src/network.rs\<close>, \<^verbatim>\<open>balance.rs\<close>, and \<^verbatim>\<open>cache.rs\<close>, \<^verbatim>\<open>wollet.rs\<close>: the state (records
    \<open>Cache\<close> and \<open>Wollet\<close>) and one definition per operation and query.
  \<^item> \<open>ApplyUpdate\<close>: applying updates and transactions, the builder, and the wallet as a transition system \<open>wallet_step\<close>. Along any
    sequence of operations with any outcomes the cache stays well formed and nothing learned is lost; an
    update for another state is refused and changes nothing.
  \<^item> \<open>Restart\<close>, \<open>Merging\<close>: replaying what was persisted gives back the wallet; a merged update stands for its parts, but for the
    unspent outputs; two ways in which what was persisted does not.
  \<^item> \<open>UtxoSet\<close>, \<open>Balances\<close>: the unspent outputs against the outputs that no transaction spends, and the balance
    against the unspent outputs.
  \<^item> \<open>Scan\<close>: \<^verbatim>\<open>clients/blocking/mod.rs\<close>. A scan ends, finds everything before the gap, and after its update the wallet agrees with the
    backend.
  \<^item> \<open>StakingRewards\<close>: \<^verbatim>\<open>staking_rewards.rs\<close>. Only rewards are converted, and exactly when the policy allows it.

  \<^bold>\<open>Loops.\<close> Loops over lists are recursive functions. The scan of a chain counts batches in 32 bits: it recurses only when the counter can
  be increased, which bounds it, and \<open>get_history_complete\<close> shows that it returns a result when some batch is
  quiet. The readers of the persisted updates (\<open>read_from\<close>, \<open>restore_from\<close>) are partial functions on options, since a store could
  hold a value at every index; their results are proved for stores that hold a finite list.

  \<^bold>\<open>Modelling assumptions.\<close> During one scan a backend answers equal queries equally. Locks are not poisoned and memory is not
  exhausted, but for the capacity panics of the update decoder. Logging is left out.

  \<^bold>\<open>Not modelled.\<close> Blinding, signing, taproot and signature hashes, which are curve operations; PSETs and the transaction builder,
  which are maps of types of other crates; clients, registries, exchanges, the managed and parent-chain wallets, signers, hardware
  wallets, applications and bindings, which are I/O or wrappers around other libraries. Of the wallet, the queries on PSETs
  and issuances and the legacy directory layout; of updates, their encrypted base64 form; of the clients, the
  waterfalls endpoint, which is a parameter.
\<close>

end
